(* ===== verification/Gateway_Prelude.thy ===== *)
theory Gateway_Prelude
  imports Complex_Main
begin

text \<open>
  Shared vocabulary of the development: the Python string, rounding and collection operations
  the gateway uses, the result type that stands for ``returns or raises'', table access as the
  ORM layer performs it, and the generic lemmas the component theories build on.

  A Python \<open>str\<close> is a \<^typ>\<open>string\<close>: a list of code points below 256. A Python \<open>float\<close> is the
  rational number it denotes, so sums and products are exact (the rounding error of IEEE
  arithmetic is not modelled) while the explicit \<open>round(x, n)\<close> calls of the code are. A timestamp
  (\<open>datetime\<close> in UTC) is an \<^typ>\<open>int\<close>, the microseconds since the epoch.
\<close>

named_theorems py_simps \<open>unfolding rules of the modelled Python operations\<close>
named_theorems result_simps \<open>inversion of the result type's bind\<close>
named_theorems table_simps \<open>laws of row lookup, update, insertion and deletion\<close>

section \<open>Strings\<close>

type_synonym timestamp = int
type_synonym seconds = rat

definition usecs_per_hour :: int where
  "usecs_per_hour = 3600 * 1000000"

definition usecs_per_day :: int where
  "usecs_per_day = 24 * usecs_per_hour"

definition code_point :: "char \<Rightarrow> nat" where
  "code_point c = of_char c"

text \<open>\<open>str.lower\<close> on code points below 256: ASCII and Latin-1 capitals move by 32.\<close>

definition lower_char :: "char \<Rightarrow> char" where
  "lower_char c = (let n = code_point c in
     if 65 \<le> n \<and> n \<le> 90 \<or> (192 \<le> n \<and> n \<le> 222 \<and> n \<noteq> 215) then char_of (n + 32) else c)"

definition py_lower :: "string \<Rightarrow> string" where
  "py_lower s = map lower_char s"

definition is_space :: "char \<Rightarrow> bool" where
  "is_space c = (let n = code_point c in
     9 \<le> n \<and> n \<le> 13 \<or> (28 \<le> n \<and> n \<le> 32) \<or> n = 133 \<or> n = 160)"

text \<open>\<open>rstrip\<close> and \<open>strip\<close> with the set of characters to remove.\<close>

definition rstrip_by :: "(char \<Rightarrow> bool) \<Rightarrow> string \<Rightarrow> string" where
  "rstrip_by p s = rev (dropWhile p (rev s))"

definition strip_by :: "(char \<Rightarrow> bool) \<Rightarrow> string \<Rightarrow> string" where
  "strip_by p s = rstrip_by p (dropWhile p s)"

definition py_strip :: "string \<Rightarrow> string" where
  "py_strip s = strip_by is_space s"

definition starts_with :: "string \<Rightarrow> string \<Rightarrow> bool" where
  "starts_with s p = (take (length p) s = p)"

definition ends_with :: "string \<Rightarrow> string \<Rightarrow> bool" where
  "ends_with s x = (length x \<le> length s \<and> drop (length s - length x) s = x)"

text \<open>\<open>s.split(sep, 1)[0]\<close> and the two ends of \<open>s.partition(sep)\<close>, for a one-character separator.\<close>

definition before_char :: "char \<Rightarrow> string \<Rightarrow> string" where
  "before_char c s = takeWhile (\<lambda>x. x \<noteq> c) s"

definition after_char :: "char \<Rightarrow> string \<Rightarrow> string" where
  "after_char c s = drop 1 (dropWhile (\<lambda>x. x \<noteq> c) s)"

definition is_lower_alnum :: "char \<Rightarrow> bool" where
  "is_lower_alnum c = (let n = code_point c in 97 \<le> n \<and> n \<le> 122 \<or> (48 \<le> n \<and> n \<le> 57))"

text \<open>The truth value of an optional string (\<open>None\<close> and the empty string are false).\<close>

definition truthy :: "string option \<Rightarrow> bool" where
  "truthy s = (case s of None \<Rightarrow> False | Some x \<Rightarrow> x \<noteq> [])"

section \<open>Rounding\<close>

text \<open>\<open>round(x)\<close> rounds halves to the even neighbour; \<open>round(x, n)\<close> does so at \<open>n\<close> decimals.\<close>

definition round_half_even :: "rat \<Rightarrow> int" where
  "round_half_even x = (let f = floor x; d = x - of_int f in
     if d < 1/2 then f else if d > 1/2 then f + 1 else if even f then f else f + 1)"

definition py_round :: "nat \<Rightarrow> rat \<Rightarrow> rat" where
  "py_round n x = of_int (round_half_even (x * 10 ^ n)) / 10 ^ n"

section \<open>Results: a value or the raised error\<close>

definition bind_result :: "'e + 'a \<Rightarrow> ('a \<Rightarrow> 'e + 'b) \<Rightarrow> 'e + 'b" where
  "bind_result r f = (case r of Inl e \<Rightarrow> Inl e | Inr a \<Rightarrow> f a)"

definition is_ok :: "'e + 'a \<Rightarrow> bool" where
  "is_ok r = (case r of Inl _ \<Rightarrow> False | Inr _ \<Rightarrow> True)"

text \<open>A list comprehension that stops at the first exception.\<close>

fun traverse :: "('a \<Rightarrow> 'e + 'b) \<Rightarrow> 'a list \<Rightarrow> 'e + 'b list" where
  "traverse f [] = Inr []"
| "traverse f (x # xs) = bind_result (f x) (\<lambda>y. bind_result (traverse f xs) (\<lambda>ys. Inr (y # ys)))"

section \<open>Tables\<close>

text \<open>
  A table is the list of its rows in insertion order. \<open>get_row\<close> is \<open>db.get(Model, key)\<close>,
  \<open>update_row\<close> the UPDATE of one row by primary key, \<open>delete_row\<close> the DELETE of one row.
\<close>

definition get_row :: "('r \<Rightarrow> 'k) \<Rightarrow> 'k \<Rightarrow> 'r list \<Rightarrow> 'r option" where
  "get_row key k rows = List.find (\<lambda>r. key r = k) rows"

definition update_row :: "('r \<Rightarrow> 'k) \<Rightarrow> 'k \<Rightarrow> ('r \<Rightarrow> 'r) \<Rightarrow> 'r list \<Rightarrow> 'r list" where
  "update_row key k f rows = map (\<lambda>r. if key r = k then f r else r) rows"

definition delete_row :: "('r \<Rightarrow> 'k) \<Rightarrow> 'k \<Rightarrow> 'r list \<Rightarrow> 'r list" where
  "delete_row key k rows = filter (\<lambda>r. key r \<noteq> k) rows"

text \<open>
  \<open>Result.scalar_one_or_none()\<close>: no row, one row, or \<open>MultipleResultsFound\<close>. The outer
  option is the exception.
\<close>

definition one_or_none :: "'r list \<Rightarrow> 'r option option" where
  "one_or_none rows = (case rows of [] \<Rightarrow> Some None | [r] \<Rightarrow> Some (Some r) | _ \<Rightarrow> None)"

text \<open>A UNIQUE constraint on an expression of the row.\<close>

definition unique_on :: "('r \<Rightarrow> 'k) \<Rightarrow> 'r list \<Rightarrow> bool" where
  "unique_on key rows = distinct (map key rows)"

text \<open>A UNIQUE constraint on a nullable column: NULLs never conflict.\<close>

definition unique_opt_on :: "('r \<Rightarrow> 'k option) \<Rightarrow> 'r list \<Rightarrow> bool" where
  "unique_opt_on key rows = distinct (filter (\<lambda>x. x \<noteq> None) (map key rows))"

text \<open>
  \<open>ORDER BY key DESC\<close>: a stable sort of the rows by the negated key. SQL leaves the order of rows
  with equal keys open; where that matters, the rows are first put into an arbitrary order.
\<close>

definition order_by_desc :: "('r \<Rightarrow> int) \<Rightarrow> 'r list \<Rightarrow> 'r list" where
  "order_by_desc key rows = sort_key (\<lambda>r. - key r) rows"

text \<open>Running a list of operations through a state.\<close>

definition run_steps :: "('s \<Rightarrow> 'e \<Rightarrow> 's) \<Rightarrow> 's \<Rightarrow> 'e list \<Rightarrow> 's" where
  "run_steps step s es = foldl step s es"

section \<open>Lemmas on strings\<close>

lemma starts_with_append [simp]: "starts_with (p @ s) p"
  by (simp add: starts_with_def)

lemma starts_with_decomp: "starts_with s p \<Longrightarrow> \<exists>t. s = p @ t"
  by (metis append_take_drop_id starts_with_def)

lemma ends_with_append [simp]: "ends_with (s @ x) x"
  by (simp add: ends_with_def)

lemma ends_with_decomp: "ends_with s x \<Longrightarrow> s = take (length s - length x) s @ x"
  by (metis append_take_drop_id ends_with_def)

lemma rstrip_by_id: "s = [] \<or> \<not> p (last s) \<Longrightarrow> rstrip_by p s = s"
  by (cases s rule: rev_cases) (auto simp: rstrip_by_def)

lemma rstrip_by_last: "rstrip_by p s \<noteq> [] \<Longrightarrow> \<not> p (last (rstrip_by p s))"
  by (metis hd_dropWhile last_rev rev_is_Nil_conv rstrip_by_def)

lemma rstrip_by_prefix: "\<exists>t. s = rstrip_by p s @ t"
  by (metis dropWhile_eq_drop rev_append rev_rev_ident rstrip_by_def append_take_drop_id)

lemma set_rstrip_by: "set (rstrip_by p s) \<subseteq> set s"
  by (auto simp: rstrip_by_def dest: set_dropWhileD)

lemma hd_rstrip_by: "rstrip_by p s \<noteq> [] \<Longrightarrow> hd (rstrip_by p s) = hd s"
  by (metis hd_append2 rstrip_by_prefix)

lemma length_rstrip_by: "length (rstrip_by p s) \<le> length s"
  using length_dropWhile_le [of p "rev s"] by (simp add: rstrip_by_def)

lemma set_strip_by: "set (strip_by p s) \<subseteq> set s"
  unfolding strip_by_def by (meson set_dropWhileD set_rstrip_by subset_iff)

lemma strip_by_ends:
  assumes "strip_by p s \<noteq> []"
  shows "\<not> p (hd (strip_by p s))" and "\<not> p (last (strip_by p s))"
proof -
  have ne: "dropWhile p s \<noteq> []"
    using assms by (metis strip_by_def rstrip_by_def dropWhile.simps(1) rev.simps(1))
  then show "\<not> p (hd (strip_by p s))"
    using assms by (simp add: strip_by_def hd_rstrip_by hd_dropWhile)
  show "\<not> p (last (strip_by p s))"
    using assms by (simp add: strip_by_def rstrip_by_last)
qed

lemma length_strip_by: "length (strip_by p s) \<le> length s"
  unfolding strip_by_def by (meson length_dropWhile_le length_rstrip_by order_trans)

lemma strip_by_id: "s = [] \<or> \<not> p (hd s) \<and> \<not> p (last s) \<Longrightarrow> strip_by p s = s"
  by (cases s) (auto simp: strip_by_def rstrip_by_id)

lemma before_char_append: "c \<notin> set s \<Longrightarrow> before_char c (s @ c # t) = s"
  by (simp add: before_char_def takeWhile_append)

lemma before_char_id: "c \<notin> set s \<Longrightarrow> before_char c s = s"
  by (auto simp: before_char_def)

lemma lower_char_lower_alnum: "is_lower_alnum c \<Longrightarrow> lower_char c = c"
  by (auto simp: is_lower_alnum_def lower_char_def Let_def)

lemma py_lower_id: "(\<And>c. c \<in> set s \<Longrightarrow> lower_char c = c) \<Longrightarrow> py_lower s = s"
  by (simp add: py_lower_def map_idI)

lemma py_lower_append: "py_lower (s @ t) = py_lower s @ py_lower t"
  by (simp add: py_lower_def)

lemma code_point_less: "code_point c < 256"
  by (simp add: code_point_def)

lemma lower_char_idem [simp]: "lower_char (lower_char c) = lower_char c"
proof -
  have "code_point c + 32 < 256 \<Longrightarrow> code_point (char_of (code_point c + 32)) = code_point c + 32"
    by (simp add: code_point_def)
  then show ?thesis by (auto simp: lower_char_def Let_def)
qed

lemma py_lower_idem [simp]: "py_lower (py_lower s) = py_lower s"
  by (simp add: py_lower_def)

section \<open>Lemmas on rounding\<close>

lemma round_half_even_of_int [simp]: "round_half_even (of_int n) = n"
  by (simp add: round_half_even_def)

lemma round_half_even_bounds: "\<bar>of_int (round_half_even x) - x\<bar> \<le> 1/2"
  using floor_correct [of x] by (auto simp: round_half_even_def Let_def)

lemma round_half_even_mono:
  assumes "x \<le> y"
  shows "round_half_even x \<le> round_half_even y"
proof (cases "floor x = floor y")
  case True
  then show ?thesis using assms by (auto simp: round_half_even_def Let_def)
next
  case False
  then have "floor x + 1 \<le> floor y"
    using floor_mono [OF assms] by linarith
  moreover have "round_half_even x \<le> floor x + 1" and "floor y \<le> round_half_even y"
    by (auto simp: round_half_even_def Let_def)
  ultimately show ?thesis by linarith
qed

lemma py_round_bounds: "\<bar>py_round n x - x\<bar> \<le> 1 / (2 * 10 ^ n)"
proof -
  let ?d = "of_int (round_half_even (x * 10 ^ n)) - x * 10 ^ n"
  have "py_round n x - x = ?d / 10 ^ n"
    by (simp add: py_round_def diff_divide_distrib)
  then have "\<bar>py_round n x - x\<bar> = \<bar>?d\<bar> / 10 ^ n"
    by simp
  also have "\<dots> \<le> (1/2) / 10 ^ n"
    by (intro divide_right_mono round_half_even_bounds) simp
  finally show ?thesis by simp
qed

lemma py_round_le: "py_round n x \<le> x + 1 / (2 * 10 ^ n)"
  and py_round_ge: "x - 1 / (2 * 10 ^ n) \<le> py_round n x"
  using py_round_bounds [of n x] by linarith+

lemma py_round_mono: "x \<le> y \<Longrightarrow> py_round n x \<le> py_round n y"
  by (simp add: py_round_def divide_right_mono round_half_even_mono mult_right_mono)

lemma py_round_exact: "x * 10 ^ n = of_int k \<Longrightarrow> py_round n x = x"
  by (simp add: py_round_def field_simps)

lemma py_round_of_int [simp]: "py_round n (of_int k) = of_int k"
  by (rule py_round_exact [where k = "k * 10 ^ n"]) simp

lemma py_round_0 [simp]: "py_round n 0 = 0"
  using py_round_of_int [of n 0] by simp

lemma py_round_idem [simp]: "py_round n (py_round n x) = py_round n x"
  by (rule py_round_exact [where k = "round_half_even (x * 10 ^ n)"]) (simp add: py_round_def)

section \<open>Lemmas on results\<close>

lemma bind_result_Inr [simp]: "bind_result (Inr a) f = f a"
  and bind_result_Inl [simp]: "bind_result (Inl e) f = Inl e"
  by (simp_all add: bind_result_def)

lemma bind_result_eq_Inr [result_simps]:
  "bind_result r f = Inr b \<longleftrightarrow> (\<exists>a. r = Inr a \<and> f a = Inr b)"
  by (cases r) auto

lemma bind_result_eq_Inl [result_simps]:
  "bind_result r f = Inl e \<longleftrightarrow> r = Inl e \<or> (\<exists>a. r = Inr a \<and> f a = Inl e)"
  by (cases r) auto

lemma is_ok_simps [simp]: "is_ok (Inr a)" "\<not> is_ok (Inl e)"
  by (simp_all add: is_ok_def)

lemma is_ok_iff: "is_ok r \<longleftrightarrow> (\<exists>a. r = Inr a)"
  by (cases r) auto

lemma traverse_ok: "is_ok (traverse f xs) \<longleftrightarrow> (\<forall>x \<in> set xs. is_ok (f x))"
proof (induction xs)
  case (Cons x xs)
  then show ?case by (cases "f x"; cases "traverse f xs") auto
qed simp

lemma traverse_Inr: "traverse f xs = Inr ys \<Longrightarrow> length ys = length xs \<and> list_all2 (\<lambda>x y. f x = Inr y) xs ys"
  by (induction xs arbitrary: ys) (auto simp: bind_result_def split: sum.split_asm)

section \<open>Lemmas on tables\<close>

lemma get_row_Nil [table_simps, simp]: "get_row key k [] = None"
  by (simp add: get_row_def)

lemma get_row_Cons [table_simps]:
  "get_row key k (r # rs) = (if key r = k then Some r else get_row key k rs)"
  by (simp add: get_row_def)

lemma get_row_Some: "get_row key k rows = Some r \<Longrightarrow> r \<in> set rows \<and> key r = k"
  by (auto simp: get_row_def find_Some_iff)

lemma get_row_None: "get_row key k rows = None \<longleftrightarrow> k \<notin> key ` set rows"
  by (auto simp: get_row_def find_None_iff)

lemma get_row_unique: "unique_on key rows \<Longrightarrow> r \<in> set rows \<Longrightarrow> get_row key (key r) rows = Some r"
  by (induction rows) (auto simp: unique_on_def get_row_Cons)

lemma get_row_append [table_simps]:
  "get_row key k (rs @ ss) = (case get_row key k rs of None \<Rightarrow> get_row key k ss | Some r \<Rightarrow> Some r)"
  by (induction rs) (auto simp: get_row_Cons)

lemma get_row_update [table_simps]:
  assumes "\<And>r. key (f r) = key r"
  shows "get_row key k' (update_row key k f rows) =
    (if k' = k then map_option f (get_row key k rows) else get_row key k' rows)"
  by (induction rows) (auto simp: update_row_def get_row_Cons assms)

lemma get_row_delete [table_simps]:
  "get_row key k' (delete_row key k rows) = (if k' = k then None else get_row key k' rows)"
  by (induction rows) (auto simp: delete_row_def get_row_Cons)

lemma update_row_absent: "k \<notin> key ` set rows \<Longrightarrow> update_row key k f rows = rows"
  by (induction rows) (auto simp: update_row_def)

lemma map_update_row_same:
  "(\<And>r. c (f r) = c r) \<Longrightarrow> map c (update_row key k f rows) = map c rows"
  by (induction rows) (auto simp: update_row_def)

lemma length_update_row [simp]: "length (update_row key k f rows) = length rows"
  by (simp add: update_row_def)

lemma set_update_row:
  "set (update_row key k f rows) = (\<lambda>r. if key r = k then f r else r) ` set rows"
  by (simp add: update_row_def)

lemma update_row_member:
  "r \<in> set rows \<Longrightarrow> (if key r = k then f r else r) \<in> set (update_row key k f rows)"
  by (auto simp: update_row_def)

lemma in_update_row_elim:
  assumes "r \<in> set (update_row key k f rows)"
  obtains r0 where "r0 \<in> set rows" "key r0 = k" "r = f r0" | "r \<in> set rows" "key r \<noteq> k"
  using assms by (auto simp: set_update_row)

lemma unique_on_update: "(\<And>r. c (f r) = c r) \<Longrightarrow> unique_on c (update_row key k f rows) = unique_on c rows"
  by (simp add: unique_on_def map_update_row_same)

lemma unique_opt_on_update:
  "(\<And>r. c (f r) = c r) \<Longrightarrow> unique_opt_on c (update_row key k f rows) = unique_opt_on c rows"
  by (simp add: unique_opt_on_def map_update_row_same)

lemma unique_on_delete: "unique_on c rows \<Longrightarrow> unique_on c (delete_row key k rows)"
  by (simp add: unique_on_def delete_row_def distinct_map_filter)

lemma unique_on_snoc: "unique_on c (rows @ [r]) \<longleftrightarrow> unique_on c rows \<and> c r \<notin> c ` set rows"
  by (auto simp: unique_on_def)

lemma unique_opt_on_snoc:
  "unique_opt_on c (rows @ [r]) \<longleftrightarrow> unique_opt_on c rows \<and> (c r = None \<or> c r \<notin> c ` set rows)"
  by (auto simp: unique_opt_on_def)

lemma filter_unique:
  assumes "unique_on c rows"
  shows "filter (\<lambda>r. c r = k) rows = (case get_row c k rows of None \<Rightarrow> [] | Some r \<Rightarrow> [r])"
  using assms
proof (induction rows)
  case (Cons r rows)
  then show ?case
    by (auto simp: unique_on_def get_row_Cons get_row_None [THEN iffD2])
qed simp

lemma one_or_none_unique:
  "unique_on c rows \<Longrightarrow> one_or_none (filter (\<lambda>r. c r = k) rows) = Some (get_row c k rows)"
  by (simp add: filter_unique one_or_none_def split: option.splits)

lemma one_or_none_Some_Some: "one_or_none rows = Some (Some r) \<longleftrightarrow> rows = [r]"
  by (auto simp: one_or_none_def split: list.splits)

lemma one_or_none_Some_None: "one_or_none rows = Some None \<longleftrightarrow> rows = []"
  by (auto simp: one_or_none_def split: list.splits)

lemma order_by_desc_set [simp]: "set (order_by_desc key rows) = set rows"
  by (simp add: order_by_desc_def)

lemma order_by_desc_length [simp]: "length (order_by_desc key rows) = length rows"
  by (simp add: order_by_desc_def)

lemma run_steps_Nil [simp]: "run_steps step s [] = s"
  and run_steps_Cons [simp]: "run_steps step s (e # es) = run_steps step (step s e) es"
  and run_steps_append [simp]: "run_steps step s (es @ fs) = run_steps step (run_steps step s es) fs"
  by (simp_all add: run_steps_def)

section \<open>Invariants of step machines\<close>

text \<open>
  The contract shared by every stateful component: a step function over events and a predicate
  that each step keeps. A client gets that every run keeps it, and that a quantity no step
  decreases never decreases along a run.
\<close>

locale step_invariant =
  fixes step :: "'s \<Rightarrow> 'e \<Rightarrow> 's" and inv :: "'s \<Rightarrow> bool"
  assumes step_keeps: "inv s \<Longrightarrow> inv (step s e)"
begin

lemma run_keeps: "inv s \<Longrightarrow> inv (run_steps step s es)"
  by (induction es arbitrary: s) (simp_all add: step_keeps)

lemma run_monotone:
  fixes f :: "'s \<Rightarrow> 'o::order"
  assumes "\<And>s e. inv s \<Longrightarrow> f s \<le> f (step s e)" and "inv s"
  shows "f s \<le> f (run_steps step s es)"
  using assms(2)
proof (induction es arbitrary: s)
  case (Cons e es)
  have "f s \<le> f (step s e)"
    using assms(1) Cons.prems .
  also have "\<dots> \<le> f (run_steps step (step s e) es)"
    using Cons.IH [OF step_keeps [OF Cons.prems]] .
  finally show ?case by simp
qed simp

end

end
