(* ===== verification/Py_Uuid.thy ===== *)
theory Py_Uuid
  imports Gateway_Prelude "HOL-Library.Word"
begin

text \<open>
  UUIDs as the gateway uses them: 128-bit values, printed by \<open>str(u)\<close> and read back by
  \<open>uuid.UUID(text)\<close>, which raises \<open>ValueError\<close> (here \<^term>\<open>None\<close>) on anything else. Both
  are the standard library's; the reader is modelled with its leniencies (braces, \<open>urn:uuid:\<close>,
  misplaced dashes, and what \<open>int(text, 16)\<close> accepts) because tokens and webhooks feed it
  outside text. Decimal printing of integers (\<open>str(n)\<close>) is here as well.
\<close>

type_synonym uuid = "128 word"

definition hex_digit :: "nat \<Rightarrow> char" where
  "hex_digit n = (if n < 10 then char_of (48 + n) else char_of (87 + n))"

fun hex_digits :: "nat \<Rightarrow> nat \<Rightarrow> string" where
  "hex_digits 0 n = []"
| "hex_digits (Suc k) n = hex_digits k (n div 16) @ [hex_digit (n mod 16)]"

definition uuid_str :: "uuid \<Rightarrow> string" where
  "uuid_str u = (let h = hex_digits 32 (unat u) in
     take 8 h @ ''-'' @ take 4 (drop 8 h) @ ''-'' @ take 4 (drop 12 h) @ ''-'' @
     take 4 (drop 16 h) @ ''-'' @ drop 20 h)"

text \<open>\<open>s.replace(p, '')\<close> for a nonempty \<open>p\<close>: remove its occurrences from left to right.\<close>

function remove_sub :: "string \<Rightarrow> string \<Rightarrow> string" where
  "remove_sub p [] = []"
| "remove_sub p (c # cs) =
     (if p \<noteq> [] \<and> starts_with (c # cs) p then remove_sub p (drop (length p) (c # cs))
      else c # remove_sub p cs)"
  by pat_completeness auto
termination
  by (relation "measure (\<lambda>(p, s). length s)") auto

definition hex_value :: "char \<Rightarrow> nat option" where
  "hex_value c = (let n = code_point c in
     if 48 \<le> n \<and> n \<le> 57 then Some (n - 48)
     else if 97 \<le> n \<and> n \<le> 102 then Some (n - 87)
     else if 65 \<le> n \<and> n \<le> 70 then Some (n - 55) else None)"

text \<open>
  The digits of \<open>int(text, 16)\<close>: the flag says whether an underscore may come next (it may
  only stand between digits), and the text must end in a digit.
\<close>

fun hex_number :: "bool \<Rightarrow> nat \<Rightarrow> string \<Rightarrow> nat option" where
  "hex_number sep acc [] = (if sep then Some acc else None)"
| "hex_number sep acc (c # cs) =
     (if c = CHR ''_'' then (if sep then hex_number False acc cs else None)
      else case hex_value c of None \<Rightarrow> None | Some d \<Rightarrow> hex_number True (acc * 16 + d) cs)"

definition hex_unsigned :: "string \<Rightarrow> nat option" where
  "hex_unsigned s =
     (if starts_with s ''0x'' \<or> starts_with s ''0X''
      then (if drop 2 s = [] then None else hex_number True 0 (drop 2 s))
      else hex_number False 0 s)"

definition py_int16 :: "string \<Rightarrow> int option" where
  "py_int16 s = (case py_strip s of
       [] \<Rightarrow> None
     | c # cs \<Rightarrow>
         if c = CHR ''-'' then map_option (\<lambda>n. - int n) (hex_unsigned cs)
         else if c = CHR ''+'' then map_option int (hex_unsigned cs)
         else map_option int (hex_unsigned (c # cs)))"

definition uuid_parse :: "string \<Rightarrow> uuid option" where
  "uuid_parse s =
     (let h = filter (\<lambda>c. c \<noteq> CHR ''-'')
                (strip_by (\<lambda>c. c = CHR ''{'' \<or> c = CHR ''}'')
                  (remove_sub ''uuid:'' (remove_sub ''urn:'' s)))
      in if length h \<noteq> 32 then None
         else case py_int16 h of
             None \<Rightarrow> None
           | Some n \<Rightarrow> if 0 \<le> n \<and> n < 2 ^ 128 then Some (word_of_int n) else None)"

fun nat_decimal :: "nat \<Rightarrow> string" where
  "nat_decimal n = (if n < 10 then [char_of (48 + n)]
     else nat_decimal (n div 10) @ [char_of (48 + n mod 10)])"

declare nat_decimal.simps [simp del]

definition py_str_int :: "int \<Rightarrow> string" where
  "py_str_int n = (if n < 0 then CHR ''-'' # nat_decimal (nat (- n)) else nat_decimal (nat n))"

section \<open>The printed form reads back\<close>

lemma code_point_hex_digit: "n < 16 \<Longrightarrow> code_point (hex_digit n) = (if n < 10 then 48 + n else 87 + n)"
  by (simp add: code_point_def hex_digit_def)

lemma hex_value_digit: "n < 16 \<Longrightarrow> hex_value (hex_digit n) = Some n"
  by (auto simp: hex_value_def code_point_hex_digit Let_def)

lemma hex_digit_neq:
  assumes "n < 16"
  shows "hex_digit n \<noteq> CHR ''-''" "hex_digit n \<noteq> CHR ''_''" "hex_digit n \<noteq> CHR ''+''"
    "hex_digit n \<noteq> CHR ''{''" "hex_digit n \<noteq> CHR ''}''" "hex_digit n \<noteq> CHR ''u''"
    "hex_digit n \<noteq> CHR ''x''" "hex_digit n \<noteq> CHR ''X''"
  using code_point_hex_digit [OF assms] assms by (auto simp: code_point_def split: if_splits)

lemma not_space_hex_digit: "n < 16 \<Longrightarrow> \<not> is_space (hex_digit n)"
  by (auto simp: is_space_def code_point_hex_digit Let_def)

lemma length_hex_digits [simp]: "length (hex_digits k n) = k"
  by (induction k arbitrary: n) auto

lemma set_hex_digits: "set (hex_digits k n) \<subseteq> hex_digit ` {..<16}"
  by (induction k arbitrary: n) auto

lemma hex_number_append:
  assumes "set ds \<subseteq> hex_digit ` {..<16}" and "d < 16"
  shows "hex_number sep acc (ds @ [hex_digit d]) =
    map_option (\<lambda>m. m * 16 + d) (hex_number (sep \<or> ds = []) acc ds)"
  using assms(1)
proof (induction ds arbitrary: sep acc)
  case Nil
  then show ?case using assms(2) by (simp add: hex_value_digit hex_digit_neq)
next
  case (Cons c cs)
  then obtain n where "n < 16" "c = hex_digit n" by auto
  with Cons show ?case by (simp add: hex_value_digit hex_digit_neq)
qed

lemma hex_number_digits:
  "hex_number (k = 0 \<or> sep) 0 (hex_digits k n) = Some (n mod 16 ^ k)"
proof (induction k arbitrary: n sep)
  case (Suc k)
  have "n mod 16 ^ Suc k = (n div 16) mod 16 ^ k * 16 + n mod 16"
    by (simp add: mod_mult2_eq mult.commute)
  moreover have "hex_number (sep \<or> hex_digits k (n div 16) = []) 0 (hex_digits k (n div 16)) =
      Some ((n div 16) mod 16 ^ k)"
    using Suc.IH [of sep "n div 16"] by (cases k) simp_all
  ultimately show ?case
    by (simp add: hex_number_append set_hex_digits)
qed simp

lemma remove_sub_id: "p \<noteq> [] \<Longrightarrow> hd p \<notin> set s \<Longrightarrow> remove_sub p s = s"
proof (induction s)
  case (Cons c cs)
  then have "\<not> starts_with (c # cs) p"
    by (cases p) (auto simp: starts_with_def)
  with Cons show ?case by simp
qed simp

lemma set_uuid_str: "set (uuid_str u) \<subseteq> insert (CHR ''-'') (hex_digit ` {..<16})"
  using set_hex_digits [of 32 "unat u"]
  by (auto simp: uuid_str_def Let_def dest: in_set_takeD in_set_dropD)

lemma take_drop_join: "take n (drop m xs) @ drop (m + n) xs = drop m xs"
  by (metis add.commute append_take_drop_id drop_drop)

lemma filter_dash_uuid_str: "filter (\<lambda>c. c \<noteq> CHR ''-'') (uuid_str u) = hex_digits 32 (unat u)"
proof -
  let ?h = "hex_digits 32 (unat u)"
  have no: "CHR ''-'' \<notin> set ?h"
    using set_hex_digits [of 32 "unat u"] hex_digit_neq(1) by fastforce
  have id: "filter (\<lambda>c. c \<noteq> CHR ''-'') t = t" if "set t \<subseteq> set ?h" for t
    using no that by (auto intro!: filter_True)
  have "take 8 ?h @ take 4 (drop 8 ?h) @ take 4 (drop 12 ?h) @ take 4 (drop 16 ?h) @ drop 20 ?h = ?h"
    using take_drop_join [of 4 16 ?h] take_drop_join [of 4 12 ?h] take_drop_join [of 4 8 ?h]
    by simp
  then show ?thesis
    by (simp add: uuid_str_def Let_def id set_take_subset
        order_trans [OF set_take_subset set_drop_subset] set_drop_subset)
qed

lemma py_int16_hex_digits: "py_int16 (hex_digits (Suc k) n) = Some (int (n mod 16 ^ Suc k))"
proof -
  let ?h = "hex_digits (Suc k) n"
  obtain c cs where h: "?h = c # cs"
    by (metis length_hex_digits length_Suc_conv)
  then obtain a where a: "a < 16" "c = hex_digit a"
    using set_hex_digits [of "Suc k" n] by (metis imageE lessThan_iff list.set_intros(1) subsetD)
  have sp: "\<not> is_space x" if "x \<in> set ?h" for x
    using that set_hex_digits [of "Suc k" n] not_space_hex_digit by fastforce
  have strip: "py_strip ?h = ?h"
    unfolding py_strip_def using sp h by (intro strip_by_id) (metis hd_in_set last_in_set)
  have "CHR ''x'' \<notin> hex_digit ` {..<16}" "CHR ''X'' \<notin> hex_digit ` {..<16}"
    using hex_digit_neq(7,8) by (metis imageE lessThan_iff)+
  then have "CHR ''x'' \<notin> set ?h" "CHR ''X'' \<notin> set ?h"
    using set_hex_digits [of "Suc k" n] by blast+
  then have nx: "\<not> starts_with ?h ''0x''" "\<not> starts_with ?h ''0X''"
    by (auto dest!: starts_with_decomp simp del: hex_digits.simps)
  have "hex_unsigned ?h = Some (n mod 16 ^ Suc k)"
    using nx hex_number_digits [of "Suc k" False n] by (simp add: hex_unsigned_def)
  moreover have "c \<noteq> CHR ''-''" "c \<noteq> CHR ''+''"
    using a hex_digit_neq by auto
  ultimately show ?thesis
    using strip h by (simp add: py_int16_def)
qed

text \<open>Every UUID is read back from its printed form.\<close>

lemma uuid_parse_str [simp]: "uuid_parse (uuid_str u) = Some u"
proof -
  let ?s = "uuid_str u"
  have ne: "?s \<noteq> []" by (simp add: uuid_str_def Let_def)
  have elem: "x = CHR ''-'' \<or> (\<exists>n<16. x = hex_digit n)" if "x \<in> set ?s" for x
    using that set_uuid_str [of u] by auto
  have "CHR ''u'' \<notin> set ?s"
    using elem [of "CHR ''u''"] hex_digit_neq(6) by fastforce
  then have rm: "remove_sub ''uuid:'' (remove_sub ''urn:'' ?s) = ?s"
    by (simp add: remove_sub_id)
  have "\<not> (x = CHR ''{'' \<or> x = CHR ''}'')" if "x \<in> set ?s" for x
    using elem [OF that] hex_digit_neq(4,5) by fastforce
  then have st: "strip_by (\<lambda>c. c = CHR ''{'' \<or> c = CHR ''}'') ?s = ?s"
    using ne by (intro strip_by_id) (metis hd_in_set last_in_set)
  have "py_int16 (hex_digits 32 (unat u)) = Some (int (unat u))"
    using py_int16_hex_digits [of 31 "unat u"] unsigned_less [of u, where ?'a = nat]
    by (simp del: hex_digits.simps of_nat_unat)
  then show ?thesis
    using uint_lt2p [of u]
    by (simp add: uuid_parse_def rm st filter_dash_uuid_str)
qed

lemma uuid_str_inject [simp]: "uuid_str u = uuid_str v \<longleftrightarrow> u = v"
  by (metis option.inject uuid_parse_str)

end
