(* ===== verification/Gateway_Errors.thy ===== *)
theory Gateway_Errors
  imports Py_Uuid
begin

text \<open>
  The exceptions of \<open>exceptions.py\<close> (and \<open>SecretDecryptionError\<close> of \<open>security/secrets.py\<close>)
  as one datatype, and the mapping of \<open>error_handlers.py\<close> from an exception to an HTTP response.
  \<^item> An \<open>error\<close> is either an \<open>AgntSparkError\<close> of the gateway or an exception no handler knows
    (\<open>Unhandled\<close>), which the catch-all handler turns into a 500.
  \<^item> The class hierarchy is kept: \<open>_status_for\<close> walks \<open>_STATUS_MAP\<close> in order and takes the first
    class the exception is an instance of.
  \<^item> \<open>AuthenticationError\<close> and \<open>AuthorisationError\<close> come from agntspark-core, which also sets
    their code; the gateway's own codes and details are modelled, the message texts are not.
\<close>

datatype py_exception =
    KeyError
  | ValueError
  | TypeError
  | IntegrityError
  | DataError
  | MultipleResultsFound
  | ValidationError
  | CoreScalingError string
  | CoreContainerNotFoundError string
  | OtherException string

datatype gw_error =
    AuthenticationError string
  | AuthorisationError string string
  | EmailAlreadyRegisteredError string
  | ApiKeyNotFoundError string
  | AgentNotFoundError string
  | AccessKeyNotFoundError string
  | UserNotFoundError string
  | InviteNotFoundError string
  | NotImplementedStubError string
  | BuildNotSupportedError
  | RateLimitExceededError int
  | QuotaExceededError string string rat "rat option" rat
      \<comment> \<open>resource, plan, limit, current, requested\<close>
  | BillingNotConfiguredError
  | BillingConflictError string \<comment> \<open>the code\<close>
  | InvalidWebhookError
  | RegistrationClosedError
  | InvalidInviteError
  | DeploymentFailedError string string
  | SecretDecryptionError
  | Unhandled py_exception

type_synonym 'a result = "gw_error + 'a"

section \<open>Codes and details (exceptions.py)\<close>

datatype json =
    JNull
  | JStr string
  | JNum rat

fun error_code :: "gw_error \<Rightarrow> string option" where
  "error_code (EmailAlreadyRegisteredError _) = Some ''EMAIL_ALREADY_REGISTERED''"
| "error_code (ApiKeyNotFoundError _) = Some ''NOT_FOUND''"
| "error_code (AgentNotFoundError _) = Some ''NOT_FOUND''"
| "error_code (AccessKeyNotFoundError _) = Some ''NOT_FOUND''"
| "error_code (UserNotFoundError _) = Some ''NOT_FOUND''"
| "error_code (InviteNotFoundError _) = Some ''NOT_FOUND''"
| "error_code (NotImplementedStubError _) = Some ''NOT_IMPLEMENTED''"
| "error_code BuildNotSupportedError = Some ''BUILD_NOT_SUPPORTED''"
| "error_code (RateLimitExceededError _) = Some ''RATE_LIMIT_EXCEEDED''"
| "error_code (QuotaExceededError _ _ _ _ _) = Some ''QUOTA_EXCEEDED''"
| "error_code BillingNotConfiguredError = Some ''BILLING_NOT_CONFIGURED''"
| "error_code (BillingConflictError c) = Some c"
| "error_code InvalidWebhookError = Some ''INVALID_WEBHOOK_SIGNATURE''"
| "error_code RegistrationClosedError = Some ''REGISTRATION_CLOSED''"
| "error_code InvalidInviteError = Some ''INVALID_INVITE''"
| "error_code (DeploymentFailedError _ _) = Some ''DEPLOYMENT_FAILED''"
| "error_code SecretDecryptionError = Some ''SECRET_DECRYPTION_FAILED''"
| "error_code (AuthenticationError _) = None"
| "error_code (AuthorisationError _ _) = None"
| "error_code (Unhandled _) = Some ''INTERNAL_ERROR''"

fun error_details :: "gw_error \<Rightarrow> (string \<times> json) list" where
  "error_details (EmailAlreadyRegisteredError email) = [(''email'', JStr email)]"
| "error_details (ApiKeyNotFoundError k) = [(''key_id'', JStr k)]"
| "error_details (AgentNotFoundError a) = [(''agent_id'', JStr a)]"
| "error_details (AccessKeyNotFoundError k) = [(''key_id'', JStr k)]"
| "error_details (UserNotFoundError u) = [(''user_id'', JStr u)]"
| "error_details (InviteNotFoundError i) = [(''invite_id'', JStr i)]"
| "error_details (NotImplementedStubError p) = [(''path'', JStr p)]"
| "error_details (RateLimitExceededError r) = [(''retry_after'', JNum (of_int r))]"
| "error_details (QuotaExceededError res plan limit cur req) =
     [(''resource'', JStr res), (''plan'', JStr plan), (''limit'', JNum limit),
      (''current'', case cur of None \<Rightarrow> JNull | Some c \<Rightarrow> JNum c), (''requested'', JNum req)]"
| "error_details (DeploymentFailedError a reason) = [(''agent_id'', JStr a), (''reason'', JStr reason)]"
| "error_details _ = []"

section \<open>The class hierarchy\<close>

datatype exc_class =
    CAgntSparkError | CAuthenticationError | CAuthorisationError | CEmailAlreadyRegisteredError
  | CNotFoundError | CApiKeyNotFoundError | CAgentNotFoundError | CAccessKeyNotFoundError
  | CUserNotFoundError | CInviteNotFoundError | CNotImplementedStubError | CBuildNotSupportedError
  | CRateLimitExceededError | CQuotaExceededError | CBillingNotConfiguredError
  | CBillingConflictError | CInvalidWebhookError | CRegistrationClosedError | CInvalidInviteError
  | CDeploymentFailedError | CSecretDecryptionError

fun class_of :: "gw_error \<Rightarrow> exc_class option" where
  "class_of (AuthenticationError _) = Some CAuthenticationError"
| "class_of (AuthorisationError _ _) = Some CAuthorisationError"
| "class_of (EmailAlreadyRegisteredError _) = Some CEmailAlreadyRegisteredError"
| "class_of (ApiKeyNotFoundError _) = Some CApiKeyNotFoundError"
| "class_of (AgentNotFoundError _) = Some CAgentNotFoundError"
| "class_of (AccessKeyNotFoundError _) = Some CAccessKeyNotFoundError"
| "class_of (UserNotFoundError _) = Some CUserNotFoundError"
| "class_of (InviteNotFoundError _) = Some CInviteNotFoundError"
| "class_of (NotImplementedStubError _) = Some CNotImplementedStubError"
| "class_of BuildNotSupportedError = Some CBuildNotSupportedError"
| "class_of (RateLimitExceededError _) = Some CRateLimitExceededError"
| "class_of (QuotaExceededError _ _ _ _ _) = Some CQuotaExceededError"
| "class_of BillingNotConfiguredError = Some CBillingNotConfiguredError"
| "class_of (BillingConflictError _) = Some CBillingConflictError"
| "class_of InvalidWebhookError = Some CInvalidWebhookError"
| "class_of RegistrationClosedError = Some CRegistrationClosedError"
| "class_of InvalidInviteError = Some CInvalidInviteError"
| "class_of (DeploymentFailedError _ _) = Some CDeploymentFailedError"
| "class_of SecretDecryptionError = Some CSecretDecryptionError"
| "class_of (Unhandled _) = None"

text \<open>The superclasses of a class, itself first (the method resolution order within the hierarchy).\<close>

definition superclasses :: "exc_class \<Rightarrow> exc_class list" where
  "superclasses c =
     (if c = CAgntSparkError then [CAgntSparkError]
      else if c \<in> {CApiKeyNotFoundError, CAgentNotFoundError, CAccessKeyNotFoundError,
                   CUserNotFoundError, CInviteNotFoundError}
      then [c, CNotFoundError, CAgntSparkError]
      else [c, CAgntSparkError])"

definition isinstance :: "exc_class \<Rightarrow> exc_class \<Rightarrow> bool" where
  "isinstance c d = List.member (superclasses c) d"

section \<open>Status codes and responses (error\_handlers.py)\<close>

definition STATUS_MAP :: "(exc_class \<times> int) list" where
  "STATUS_MAP =
     [(CAuthenticationError, 401), (CAuthorisationError, 403), (CInvalidInviteError, 403),
      (CQuotaExceededError, 403), (CInvalidWebhookError, 400), (CBillingConflictError, 409),
      (CBillingNotConfiguredError, 503), (CRegistrationClosedError, 403), (CNotFoundError, 404),
      (CApiKeyNotFoundError, 404), (CEmailAlreadyRegisteredError, 409),
      (CRateLimitExceededError, 429), (CNotImplementedStubError, 501),
      (CBuildNotSupportedError, 501), (CDeploymentFailedError, 502)]"

fun first_status :: "exc_class \<Rightarrow> (exc_class \<times> int) list \<Rightarrow> int" where
  "first_status c [] = 500"
| "first_status c ((d, code) # rest) = (if isinstance c d then code else first_status c rest)"

definition status_for :: "exc_class \<Rightarrow> int" where
  "status_for c = first_status c STATUS_MAP"

record error_response =
  er_status :: int
  er_code :: "string option"
  er_details :: "(string \<times> json) list"
  er_headers :: "(string \<times> string) list"

text \<open>
  \<open>agntspark_error_handler\<close> for a gateway error, \<open>unhandled_error_handler\<close> for anything else. The
  latter answers with the request id only, never with the exception.
\<close>

definition agntspark_error_handler :: "exc_class \<Rightarrow> gw_error \<Rightarrow> error_response" where
  "agntspark_error_handler c e =
     \<lparr>er_status = status_for c, er_code = error_code e, er_details = error_details e,
      er_headers = (case map_of (error_details e) ''retry_after'' of
          Some (JNum r) \<Rightarrow> [(''Retry-After'', py_str_int (floor r))]
        | _ \<Rightarrow> [])\<rparr>"

definition unhandled_error_handler :: "string option \<Rightarrow> error_response" where
  "unhandled_error_handler request_id =
     \<lparr>er_status = 500, er_code = Some ''INTERNAL_ERROR'',
      er_details = [(''request_id'', case request_id of None \<Rightarrow> JNull | Some i \<Rightarrow> JStr i)],
      er_headers = (if truthy request_id then [(''X-Request-ID'', the request_id)] else [])\<rparr>"

definition handle_exception :: "string option \<Rightarrow> gw_error \<Rightarrow> error_response" where
  "handle_exception request_id e = (case class_of e of
       Some c \<Rightarrow> agntspark_error_handler c e
     | None \<Rightarrow> unhandled_error_handler request_id)"

text \<open>
  The reference table the handlers are meant to implement: one status per error, read off the
  documentation of the endpoints.
\<close>

fun documented_status :: "gw_error \<Rightarrow> int" where
  "documented_status (AuthenticationError _) = 401"
| "documented_status (AuthorisationError _ _) = 403"
| "documented_status (EmailAlreadyRegisteredError _) = 409"
| "documented_status (ApiKeyNotFoundError _) = 404"
| "documented_status (AgentNotFoundError _) = 404"
| "documented_status (AccessKeyNotFoundError _) = 404"
| "documented_status (UserNotFoundError _) = 404"
| "documented_status (InviteNotFoundError _) = 404"
| "documented_status (NotImplementedStubError _) = 501"
| "documented_status BuildNotSupportedError = 501"
| "documented_status (RateLimitExceededError _) = 429"
| "documented_status (QuotaExceededError _ _ _ _ _) = 403"
| "documented_status BillingNotConfiguredError = 503"
| "documented_status (BillingConflictError _) = 409"
| "documented_status InvalidWebhookError = 400"
| "documented_status RegistrationClosedError = 403"
| "documented_status InvalidInviteError = 403"
| "documented_status (DeploymentFailedError _ _) = 502"
| "documented_status SecretDecryptionError = 500"
| "documented_status (Unhandled _) = 500"

section \<open>Properties\<close>

lemmas error_defs = status_for_def STATUS_MAP_def isinstance_def superclasses_def
  handle_exception_def agntspark_error_handler_def unhandled_error_handler_def

lemma status_for_class: "class_of e = Some c \<Longrightarrow> status_for c = documented_status e"
  by (cases e) (auto simp: error_defs)

lemma status_range: "status_for c \<in> {400..599}"
  by (cases c) (auto simp: error_defs)

text \<open>
  The ordered isinstance walk of \<open>_status_for\<close> implements the documented status table: every
  gateway error gets its documented status (all five not-found subclasses through their common
  base class), errors without an entry and unknown exceptions get 500, and a response carries
  \<open>Retry-After\<close>, with the error's own number of seconds, exactly for rate-limit errors.
\<close>

theorem error_responses_documented:
  "er_status (handle_exception rid e) = documented_status e \<and>
   map_of (er_headers (handle_exception rid e)) ''Retry-After'' =
     (case e of RateLimitExceededError r \<Rightarrow> Some (py_str_int r) | _ \<Rightarrow> None)"
  by (cases e) (auto simp: error_defs split: option.splits)

end
