(* ===== verification/Gateway_Models.thy ===== *)
theory Gateway_Models
  imports Gateway_Config
begin

text \<open>
  The ORM models of \<open>models/\<close> as records, the database as the record of its tables, and the writes
  the services commit, with the constraints Postgres enforces on them (primary keys, UNIQUE,
  FOREIGN KEY with ON DELETE CASCADE). A violated constraint is \<open>IntegrityError\<close>. Left out: the
  \<open>updated_at\<close> columns (set by the server, only echoed), the never-written \<open>agents.url\<close>, and the
  surrogate key of \<open>usage_hours\<close>, which nothing reads.
\<close>

section \<open>Rows\<close>

record user =
  u_id :: uuid
  u_email :: string
  u_password_hash :: string
  u_name :: string
  u_role :: int
  u_plan :: string
  u_stripe_customer_id :: "string option"
  u_stripe_subscription_id :: "string option"
  u_subscription_status :: "string option"
  u_is_active :: bool
  u_created_at :: timestamp

record api_key =
  k_id :: uuid
  k_user_id :: uuid
  k_label :: string
  k_key_prefix :: string
  k_key_hash :: string
  k_scopes :: "string list"
  k_project_id :: "string option"
  k_created_at :: timestamp
  k_last_used_at :: "timestamp option"
  k_revoked_at :: "timestamp option"
  k_expires_at :: "timestamp option"

record invite =
  i_id :: uuid
  i_code_hash :: string
  i_code_prefix :: string
  i_note :: string
  i_created_by :: "uuid option"
  i_max_uses :: int
  i_use_count :: int
  i_expires_at :: "timestamp option"
  i_revoked_at :: "timestamp option"
  i_created_at :: timestamp

text \<open>One object of the JSON array \<open>agents.env\<close>; \<open>e_value\<close> is ciphertext when \<open>e_secret\<close>.\<close>

record env_entry =
  e_key :: string
  e_value :: string
  e_secret :: bool

record agent =
  a_id :: string
  a_user_id :: uuid
  a_slug :: string
  a_name :: string
  a_runtime :: string
  a_framework :: string
  a_model :: string
  a_system_prompt :: "string option"
  a_tags :: "string list"
  a_metadata :: "(string \<times> string) list"
  a_status :: string
  a_error :: "string option"
  a_version :: int
  a_access :: string
  a_rate_limit_rpm :: "int option"
  a_replicas :: int
  a_cpu :: rat
  a_memory_mb :: int
  a_gpu :: int
  a_gpu_type :: "string option"
  a_disk_gb :: int
  a_ephemeral_storage_gb :: int
  a_env :: "env_entry list"
  a_image :: "string option"
  a_build_path :: "string option"
  a_command :: "string option"
  a_args :: "string list"
  a_health_check_path :: "string option"
  a_auto_scale :: bool
  a_min_replicas :: int
  a_max_replicas :: int
  a_port :: int
  a_created_at :: timestamp

record access_key =
  ak_id :: uuid
  ak_agent_id :: string
  ak_label :: string
  ak_key_prefix :: string
  ak_key_hash :: string
  ak_created_at :: timestamp

record usage_hour =
  uh_user_id :: uuid
  uh_agent_id :: string
  uh_hour_start :: timestamp
  uh_replica_seconds :: rat
  uh_vcpu_seconds :: rat
  uh_memory_mb_seconds :: rat
  uh_requests :: int

record db =
  users :: "user list"
  api_keys :: "api_key list"
  invites :: "invite list"
  agents :: "agent list"
  access_keys :: "access_key list"
  usage_hours :: "usage_hour list"

definition empty_db :: db where
  "empty_db = \<lparr>users = [], api_keys = [], invites = [], agents = [], access_keys = [],
     usage_hours = []\<rparr>"

section \<open>What a column holds\<close>

text \<open>
  Postgres takes no text with a zero byte, and into \<open>varchar(n)\<close> none whose characters past the
  \<open>n\<close>-th are not all spaces; integers have two, four or eight bytes. A value that does not fit is an
  error of the driver, here called \<open>DataError\<close>. JSON columns take any text, because \<open>json.dumps\<close> escapes control characters.
\<close>

definition clean :: "string \<Rightarrow> bool" where
  "clean s \<longleftrightarrow> CHR 0x00 \<notin> set s"

definition fits :: "nat \<Rightarrow> string \<Rightarrow> bool" where
  "fits n s \<longleftrightarrow> clean s \<and> list_all (\<lambda>c. c = CHR '' '') (drop n s)"

definition in_bits :: "nat \<Rightarrow> int \<Rightarrow> bool" where
  "in_bits n i \<longleftrightarrow> - (2 ^ (n - 1)) \<le> i \<and> i < 2 ^ (n - 1)"

definition opt_fits :: "nat \<Rightarrow> string option \<Rightarrow> bool" where
  "opt_fits n x = (case x of None \<Rightarrow> True | Some s \<Rightarrow> fits n s)"

definition opt_clean :: "string option \<Rightarrow> bool" where
  "opt_clean x = (case x of None \<Rightarrow> True | Some s \<Rightarrow> clean s)"

text \<open>The column types of \<open>models/agent.py\<close>.\<close>

definition agent_fits :: "agent \<Rightarrow> bool" where
  "agent_fits a \<longleftrightarrow>
     fits 32 (a_id a) \<and> fits 63 (a_slug a) \<and> fits 128 (a_name a) \<and>
     fits 32 (a_runtime a) \<and> fits 32 (a_framework a) \<and> fits 128 (a_model a) \<and> opt_clean (a_system_prompt a) \<and>
     list_all clean (a_tags a) \<and> fits 32 (a_status a) \<and> opt_clean (a_error a) \<and> in_bits 32 (a_version a) \<and>
     fits 16 (a_access a) \<and> (case a_rate_limit_rpm a of None \<Rightarrow> True | Some r \<Rightarrow> in_bits 32 r) \<and>
     in_bits 32 (a_replicas a) \<and> in_bits 32 (a_memory_mb a) \<and> in_bits 32 (a_gpu a) \<and> opt_fits 64 (a_gpu_type a) \<and>
     in_bits 32 (a_disk_gb a) \<and> in_bits 32 (a_ephemeral_storage_gb a) \<and> opt_fits 512 (a_image a) \<and>
     opt_fits 512 (a_build_path a) \<and> opt_fits 512 (a_command a) \<and> list_all clean (a_args a) \<and>
     opt_fits 256 (a_health_check_path a) \<and> in_bits 32 (a_min_replicas a) \<and> in_bits 32 (a_max_replicas a) \<and>
     in_bits 32 (a_port a)"

section \<open>Derived columns\<close>

definition role_enum :: "core_auth \<Rightarrow> user \<Rightarrow> role result" where
  "role_enum ca u = (case role_of_value ca (u_role u) of
     Some r \<Rightarrow> Inr r | None \<Rightarrow> Inl (Unhandled ValueError))"

definition api_key_is_active :: "timestamp \<Rightarrow> api_key \<Rightarrow> bool" where
  "api_key_is_active now k =
     (if k_revoked_at k \<noteq> None then False
      else case k_expires_at k of None \<Rightarrow> True | Some t \<Rightarrow> now < t)"

definition invite_status :: "timestamp \<Rightarrow> invite \<Rightarrow> string" where
  "invite_status now i =
     (if i_revoked_at i \<noteq> None then ''revoked''
      else if (case i_expires_at i of None \<Rightarrow> False | Some t \<Rightarrow> t \<le> now) then ''expired''
      else if i_max_uses i \<le> i_use_count i then ''used''
      else ''active'')"

section \<open>Reads\<close>

definition get_user :: "db \<Rightarrow> uuid \<Rightarrow> user option" where
  "get_user d uid = get_row u_id uid (users d)"

text \<open>\<open>select(Model).where(col == v)\<close> followed by \<open>scalar_one_or_none()\<close>.\<close>

definition select_one :: "('r \<Rightarrow> bool) \<Rightarrow> 'r list \<Rightarrow> 'r option result" where
  "select_one p rows = (case one_or_none (filter p rows) of
     None \<Rightarrow> Inl (Unhandled MultipleResultsFound) | Some r \<Rightarrow> Inr r)"

section \<open>Writes\<close>

definition insert_user :: "user \<Rightarrow> db \<Rightarrow> db result" where
  "insert_user u d =
     (if u_id u \<in> u_id ` set (users d) \<or> u_email u \<in> u_email ` set (users d) \<or>
         (u_stripe_customer_id u \<noteq> None \<and>
          u_stripe_customer_id u \<in> u_stripe_customer_id ` set (users d))
      then Inl (Unhandled IntegrityError) else Inr (d\<lparr>users := users d @ [u]\<rparr>))"

definition insert_api_key :: "api_key \<Rightarrow> db \<Rightarrow> db result" where
  "insert_api_key k d =
     (if k_id k \<in> k_id ` set (api_keys d) \<or> k_key_hash k \<in> k_key_hash ` set (api_keys d) \<or>
         k_user_id k \<notin> u_id ` set (users d)
      then Inl (Unhandled IntegrityError) else Inr (d\<lparr>api_keys := api_keys d @ [k]\<rparr>))"

definition insert_invite :: "invite \<Rightarrow> db \<Rightarrow> db result" where
  "insert_invite i d =
     (if i_id i \<in> i_id ` set (invites d) \<or> i_code_hash i \<in> i_code_hash ` set (invites d) \<or>
         (case i_created_by i of None \<Rightarrow> False | Some u \<Rightarrow> u \<notin> u_id ` set (users d))
      then Inl (Unhandled IntegrityError) else Inr (d\<lparr>invites := invites d @ [i]\<rparr>))"

definition insert_agent :: "agent \<Rightarrow> db \<Rightarrow> db result" where
  "insert_agent a d =
     (if \<not> agent_fits a then Inl (Unhandled DataError)
      else if a_id a \<in> a_id ` set (agents d) \<or> a_slug a \<in> a_slug ` set (agents d) \<or>
         a_user_id a \<notin> u_id ` set (users d)
      then Inl (Unhandled IntegrityError) else Inr (d\<lparr>agents := agents d @ [a]\<rparr>))"

definition insert_access_key :: "access_key \<Rightarrow> db \<Rightarrow> db result" where
  "insert_access_key k d =
     (if ak_id k \<in> ak_id ` set (access_keys d) \<or>
         ak_key_hash k \<in> ak_key_hash ` set (access_keys d) \<or>
         ak_agent_id k \<notin> a_id ` set (agents d)
      then Inl (Unhandled IntegrityError) else Inr (d\<lparr>access_keys := access_keys d @ [k]\<rparr>))"

text \<open>UPDATE of one row by primary key; deleting an agent cascades to its access keys.\<close>

definition set_user :: "uuid \<Rightarrow> (user \<Rightarrow> user) \<Rightarrow> db \<Rightarrow> db" where
  "set_user uid f d = d\<lparr>users := update_row u_id uid f (users d)\<rparr>"

definition set_agent :: "string \<Rightarrow> (agent \<Rightarrow> agent) \<Rightarrow> db \<Rightarrow> db" where
  "set_agent aid f d = d\<lparr>agents := update_row a_id aid f (agents d)\<rparr>"

definition set_invite :: "uuid \<Rightarrow> (invite \<Rightarrow> invite) \<Rightarrow> db \<Rightarrow> db" where
  "set_invite iid f d = d\<lparr>invites := update_row i_id iid f (invites d)\<rparr>"

definition set_api_key :: "uuid \<Rightarrow> (api_key \<Rightarrow> api_key) \<Rightarrow> db \<Rightarrow> db" where
  "set_api_key kid f d = d\<lparr>api_keys := update_row k_id kid f (api_keys d)\<rparr>"

definition remove_agent_row :: "string \<Rightarrow> db \<Rightarrow> db" where
  "remove_agent_row aid d = d\<lparr>agents := delete_row a_id aid (agents d),
     access_keys := filter (\<lambda>k. ak_agent_id k \<noteq> aid) (access_keys d)\<rparr>"

definition remove_access_key_row :: "uuid \<Rightarrow> db \<Rightarrow> db" where
  "remove_access_key_row kid d = d\<lparr>access_keys := delete_row ak_id kid (access_keys d)\<rparr>"

section \<open>Well-formed databases\<close>

text \<open>What the schema guarantees of every committed state.\<close>

definition keys_wf :: "db \<Rightarrow> bool" where
  "keys_wf d \<longleftrightarrow>
     unique_on u_id (users d) \<and> unique_on u_email (users d) \<and>
     unique_opt_on u_stripe_customer_id (users d) \<and>
     unique_on k_id (api_keys d) \<and> unique_on k_key_hash (api_keys d) \<and>
     unique_on i_id (invites d) \<and> unique_on i_code_hash (invites d) \<and>
     unique_on a_id (agents d) \<and> unique_on a_slug (agents d) \<and>
     unique_on ak_id (access_keys d) \<and> unique_on ak_key_hash (access_keys d) \<and>
     unique_on (\<lambda>h. (uh_agent_id h, uh_hour_start h)) (usage_hours d)"

definition refs_wf :: "db \<Rightarrow> bool" where
  "refs_wf d \<longleftrightarrow>
     k_user_id ` set (api_keys d) \<subseteq> u_id ` set (users d) \<and>
     a_user_id ` set (agents d) \<subseteq> u_id ` set (users d) \<and>
     uh_user_id ` set (usage_hours d) \<subseteq> u_id ` set (users d) \<and>
     ak_agent_id ` set (access_keys d) \<subseteq> a_id ` set (agents d) \<and>
     i_created_by ` set (invites d) \<subseteq> insert None (Some ` u_id ` set (users d))"

definition db_wf :: "db \<Rightarrow> bool" where
  "db_wf d \<longleftrightarrow> keys_wf d \<and> refs_wf d"

lemma db_wf_empty [simp]: "db_wf empty_db"
  by (simp add: db_wf_def keys_wf_def refs_wf_def empty_db_def unique_on_def unique_opt_on_def)

named_theorems wf_intros \<open>every committed write keeps the schema's constraints\<close>

lemma keys_wf_snoc:
  "keys_wf (d\<lparr>users := users d @ [u]\<rparr>) \<longleftrightarrow> keys_wf d \<and> u_id u \<notin> u_id ` set (users d) \<and>
     u_email u \<notin> u_email ` set (users d) \<and>
     (u_stripe_customer_id u = None \<or> u_stripe_customer_id u \<notin> u_stripe_customer_id ` set (users d))"
  "keys_wf (d\<lparr>api_keys := api_keys d @ [k]\<rparr>) \<longleftrightarrow> keys_wf d \<and> k_id k \<notin> k_id ` set (api_keys d) \<and>
     k_key_hash k \<notin> k_key_hash ` set (api_keys d)"
  "keys_wf (d\<lparr>invites := invites d @ [i]\<rparr>) \<longleftrightarrow> keys_wf d \<and> i_id i \<notin> i_id ` set (invites d) \<and>
     i_code_hash i \<notin> i_code_hash ` set (invites d)"
  "keys_wf (d\<lparr>agents := agents d @ [a]\<rparr>) \<longleftrightarrow> keys_wf d \<and> a_id a \<notin> a_id ` set (agents d) \<and>
     a_slug a \<notin> a_slug ` set (agents d)"
  "keys_wf (d\<lparr>access_keys := access_keys d @ [ak]\<rparr>) \<longleftrightarrow> keys_wf d \<and>
     ak_id ak \<notin> ak_id ` set (access_keys d) \<and> ak_key_hash ak \<notin> ak_key_hash ` set (access_keys d)"
  unfolding keys_wf_def by (auto simp: unique_on_snoc unique_opt_on_snoc)

lemma refs_wf_snoc:
  "refs_wf d \<Longrightarrow> refs_wf (d\<lparr>users := users d @ [u]\<rparr>)"
  "refs_wf d \<Longrightarrow> k_user_id k \<in> u_id ` set (users d) \<Longrightarrow> refs_wf (d\<lparr>api_keys := api_keys d @ [k]\<rparr>)"
  "refs_wf d \<Longrightarrow> (case i_created_by i of None \<Rightarrow> True | Some u \<Rightarrow> u \<in> u_id ` set (users d)) \<Longrightarrow>
     refs_wf (d\<lparr>invites := invites d @ [i]\<rparr>)"
  "refs_wf d \<Longrightarrow> a_user_id a \<in> u_id ` set (users d) \<Longrightarrow> refs_wf (d\<lparr>agents := agents d @ [a]\<rparr>)"
  "refs_wf d \<Longrightarrow> ak_agent_id ak \<in> a_id ` set (agents d) \<Longrightarrow>
     refs_wf (d\<lparr>access_keys := access_keys d @ [ak]\<rparr>)"
  by (auto simp: refs_wf_def split: option.splits)

lemmas schema_defs = db_wf_def keys_wf_snoc refs_wf_snoc

lemma insert_user_wf [wf_intros]: "insert_user u d = Inr d' \<Longrightarrow> db_wf d \<Longrightarrow> db_wf d'"
  by (auto simp: insert_user_def schema_defs split: if_splits)

lemma insert_api_key_wf [wf_intros]: "insert_api_key k d = Inr d' \<Longrightarrow> db_wf d \<Longrightarrow> db_wf d'"
  by (auto simp: insert_api_key_def schema_defs split: if_splits)

lemma insert_invite_wf [wf_intros]: "insert_invite i d = Inr d' \<Longrightarrow> db_wf d \<Longrightarrow> db_wf d'"
  by (auto simp: insert_invite_def schema_defs split: if_splits option.splits)

lemma insert_agent_wf [wf_intros]: "insert_agent a d = Inr d' \<Longrightarrow> db_wf d \<Longrightarrow> db_wf d'"
  by (auto simp: insert_agent_def schema_defs split: if_splits)

lemma insert_access_key_wf [wf_intros]: "insert_access_key k d = Inr d' \<Longrightarrow> db_wf d \<Longrightarrow> db_wf d'"
  by (auto simp: insert_access_key_def schema_defs split: if_splits)

lemma image_update_row_same:
  "(\<And>r. c (f r) = c r) \<Longrightarrow> c ` set (update_row key k f rows) = c ` set rows"
  by (metis map_update_row_same set_map)

lemma set_agent_wf [wf_intros]:
  assumes "\<And>a. a_id (f a) = a_id a" "\<And>a. a_slug (f a) = a_slug a" "\<And>a. a_user_id (f a) = a_user_id a"
  shows "db_wf (set_agent aid f d) = db_wf d"
  using assms by (simp add: db_wf_def keys_wf_def refs_wf_def set_agent_def unique_on_update image_update_row_same)

lemma set_invite_wf [wf_intros]:
  assumes "\<And>a. i_id (f a) = i_id a" "\<And>a. i_code_hash (f a) = i_code_hash a"
    "\<And>a. i_created_by (f a) = i_created_by a"
  shows "db_wf (set_invite aid f d) = db_wf d"
  using assms by (simp add: db_wf_def keys_wf_def refs_wf_def set_invite_def unique_on_update image_update_row_same)

lemma set_api_key_wf [wf_intros]:
  assumes "\<And>a. k_id (f a) = k_id a" "\<And>a. k_key_hash (f a) = k_key_hash a"
    "\<And>a. k_user_id (f a) = k_user_id a"
  shows "db_wf (set_api_key aid f d) = db_wf d"
  using assms by (simp add: db_wf_def keys_wf_def refs_wf_def set_api_key_def unique_on_update image_update_row_same)

lemma set_user_wf [wf_intros]:
  assumes "\<And>u. u_id (f u) = u_id u" "\<And>u. u_email (f u) = u_email u"
    "\<And>u. u_stripe_customer_id (f u) = u_stripe_customer_id u"
  shows "db_wf (set_user uid f d) = db_wf d"
  using assms
  by (simp add: db_wf_def keys_wf_def refs_wf_def set_user_def unique_on_update unique_opt_on_update image_update_row_same)

lemma unique_on_filter: "unique_on c rows \<Longrightarrow> unique_on c (filter p rows)"
  by (simp add: unique_on_def distinct_map_filter)

lemma remove_agent_row_wf [wf_intros]: "db_wf d \<Longrightarrow> db_wf (remove_agent_row aid d)"
  unfolding db_wf_def
proof (intro conjI; elim conjE)
  assume "keys_wf d"
  then show "keys_wf (remove_agent_row aid d)"
    by (simp add: keys_wf_def remove_agent_row_def unique_on_filter delete_row_def)
next
  assume refs: "refs_wf d"
  then have r: "ak_agent_id ` set (access_keys d) \<subseteq> a_id ` set (agents d)" "a_user_id ` set (agents d) \<subseteq> u_id ` set (users d)"
    by (simp_all add: refs_wf_def)
  have "ak_agent_id ` {k \<in> set (access_keys d). ak_agent_id k \<noteq> aid} \<subseteq> a_id ` {a \<in> set (agents d). a_id a \<noteq> aid}"
    using r(1) by blast
  moreover have "a_user_id ` {a \<in> set (agents d). a_id a \<noteq> aid} \<subseteq> u_id ` set (users d)"
    using r(2) by blast
  ultimately show "refs_wf (remove_agent_row aid d)"
    using refs by (simp add: refs_wf_def remove_agent_row_def delete_row_def)
qed

lemma remove_access_key_row_wf [wf_intros]: "db_wf d \<Longrightarrow> db_wf (remove_access_key_row kid d)"
  by (auto simp: db_wf_def keys_wf_def refs_wf_def remove_access_key_row_def unique_on_filter
      delete_row_def intro: subset_trans [OF image_mono])

section \<open>Lookups under the constraints\<close>

lemma db_wfD:
  assumes "db_wf d"
  shows "unique_on u_id (users d)" "unique_on u_email (users d)"
    "unique_on k_id (api_keys d)" "unique_on k_key_hash (api_keys d)"
    "unique_on i_id (invites d)" "unique_on i_code_hash (invites d)"
    "unique_on a_id (agents d)" "unique_on a_slug (agents d)"
    "unique_on ak_id (access_keys d)" "unique_on ak_key_hash (access_keys d)"
    "unique_opt_on u_stripe_customer_id (users d)"
  using assms by (simp_all add: db_wf_def keys_wf_def)

lemma db_wf_agent_owner:
  assumes "db_wf d" and "a \<in> set (agents d)"
  obtains u where "get_user d (a_user_id a) = Some u"
proof -
  have "a_user_id a \<in> u_id ` set (users d)"
    using assms by (auto simp: db_wf_def refs_wf_def)
  then show ?thesis
    using that get_row_None [of u_id "a_user_id a" "users d"]
    by (cases "get_user d (a_user_id a)") (auto simp: get_user_def)
qed

lemma select_one_unique:
  "unique_on c rows \<Longrightarrow> select_one (\<lambda>r. c r = k) rows = Inr (get_row c k rows)"
  by (simp add: select_one_def one_or_none_unique)

lemma select_one_Some: "select_one p rows = Inr (Some r) \<Longrightarrow> r \<in> set rows \<and> p r"
proof -
  assume "select_one p rows = Inr (Some r)"
  then have "filter p rows = [r]"
    by (simp add: select_one_def one_or_none_Some_Some split: option.splits)
  then have "r \<in> set (filter p rows)" by simp
  then show ?thesis by simp
qed

lemma get_user_Some: "get_user d uid = Some u \<Longrightarrow> u \<in> set (users d) \<and> u_id u = uid"
  by (auto simp: get_user_def dest: get_row_Some)

lemma get_user_set_user [simp]:
  "(\<And>u. u_id (f u) = u_id u) \<Longrightarrow>
   get_user (set_user uid f d) v = (if v = uid then map_option f (get_user d uid) else get_user d v)"
  by (simp add: get_user_def set_user_def get_row_update)

lemma users_frames [simp]:
  "users (set_agent aid f d) = users d" "users (set_invite iid g d) = users d"
  "users (set_api_key kid h d) = users d" "users (remove_agent_row aid d) = users d"
  "users (remove_access_key_row kid d) = users d"
  unfolding set_agent_def set_invite_def set_api_key_def remove_agent_row_def
    remove_access_key_row_def by simp_all

lemma set_row_tables [simp]:
  "users (set_user uid f d) = update_row u_id uid f (users d)"
  "agents (set_agent aid g d) = update_row a_id aid g (agents d)"
  "invites (set_invite iid h d) = update_row i_id iid h (invites d)"
  "api_keys (set_api_key kid k d) = update_row k_id kid k (api_keys d)"
  unfolding set_user_def set_agent_def set_invite_def set_api_key_def by simp_all

lemma agents_frames [simp]:
  "agents (set_user uid f d) = agents d" "agents (set_invite iid g d) = agents d"
  "agents (set_api_key kid h d) = agents d" "agents (remove_access_key_row kid d) = agents d"
  unfolding set_user_def set_invite_def set_api_key_def remove_access_key_row_def by simp_all

lemma access_keys_frames [simp]:
  "access_keys (set_user uid f d) = access_keys d" "access_keys (set_invite iid g d) = access_keys d"
  "access_keys (set_api_key kid h d) = access_keys d" "access_keys (set_agent aid j d) = access_keys d"
  unfolding set_user_def set_invite_def set_api_key_def set_agent_def by simp_all

lemma get_user_frames [simp]:
  "get_user (set_agent aid f d) = get_user d" "get_user (set_invite iid g d) = get_user d"
  "get_user (set_api_key kid h d) = get_user d" "get_user (remove_agent_row aid d) = get_user d"
  "get_user (remove_access_key_row kid d) = get_user d"
  unfolding get_user_def by simp_all

end
