(* ===== verification/Registration.thy ===== *)
theory Registration
  imports Gateway_Models
begin

text \<open>
  Invite codes (\<open>services/invite_service.py\<close>) and accounts (\<open>services/auth_service.py\<close>,
  \<open>security/passwords.py\<close>). An operation returns \<open>Inl e\<close> when it raises \<open>e\<close>, and then nothing
  was committed; otherwise the committed database and its value. \<open>claim_invite\<close> does not commit:
  the database it returns is the session's, which \<open>register_user\<close> commits together with the new
  account. Random values (ids, tokens, salts) and the time are arguments.
\<close>

section \<open>Invites (invite\_service.py)\<close>

definition INVITE_PREFIX :: string where
  "INVITE_PREFIX = ''inv_''"

definition hash_code :: "crypto \<Rightarrow> string \<Rightarrow> string" where
  "hash_code cr code = sha256_hex cr code"

definition create_invite ::
  "crypto \<Rightarrow> uuid \<Rightarrow> string \<Rightarrow> timestamp \<Rightarrow> uuid \<Rightarrow> string \<Rightarrow> int \<Rightarrow> int option \<Rightarrow> db \<Rightarrow>
   (db \<times> invite \<times> string) result" where
  "create_invite cr new_id token now created_by note max_uses expires_in_days d =
     (let raw_code = INVITE_PREFIX @ token;
          inv = \<lparr>i_id = new_id, i_code_hash = hash_code cr raw_code, i_code_prefix = take 10 raw_code,
                 i_note = note, i_created_by = Some created_by, i_max_uses = max_uses, i_use_count = 0,
                 i_expires_at = (case expires_in_days of
                     None \<Rightarrow> None
                   | Some n \<Rightarrow> if n = 0 then None else Some (now + n * usecs_per_day)),
                 i_revoked_at = None, i_created_at = now\<rparr>
      in bind_result (insert_invite inv d) (\<lambda>d'. Inr (d', inv, raw_code)))"

definition list_invites :: "db \<Rightarrow> invite list" where
  "list_invites d = order_by_desc i_created_at (invites d)"

definition revoke_invite :: "timestamp \<Rightarrow> uuid \<Rightarrow> db \<Rightarrow> db result" where
  "revoke_invite now invite_id d = (case get_row i_id invite_id (invites d) of
       None \<Rightarrow> Inl (InviteNotFoundError (uuid_str invite_id))
     | Some i \<Rightarrow>
         if i_revoked_at i = None
         then Inr (set_invite invite_id (\<lambda>i. i\<lparr>i_revoked_at := Some now\<rparr>) d)
         else Inr d)"

definition claim_invite :: "crypto \<Rightarrow> timestamp \<Rightarrow> string \<Rightarrow> db \<Rightarrow> (db \<times> invite) result" where
  "claim_invite cr now code d =
     bind_result (select_one (\<lambda>i. i_code_hash i = hash_code cr (py_strip code)) (invites d))
       (\<lambda>found. case found of
           None \<Rightarrow> Inl InvalidInviteError
         | Some i \<Rightarrow>
             if invite_status now i \<noteq> ''active'' then Inl InvalidInviteError
             else Inr (set_invite (i_id i) (\<lambda>i. i\<lparr>i_use_count := i_use_count i + 1\<rparr>) d,
                       i\<lparr>i_use_count := i_use_count i + 1\<rparr>))"

section \<open>Passwords (passwords.py)\<close>

definition hash_password :: "settings \<Rightarrow> crypto \<Rightarrow> nat \<Rightarrow> string \<Rightarrow> string" where
  "hash_password st cr salt raw = bcrypt_hashpw cr salt (bcrypt_rounds st) raw"

definition verify_password :: "crypto \<Rightarrow> string \<Rightarrow> string \<Rightarrow> bool" where
  "verify_password cr raw password_hash = bcrypt_checkpw cr raw password_hash"

section \<open>Accounts (auth\_service.py)\<close>

record signup =
  su_email :: string
  su_password :: string
  su_name :: string
  su_invite_code :: "string option"

text \<open>The values drawn while registering: the row's id, the salt and the time.\<close>

record drawn =
  dr_id :: uuid
  dr_salt :: nat
  dr_now :: timestamp

definition new_user :: "settings \<Rightarrow> crypto \<Rightarrow> core_auth \<Rightarrow> drawn \<Rightarrow> signup \<Rightarrow> user" where
  "new_user st cr ca dr su =
     \<lparr>u_id = dr_id dr, u_email = su_email su,
      u_password_hash = hash_password st cr (dr_salt dr) (su_password su), u_name = su_name su,
      u_role = role_value ca OPERATOR, u_plan = ''free'', u_stripe_customer_id = None,
      u_stripe_subscription_id = None, u_subscription_status = None, u_is_active = True,
      u_created_at = dr_now dr\<rparr>"

definition register_user ::
  "settings \<Rightarrow> crypto \<Rightarrow> core_auth \<Rightarrow> drawn \<Rightarrow> signup \<Rightarrow> db \<Rightarrow> (db \<times> user) result" where
  "register_user st cr ca dr su d =
     (if s_registration_mode st = Closed then Inl RegistrationClosedError
      else bind_result (select_one (\<lambda>u. u_email u = su_email su) (users d)) (\<lambda>existing.
        if existing \<noteq> None then Inl (EmailAlreadyRegisteredError (su_email su))
        else bind_result
          (if s_registration_mode st = Invite
           then (case su_invite_code su of
               None \<Rightarrow> Inl InvalidInviteError
             | Some code \<Rightarrow>
                 if py_strip code = [] then Inl InvalidInviteError
                 else bind_result (claim_invite cr (dr_now dr) code d) (\<lambda>(d1, i). Inr d1))
           else Inr d)
          (\<lambda>d1. let u = new_user st cr ca dr su in
             bind_result (insert_user u d1) (\<lambda>d2. Inr (d2, u)))))"

definition authenticate_user :: "crypto \<Rightarrow> string \<Rightarrow> string \<Rightarrow> db \<Rightarrow> user result" where
  "authenticate_user cr email password d =
     bind_result (select_one (\<lambda>u. u_email u = email) (users d)) (\<lambda>found. case found of
         None \<Rightarrow> Inl (AuthenticationError ''Invalid email or password.'')
       | Some u \<Rightarrow>
           if \<not> u_is_active u \<or> \<not> verify_password cr password (u_password_hash u)
           then Inl (AuthenticationError ''Invalid email or password.'')
           else Inr u)"

section \<open>The registration service as a machine\<close>

text \<open>
  The committed effect of one request: a request that raises leaves the database as it was.
\<close>

datatype reg_event =
    CreateInvite uuid string timestamp uuid string int "int option"
  | RevokeInvite timestamp uuid
  | Register drawn signup

definition reg_step :: "settings \<Rightarrow> crypto \<Rightarrow> core_auth \<Rightarrow> db \<Rightarrow> reg_event \<Rightarrow> db" where
  "reg_step st cr ca d ev = (case ev of
       CreateInvite i t now by_user note n days \<Rightarrow>
         (case create_invite cr i t now by_user note n days d of Inr (d', _) \<Rightarrow> d' | Inl _ \<Rightarrow> d)
     | RevokeInvite now i \<Rightarrow> (case revoke_invite now i d of Inr d' \<Rightarrow> d' | Inl _ \<Rightarrow> d)
     | Register dr su \<Rightarrow> (case register_user st cr ca dr su d of Inr (d', _) \<Rightarrow> d' | Inl _ \<Rightarrow> d))"

text \<open>
  \<open>InviteCreateRequest\<close> (\<open>schemas/invites.py\<close>) bounds \<open>max_uses\<close> to 1..1000, and the admin router
  passes it on; requests outside never reach the service.
\<close>

definition valid_reg_event :: "reg_event \<Rightarrow> bool" where
  "valid_reg_event ev = (case ev of
     CreateInvite _ _ _ _ _ n _ \<Rightarrow> 1 \<le> n \<and> n \<le> 1000 | _ \<Rightarrow> True)"

definition invites_ok :: "db \<Rightarrow> bool" where
  "invites_ok d \<longleftrightarrow> db_wf d \<and> (\<forall>i \<in> set (invites d). 0 \<le> i_use_count i \<and> i_use_count i \<le> i_max_uses i)"

definition uses_total :: "db \<Rightarrow> int" where
  "uses_total d = sum_list (map i_use_count (invites d))"

definition uses_allowed :: "db \<Rightarrow> int" where
  "uses_allowed d = sum_list (map i_max_uses (invites d))"

text \<open>Registrations one after another: the outcome of each.\<close>

fun register_all ::
  "settings \<Rightarrow> crypto \<Rightarrow> core_auth \<Rightarrow> db \<Rightarrow> (drawn \<times> signup) list \<Rightarrow> bool list" where
  "register_all st cr ca d [] = []"
| "register_all st cr ca d ((dr, su) # rest) =
     (case register_user st cr ca dr su d of
        Inl _ \<Rightarrow> False # register_all st cr ca d rest
      | Inr (d', _) \<Rightarrow> True # register_all st cr ca d' rest)"

text \<open>Sign-ups that differ in e-mail and id from each other and from every account.\<close>

definition fresh_signups :: "db \<Rightarrow> (drawn \<times> signup) list \<Rightarrow> bool" where
  "fresh_signups d sus \<longleftrightarrow>
     distinct (map (su_email o snd) sus) \<and> distinct (map (dr_id o fst) sus) \<and>
     (\<forall>(dr, su) \<in> set sus. su_email su \<notin> u_email ` set (users d) \<and> dr_id dr \<notin> u_id ` set (users d))"

text \<open>Example values for the witnesses.\<close>

definition sample_st :: settings where
  "sample_st = default_settings\<lparr>s_registration_mode := Invite\<rparr>"

definition sample_invite :: "int \<Rightarrow> invite" where
  "sample_invite n = \<lparr>i_id = 7, i_code_hash = ''inv_x'', i_code_prefix = ''inv_x'', i_note = [],
     i_created_by = None, i_max_uses = n, i_use_count = 0, i_expires_at = None, i_revoked_at = None,
     i_created_at = 0\<rparr>"

definition sample_signup :: "string \<Rightarrow> signup" where
  "sample_signup e = \<lparr>su_email = e, su_password = ''hunter2hunter2'', su_name = ''N'',
     su_invite_code = Some ''inv_x''\<rparr>"

section \<open>Lemmas on invites\<close>

lemma select_invite: "db_wf d \<Longrightarrow>
  select_one (\<lambda>i. i_code_hash i = h) (invites d) = Inr (get_row i_code_hash h (invites d))"
  by (simp add: select_one_unique db_wfD)

lemma invite_status_active:
  "invite_status now i = ''active'' \<longleftrightarrow>
     i_revoked_at i = None \<and> (\<forall>t. i_expires_at i = Some t \<longrightarrow> now < t) \<and> i_use_count i < i_max_uses i"
  by (auto simp: invite_status_def split: option.splits)

lemma claim_invite_iff:
  assumes "db_wf d"
  shows "claim_invite cr now code d =
    (case get_row i_code_hash (hash_code cr (py_strip code)) (invites d) of
       None \<Rightarrow> Inl InvalidInviteError
     | Some i \<Rightarrow> if invite_status now i = ''active''
         then Inr (set_invite (i_id i) (\<lambda>i. i\<lparr>i_use_count := i_use_count i + 1\<rparr>) d,
                   i\<lparr>i_use_count := i_use_count i + 1\<rparr>)
         else Inl InvalidInviteError)"
  by (simp add: claim_invite_def select_invite [OF assms] split: option.splits)

lemma claim_invite_wf: "claim_invite cr now code d = Inr (d', i) \<Longrightarrow> db_wf d \<Longrightarrow> db_wf d'"
  by (auto simp: claim_invite_def result_simps set_invite_wf split: option.splits if_splits)

lemma sum_list_update_row:
  assumes "unique_on key rows" and "get_row key k rows = Some r"
  shows "sum_list (map c (update_row key k f rows)) = sum_list (map c rows) + (c (f r) - (c r :: int))"
  using assms
proof (induction rows)
  case (Cons x rows)
  show ?case
  proof (cases "key x = k")
    case True
    then have "k \<notin> key ` set rows" using Cons.prems(1) by (auto simp: unique_on_def)
    then show ?thesis
      using True Cons.prems(2) update_row_absent [of k key rows f]
      by (simp add: get_row_Cons update_row_def)
  next
    case False
    then show ?thesis using Cons by (simp add: get_row_Cons unique_on_def update_row_def)
  qed
qed simp

lemma claim_invite_uses:
  assumes "db_wf d" and "claim_invite cr now code d = Inr (d', i)"
  shows "uses_total d' = uses_total d + 1" and "uses_allowed d' = uses_allowed d"
    and "users d' = users d" and "length (invites d') = length (invites d)"
proof -
  obtain j where j: "get_row i_code_hash (hash_code cr (py_strip code)) (invites d) = Some j"
    and d': "d' = set_invite (i_id j) (\<lambda>i. i\<lparr>i_use_count := i_use_count i + 1\<rparr>) d"
    using assms by (auto simp: claim_invite_iff split: option.splits if_splits)
  have "get_row i_id (i_id j) (invites d) = Some j"
    using get_row_Some [OF j] db_wfD [OF assms(1)] by (simp add: get_row_unique)
  then show "uses_total d' = uses_total d + 1" and "uses_allowed d' = uses_allowed d"
    using db_wfD [OF assms(1)] by (simp_all add: d' uses_total_def uses_allowed_def sum_list_update_row)
  show "users d' = users d" and "length (invites d') = length (invites d)"
    by (simp_all add: d')
qed

lemma claim_invite_ok:
  assumes "invites_ok d" and "claim_invite cr now code d = Inr (d', i)"
  shows "invites_ok d'"
proof -
  have wf: "db_wf d" using assms(1) by (simp add: invites_ok_def)
  obtain j where j: "get_row i_code_hash (hash_code cr (py_strip code)) (invites d) = Some j"
    and act: "i_use_count j < i_max_uses j"
    and d': "d' = set_invite (i_id j) (\<lambda>i. i\<lparr>i_use_count := i_use_count i + 1\<rparr>) d"
    using assms(2) wf by (auto simp: claim_invite_iff invite_status_active split: option.splits if_splits)
  have only: "x = j" if "x \<in> set (invites d)" "i_id x = i_id j" for x
    using that get_row_Some [OF j] db_wfD(5) [OF wf] by (metis get_row_unique option.inject)
  then show ?thesis
    using assms(1) act by (auto simp: invites_ok_def d' set_invite_wf set_update_row)
      (metis zless_imp_add1_zle)
qed

section \<open>Lemmas on registration\<close>

lemma register_user_cases:
  assumes "register_user st cr ca dr su d = Inr (d', u)"
  obtains d1 where "s_registration_mode st \<noteq> Closed" "u = new_user st cr ca dr su"
    "insert_user u d1 = Inr d'"
    "s_registration_mode st = Invite \<Longrightarrow> \<exists>code i. su_invite_code su = Some code \<and>
       claim_invite cr (dr_now dr) code d = Inr (d1, i)"
    "s_registration_mode st \<noteq> Invite \<Longrightarrow> d1 = d"
  using assms unfolding register_user_def
  by (auto simp: result_simps Let_def split: if_splits option.splits prod.splits)

lemma insert_user_effect:
  "insert_user u d = Inr d' \<Longrightarrow> users d' = users d @ [u] \<and> invites d' = invites d \<and>
     agents d' = agents d \<and> api_keys d' = api_keys d \<and> access_keys d' = access_keys d"
  by (auto simp: insert_user_def split: if_splits)

lemma invites_ok_users: "db_wf d' \<Longrightarrow> invites d' = invites d \<Longrightarrow> invites_ok d \<Longrightarrow> invites_ok d'"
  by (simp add: invites_ok_def)

lemma register_user_ok:
  assumes "invites_ok d" and "register_user st cr ca dr su d = Inr (d', u)"
  shows "invites_ok d'"
  using assms(2)
proof (rule register_user_cases)
  fix d1
  assume ins: "insert_user u d1 = Inr d'"
    and c: "s_registration_mode st = Invite \<Longrightarrow> \<exists>code i. su_invite_code su = Some code \<and>
       claim_invite cr (dr_now dr) code d = Inr (d1, i)"
    and n: "s_registration_mode st \<noteq> Invite \<Longrightarrow> d1 = d"
  have "invites_ok d1"
    using c n assms(1) claim_invite_ok by (cases "s_registration_mode st = Invite") blast+
  then show ?thesis
    using ins insert_user_effect insert_user_wf invites_ok_users unfolding invites_ok_def by metis
qed

lemma create_invite_effect:
  assumes "create_invite cr i t now by_user note n days d = Inr (d', iv, code)"
  shows "d' = d\<lparr>invites := invites d @ [iv]\<rparr>" and "i_use_count iv = 0" and "i_max_uses iv = n"
    and "i_code_hash iv = hash_code cr code" and "i_revoked_at iv = None" and "i_id iv = i"
    and "insert_invite iv d = Inr d'" and "code = INVITE_PREFIX @ t"
    and "i_expires_at iv = None \<longleftrightarrow> days = None \<or> days = Some 0"
  using assms unfolding create_invite_def Let_def
  by (auto simp: result_simps insert_invite_def split: if_splits option.splits)

lemma reg_step_ok:
  assumes "invites_ok d" and "valid_reg_event ev"
  shows "invites_ok (reg_step st cr ca d ev)"
proof (cases ev)
  case (CreateInvite i t now by_user memo n days)
  show ?thesis
  proof (cases "create_invite cr i t now by_user memo n days d")
    case (Inr r)
    then obtain d' iv code where r: "create_invite cr i t now by_user memo n days d = Inr (d', iv, code)"
      by (cases r) auto
    have "db_wf d'"
      using create_invite_effect(7) [OF r] assms(1) insert_invite_wf by (auto simp: invites_ok_def)
    then show ?thesis
      using assms create_invite_effect [OF r] r CreateInvite
      by (auto simp: reg_step_def invites_ok_def valid_reg_event_def)
  qed (simp add: assms CreateInvite reg_step_def)
next
  case (RevokeInvite now i)
  then show ?thesis
    using assms(1)
    by (auto simp: reg_step_def revoke_invite_def invites_ok_def set_invite_wf set_update_row
        split: option.splits sum.splits)
next
  case (Register dr su)
  then show ?thesis
    using assms(1) register_user_ok by (auto simp: reg_step_def split: sum.splits)
qed

interpretation reg: step_invariant
  "\<lambda>d ev. if valid_reg_event ev then reg_step st cr ca d ev else d" invites_ok for st cr ca
  by unfold_locales (simp add: reg_step_ok)

lemma run_guarded:
  "\<forall>e \<in> set es. p e \<Longrightarrow> run_steps (\<lambda>s e. if p e then step s e else s) s es = run_steps step s es"
  by (induction es arbitrary: s) simp_all

lemma reg_run_ok:
  assumes "invites_ok d" and "\<forall>ev \<in> set evs. valid_reg_event ev"
  shows "invites_ok (run_steps (reg_step st cr ca) d evs)"
  using reg.run_keeps [OF assms(1), of st cr ca evs] assms(2) by (simp add: run_guarded)

lemma create_invite_uses:
  assumes "create_invite cr i t now by_user note n days d = Inr (d', iv, code)"
  shows "users d' = users d \<and> uses_total d' = uses_total d"
  using create_invite_effect(1,2) [OF assms] by (simp add: uses_total_def)

lemma reg_step_accounts:
  assumes "invites_ok d" and "valid_reg_event ev" and "s_registration_mode st = Invite"
  shows "int (length (users (reg_step st cr ca d ev))) - uses_total (reg_step st cr ca d ev) =
    int (length (users d)) - uses_total d"
proof (cases ev)
  case (CreateInvite i t now by_user memo n days)
  then show ?thesis
    by (auto simp: reg_step_def dest!: create_invite_uses split: sum.splits)
next
  case (RevokeInvite now i)
  then show ?thesis
    by (auto simp: reg_step_def revoke_invite_def uses_total_def map_update_row_same
        split: sum.splits option.splits if_splits)
next
  case (Register dr su)
  show ?thesis
  proof (cases "register_user st cr ca dr su d")
    case (Inr r)
    then obtain d' u where r: "register_user st cr ca dr su d = Inr (d', u)" by (cases r) auto
    then show ?thesis
    proof (rule register_user_cases)
      fix d1
      assume ins: "insert_user u d1 = Inr d'"
        and c: "s_registration_mode st = Invite \<Longrightarrow> \<exists>code i. su_invite_code su = Some code \<and>
          claim_invite cr (dr_now dr) code d = Inr (d1, i)"
      obtain code i where "claim_invite cr (dr_now dr) code d = Inr (d1, i)"
        using c assms(3) by blast
      then have "uses_total d1 = uses_total d + 1" "users d1 = users d"
        using claim_invite_uses assms(1) by (auto simp: invites_ok_def)
      then show ?thesis
        using insert_user_effect [OF ins] r Register by (simp add: reg_step_def uses_total_def)
    qed
  qed (simp add: Register reg_step_def)
qed

lemma reg_run_accounts:
  assumes "invites_ok d" and "\<forall>ev \<in> set evs. valid_reg_event ev" and "s_registration_mode st = Invite"
  shows "int (length (users (run_steps (reg_step st cr ca) d evs))) -
      uses_total (run_steps (reg_step st cr ca) d evs) = int (length (users d)) - uses_total d"
  using assms(1,2)
proof (induction evs arbitrary: d)
  case (Cons ev evs)
  then show ?case
    using reg_step_accounts [OF Cons.prems(1) _ assms(3), of ev cr ca] reg_step_ok [of d ev st cr ca]
    by simp
qed simp

lemma uses_within: "invites_ok d \<Longrightarrow> 0 \<le> uses_total d \<and> uses_total d \<le> uses_allowed d"
  unfolding invites_ok_def uses_total_def uses_allowed_def
  by (auto intro!: sum_list_nonneg sum_list_mono)

lemma register_new_account:
  assumes "db_wf d" and "s_registration_mode st = Invite" and "su_invite_code su = Some code"
    and "py_strip code \<noteq> []" and "su_email su \<notin> u_email ` set (users d)"
    and "dr_id dr \<notin> u_id ` set (users d)"
  shows "register_user st cr ca dr su d = (case claim_invite cr (dr_now dr) code d of
      Inl e \<Rightarrow> Inl e
    | Inr (d1, i) \<Rightarrow> Inr (d1\<lparr>users := users d @ [new_user st cr ca dr su]\<rparr>, new_user st cr ca dr su))"
proof -
  have none: "get_row u_email (su_email su) (users d) = None"
    using assms(5) by (simp add: get_row_None)
  have "insert_user (new_user st cr ca dr su) d1 =
      Inr (d1\<lparr>users := users d @ [new_user st cr ca dr su]\<rparr>)"
    if "claim_invite cr (dr_now dr) code d = Inr (d1, i)" for d1 i
    using claim_invite_uses(3) [OF assms(1) that] assms(5,6)
    by (simp add: insert_user_def new_user_def)
  then show ?thesis
    using assms(2-4) none db_wfD(2) [OF assms(1)]
    by (auto simp: register_user_def select_one_unique Let_def split: sum.splits)
qed

text \<open>How a claimed invite looks to the next claim of the same code.\<close>

lemma claim_invite_next:
  assumes "db_wf d" and "get_row i_code_hash h (invites d) = Some i"
    and "h = hash_code cr (py_strip code)" and "invite_status now i = ''active''"
  shows "claim_invite cr now code d =
      Inr (set_invite (i_id i) (\<lambda>i. i\<lparr>i_use_count := i_use_count i + 1\<rparr>) d,
           i\<lparr>i_use_count := i_use_count i + 1\<rparr>)"
    and "get_row i_code_hash h
      (invites (set_invite (i_id i) (\<lambda>i. i\<lparr>i_use_count := i_use_count i + 1\<rparr>) d)) =
      Some (i\<lparr>i_use_count := i_use_count i + 1\<rparr>)"
proof -
  show "claim_invite cr now code d =
      Inr (set_invite (i_id i) (\<lambda>i. i\<lparr>i_use_count := i_use_count i + 1\<rparr>) d,
           i\<lparr>i_use_count := i_use_count i + 1\<rparr>)"
    using assms by (simp add: claim_invite_iff)
  let ?f = "\<lambda>i. i\<lparr>i_use_count := i_use_count i + 1 :: int\<rparr>"
  have "i \<in> set (invites d)" "i_code_hash i = h"
    using get_row_Some [OF assms(2)] by auto
  then have "?f i \<in> set (update_row i_id (i_id i) ?f (invites d))" "i_code_hash (?f i) = h"
    by (auto simp: set_update_row)
  moreover have "unique_on i_code_hash (update_row i_id (i_id i) ?f (invites d))"
    using db_wfD(6) [OF assms(1)] by (simp add: unique_on_update)
  ultimately show "get_row i_code_hash h (invites (set_invite (i_id i) ?f d)) = Some (?f i)"
    using get_row_unique by fastforce
qed

lemma fresh_signups_Cons:
  assumes "fresh_signups d ((dr, su) # sus)"
  shows "su_email su \<notin> u_email ` set (users d)" "dr_id dr \<notin> u_id ` set (users d)"
    "fresh_signups d sus"
    "u_email u = su_email su \<Longrightarrow> u_id u = dr_id dr \<Longrightarrow> users d' = users d @ [u] \<Longrightarrow> fresh_signups d' sus"
proof -
  show "su_email su \<notin> u_email ` set (users d)" "dr_id dr \<notin> u_id ` set (users d)"
    "fresh_signups d sus"
    using assms by (simp_all add: fresh_signups_def)
  have other: "su_email su' \<noteq> su_email su \<and> dr_id dr' \<noteq> dr_id dr" if "(dr', su') \<in> set sus" for dr' su'
    using assms that unfolding fresh_signups_def by (auto simp: image_iff dest: bspec [OF _ that])
  show "fresh_signups d' sus"
    if "u_email u = su_email su" "u_id u = dr_id dr" "users d' = users d @ [u]"
    using assms that other by (auto simp: fresh_signups_def)
qed

lemma register_all_uses:
  assumes "invites_ok d" and "s_registration_mode st = Invite"
    and "get_row i_code_hash (hash_code cr (py_strip code)) (invites d) = Some i"
    and "i_revoked_at i = None" and "py_strip code \<noteq> []" and "fresh_signups d sus"
    and "\<forall>(dr, su) \<in> set sus. su_invite_code su = Some code \<and>
      (\<forall>t. i_expires_at i = Some t \<longrightarrow> dr_now dr < t)"
  shows "register_all st cr ca d sus =
    map (\<lambda>n. int n < i_max_uses i - i_use_count i) [0..<length sus]"
  using assms
proof (induction sus arbitrary: d i)
  case (Cons x sus)
  obtain dr su where x: "x = (dr, su)" by (cases x)
  have wf: "db_wf d" using Cons.prems(1) by (simp add: invites_ok_def)
  note fresh = fresh_signups_Cons [OF Cons.prems(6) [unfolded x]]
  have reg: "register_user st cr ca dr su d = (case claim_invite cr (dr_now dr) code d of
      Inl e \<Rightarrow> Inl e
    | Inr (d1, i) \<Rightarrow> Inr (d1\<lparr>users := users d @ [new_user st cr ca dr su]\<rparr>, new_user st cr ca dr su))"
    using Cons.prems(2,5,7) x fresh by (intro register_new_account wf) auto
  have act: "invite_status (dr_now dr) i = ''active'' \<longleftrightarrow> i_use_count i < i_max_uses i"
    using Cons.prems(4,7) x by (auto simp: invite_status_active)
  show ?case
  proof (cases "i_use_count i < i_max_uses i")
    case False
    then have "claim_invite cr (dr_now dr) code d = Inl InvalidInviteError"
      using act Cons.prems(3) by (simp add: claim_invite_iff [OF wf])
    then have "register_all st cr ca d (x # sus) = False # register_all st cr ca d sus"
      using reg x by simp
    moreover have "register_all st cr ca d sus =
        map (\<lambda>n. int n < i_max_uses i - i_use_count i) [0..<length sus]"
      using Cons.prems fresh x by (intro Cons.IH) auto
    moreover have "map (\<lambda>n. int n < i_max_uses i - i_use_count i) [0..<m] = replicate m False" for m
      using False by (intro replicate_eqI) auto
    ultimately show ?thesis by (simp del: upt_Suc)
  next
    case True
    let ?d1 = "set_invite (i_id i) (\<lambda>i. i\<lparr>i_use_count := i_use_count i + 1\<rparr>) d"
    let ?u = "new_user st cr ca dr su" and ?i = "i\<lparr>i_use_count := i_use_count i + 1\<rparr>"
    note next_claim = claim_invite_next [OF wf Cons.prems(3) refl act [THEN iffD2, OF True]]
    let ?d2 = "?d1\<lparr>users := users d @ [?u]\<rparr>"
    have r: "register_user st cr ca dr su d = Inr (?d2, ?u)"
      using reg next_claim(1) by simp
    have "register_all st cr ca ?d2 sus =
        map (\<lambda>n. int n < i_max_uses ?i - i_use_count ?i) [0..<length sus]"
    proof (rule Cons.IH)
      show "invites_ok ?d2" using register_user_ok [OF Cons.prems(1) r] .
      show "get_row i_code_hash (hash_code cr (py_strip code)) (invites ?d2) = Some ?i"
        using next_claim(2) by simp
      show "fresh_signups ?d2 sus"
        by (rule fresh(4) [of ?u]) (simp_all add: new_user_def)
    qed (use Cons.prems x in auto)
    then show ?thesis
      using r x True
      by (simp add: map_Suc_upt [symmetric] upt_conv_Cons comp_def algebra_simps del: upt_Suc)
  qed
qed simp

section \<open>Properties\<close>

text \<open>
  C1: in invite mode an account exists for every use of an invite and for nothing else. Over any
  sequence of invite creations, revocations and registrations (failed ones included), the number
  of accounts grows by exactly the number of uses counted on invites, every invite's use count
  stays between 0 and its \<open>max_uses\<close>, and so no more accounts are created than the issued invites
  allow.
\<close>

theorem invite_only_accounts:
  fixes d :: db and cr :: crypto and ca :: core_auth
  assumes "s_registration_mode st = Invite" and "invites_ok d"
    and "\<forall>ev \<in> set evs. valid_reg_event ev"
  defines "d' \<equiv> run_steps (reg_step st cr ca) d evs"
  shows "invites_ok d' \<and>
    int (length (users d')) = int (length (users d)) + (uses_total d' - uses_total d) \<and>
    int (length (users d')) \<le> int (length (users d)) + uses_allowed d'"
proof -
  have ok: "invites_ok d'" unfolding d'_def using assms(2,3) by (rule reg_run_ok)
  have "int (length (users d')) - uses_total d' = int (length (users d)) - uses_total d"
    unfolding d'_def using assms(2,3,1) by (rule reg_run_accounts)
  then show ?thesis
    using ok uses_within [OF ok] uses_within [OF assms(2)] by linarith
qed

lemma sample_invites_ok: "0 \<le> n \<Longrightarrow> invites_ok (empty_db\<lparr>invites := [sample_invite n]\<rparr>)"
  by (simp add: invites_ok_def db_wf_def keys_wf_def refs_wf_def empty_db_def unique_on_def
      unique_opt_on_def sample_invite_def)

theorem invite_only_accounts_witness:
  "invites_ok (run_steps (reg_step sample_st sample_crypto sample_core_auth)
     (empty_db\<lparr>invites := [sample_invite 1]\<rparr>)
     [Register \<lparr>dr_id = 1, dr_salt = 0, dr_now = 5\<rparr> (sample_signup ''a''), RevokeInvite 6 7])"
  using invite_only_accounts [of sample_st "empty_db\<lparr>invites := [sample_invite 1]\<rparr>"
      "[Register \<lparr>dr_id = 1, dr_salt = 0, dr_now = 5\<rparr> (sample_signup ''a''), RevokeInvite 6 7]"
      sample_crypto sample_core_auth]
    sample_invites_ok [of 1]
  by (simp add: sample_st_def valid_reg_event_def)

text \<open>
  C17: an invite admits exactly its remaining uses. When sign-ups with new e-mail addresses present
  the code of an unrevoked, unexpired invite one after another, exactly the first
  \<open>max_uses - use_count\<close> of them succeed and every later one is refused.
\<close>

theorem invite_admits_exactly:
  assumes "invites_ok d" and "s_registration_mode st = Invite"
    and "get_row i_code_hash (hash_code cr (py_strip code)) (invites d) = Some i"
    and "i_revoked_at i = None" and "py_strip code \<noteq> []" and "fresh_signups d sus"
    and "\<forall>(dr, su) \<in> set sus. su_invite_code su = Some code \<and>
      (\<forall>t. i_expires_at i = Some t \<longrightarrow> dr_now dr < t)"
  shows "register_all st cr ca d sus =
    map (\<lambda>n. int n < i_max_uses i - i_use_count i) [0..<length sus]"
  using assms by (rule register_all_uses)

theorem invite_admits_exactly_witness:
  "register_all sample_st sample_crypto sample_core_auth (empty_db\<lparr>invites := [sample_invite 1]\<rparr>)
     [(\<lparr>dr_id = 1, dr_salt = 0, dr_now = 5\<rparr>, sample_signup ''a''),
      (\<lparr>dr_id = 2, dr_salt = 0, dr_now = 6\<rparr>, sample_signup ''b'')] = [True, False]"
proof -
  have strip: "py_strip ''inv_x'' = ''inv_x''" by code_simp
  show ?thesis
    using invite_admits_exactly [of "empty_db\<lparr>invites := [sample_invite 1]\<rparr>" sample_st sample_crypto
        "''inv_x''" "sample_invite 1"
        "[(\<lparr>dr_id = 1, dr_salt = 0, dr_now = 5\<rparr>, sample_signup ''a''),
          (\<lparr>dr_id = 2, dr_salt = 0, dr_now = 6\<rparr>, sample_signup ''b'')]" sample_core_auth]
      sample_invites_ok [of 1]
    by (simp add: strip sample_st_def hash_code_def sample_crypto_def get_row_Cons sample_invite_def
        fresh_signups_def empty_db_def sample_signup_def upt_conv_Cons)
qed

text \<open>
  Registration and login agree. A new account gets the developer role and the free plan, the
  database keeps the schema's constraints, and logging in with the registered e-mail and password
  returns that account.
\<close>

theorem register_then_login:
  assumes "bcrypt_law cr" and "db_wf d" and "register_user st cr ca dr su d = Inr (d', u)"
  shows "db_wf d' \<and> u_role u = role_value ca OPERATOR \<and> u_plan u = ''free'' \<and>
    authenticate_user cr (su_email su) (su_password su) d' = Inr u"
  using assms(3)
proof (rule register_user_cases)
  fix d1
  assume u: "u = new_user st cr ca dr su" and ins: "insert_user u d1 = Inr d'"
    and c: "s_registration_mode st = Invite \<Longrightarrow> \<exists>code i. su_invite_code su = Some code \<and>
       claim_invite cr (dr_now dr) code d = Inr (d1, i)"
    and n: "s_registration_mode st \<noteq> Invite \<Longrightarrow> d1 = d"
  have "db_wf d1"
    using c n assms(2) claim_invite_wf by (cases "s_registration_mode st = Invite") blast+
  then have wf: "db_wf d'" using ins insert_user_wf by blast
  have "get_row u_email (u_email u) (users d') = Some u"
    using insert_user_effect [OF ins] db_wfD(2) [OF wf] by (simp add: get_row_unique)
  then show ?thesis
    using wf assms(1) u db_wfD(2) [OF wf]
    by (simp add: authenticate_user_def select_one_unique new_user_def verify_password_def
        hash_password_def bcrypt_law_def)
qed

theorem register_then_login_witness:
  "\<exists>d' u. register_user default_settings sample_crypto sample_core_auth
      \<lparr>dr_id = 1, dr_salt = 0, dr_now = 5\<rparr> (sample_signup ''a'') empty_db = Inr (d', u) \<and>
    authenticate_user sample_crypto ''a'' ''hunter2hunter2'' d' = Inr u"
proof -
  let ?u = "new_user default_settings sample_crypto sample_core_auth
      \<lparr>dr_id = 1, dr_salt = 0, dr_now = 5\<rparr> (sample_signup ''a'')"
  have r: "register_user default_settings sample_crypto sample_core_auth
      \<lparr>dr_id = 1, dr_salt = 0, dr_now = 5\<rparr> (sample_signup ''a'') empty_db =
      Inr (empty_db\<lparr>users := [?u]\<rparr>, ?u)"
    by (simp add: register_user_def default_settings_def empty_db_def select_one_def one_or_none_def
        insert_user_def Let_def)
  show ?thesis
    using register_then_login [OF sample_bcrypt_law db_wf_empty r] r by (simp add: sample_signup_def)
qed

text \<open>
  Failures do not tell an attacker anything. A refused login always raises the same error,
  whether the e-mail is unknown, the account inactive or the password wrong; and in invite mode a
  registration with an unused e-mail and id either succeeds or raises the one invalid-invite error,
  whether the code is missing, blank, unknown, revoked, expired or used up.
\<close>

theorem refusals_are_uniform:
  assumes "db_wf d"
  shows "(case authenticate_user cr email password d of
      Inl e \<Rightarrow> e = AuthenticationError ''Invalid email or password.''
    | Inr u \<Rightarrow> u \<in> set (users d) \<and> u_email u = email \<and> u_is_active u \<and>
        verify_password cr password (u_password_hash u)) \<and>
    (s_registration_mode st = Invite \<and> su_email su \<notin> u_email ` set (users d) \<and>
     dr_id dr \<notin> u_id ` set (users d) \<longrightarrow>
      is_ok (register_user st cr ca dr su d) \<or>
      register_user st cr ca dr su d = Inl InvalidInviteError)"
proof (intro conjI impI)
  show "case authenticate_user cr email password d of
      Inl e \<Rightarrow> e = AuthenticationError ''Invalid email or password.''
    | Inr u \<Rightarrow> u \<in> set (users d) \<and> u_email u = email \<and> u_is_active u \<and>
        verify_password cr password (u_password_hash u)"
    using db_wfD(2) [OF assms]
    by (auto simp: authenticate_user_def select_one_unique split: option.splits dest: get_row_Some)
next
  assume h: "s_registration_mode st = Invite \<and> su_email su \<notin> u_email ` set (users d) \<and>
     dr_id dr \<notin> u_id ` set (users d)"
  show "is_ok (register_user st cr ca dr su d) \<or> register_user st cr ca dr su d = Inl InvalidInviteError"
  proof (cases "\<exists>code. su_invite_code su = Some code \<and> py_strip code \<noteq> []")
    case True
    then obtain code where c: "su_invite_code su = Some code" "py_strip code \<noteq> []" by blast
    then show ?thesis
      using h by (auto simp: register_new_account [OF assms _ c] claim_invite_iff [OF assms]
          split: option.splits)
  next
    case False
    have "get_row u_email (su_email su) (users d) = None"
      using h by (simp add: get_row_None)
    then show ?thesis
      using False h db_wfD(2) [OF assms]
      by (auto simp: register_user_def select_one_unique split: option.splits)
  qed
qed

theorem refusals_are_uniform_witness:
  "register_user sample_st sample_crypto sample_core_auth \<lparr>dr_id = 1, dr_salt = 0, dr_now = 5\<rparr>
     (sample_signup ''a'') empty_db = Inl InvalidInviteError"
  using refusals_are_uniform [OF db_wf_empty, where cr = sample_crypto and st = sample_st and
      su = "sample_signup ''a''" and dr = "\<lparr>dr_id = 1, dr_salt = 0, dr_now = 5\<rparr>" and
      ca = sample_core_auth]
  by (auto simp: is_ok_iff sample_st_def empty_db_def register_user_def claim_invite_def
      select_one_def one_or_none_def sample_signup_def split: if_splits)

end
