(* ===== verification/Credentials.thy ===== *)
theory Credentials
  imports Registration
begin

text \<open>
  Credentials: API keys (\<open>security/api_keys.py\<close>, \<open>services/api_key_service.py\<close>), the access keys
  of private agents (\<open>services/access_key_service.py\<close>), session tokens (\<open>security/jwt.py\<close>) and the
  bearer authentication of \<open>security/dependencies.py\<close>, with the routes of \<open>routers/auth.py\<close> and
  \<open>routers/api_keys.py\<close>. Both kinds of key are stored as hashes; the locale \<open>credential_store\<close> is
  the contract they share, and is interpreted for each.
\<close>

section \<open>API keys (api\_keys.py, api\_key\_service.py)\<close>

definition hash_key :: "crypto \<Rightarrow> string \<Rightarrow> string" where
  "hash_key cr raw_key = sha256_hex cr raw_key"

text \<open>\<open>hmac.compare_digest\<close> is equality (in constant time).\<close>

definition keys_match :: "crypto \<Rightarrow> string \<Rightarrow> string \<Rightarrow> bool" where
  "keys_match cr raw_key expected_hash = (hash_key cr raw_key = expected_hash)"

definition mint_api_key :: "core_auth \<Rightarrow> string \<Rightarrow> string \<Rightarrow> role \<Rightarrow> string \<times> string \<times> string" where
  "mint_api_key ca token who r =
     (let (raw_key, key_hash) = api_key_generate ca who r token;
          key_prefix = take 12 raw_key
      in (raw_key, key_hash, key_prefix))"

text \<open>The values drawn when a key is made: the row's id, the random token and the time.\<close>

record key_draw =
  kd_id :: uuid
  kd_token :: string
  kd_now :: timestamp

definition create_api_key ::
  "core_auth \<Rightarrow> key_draw \<Rightarrow> user \<Rightarrow> string \<Rightarrow> string list \<Rightarrow> db \<Rightarrow> (db \<times> api_key \<times> string) result" where
  "create_api_key ca kd u label scopes d =
     bind_result (role_enum ca u) (\<lambda>r.
       let (raw_key, key_hash, key_prefix) = mint_api_key ca (kd_token kd) (uuid_str (u_id u)) r;
           k = \<lparr>k_id = kd_id kd, k_user_id = u_id u, k_label = label, k_key_prefix = key_prefix,
                k_key_hash = key_hash, k_scopes = scopes, k_project_id = None,
                k_created_at = kd_now kd, k_last_used_at = None, k_revoked_at = None,
                k_expires_at = None\<rparr>
       in bind_result (insert_api_key k d) (\<lambda>d'. Inr (d', k, raw_key)))"

definition list_api_keys :: "uuid \<Rightarrow> db \<Rightarrow> api_key list" where
  "list_api_keys user_id d =
     order_by_desc k_created_at (filter (\<lambda>k. k_user_id k = user_id \<and> k_revoked_at k = None) (api_keys d))"

definition revoke_api_key :: "timestamp \<Rightarrow> uuid \<Rightarrow> uuid \<Rightarrow> db \<Rightarrow> db result" where
  "revoke_api_key now user_id key_id d =
     bind_result (select_one (\<lambda>k. k_id k = key_id \<and> k_user_id k = user_id) (api_keys d)) (\<lambda>found.
       case found of
         None \<Rightarrow> Inl (ApiKeyNotFoundError (uuid_str key_id))
       | Some k \<Rightarrow>
           if \<not> api_key_is_active now k then Inl (ApiKeyNotFoundError (uuid_str key_id))
           else Inr (set_api_key key_id (\<lambda>k. k\<lparr>k_revoked_at := Some now\<rparr>) d))"

section \<open>Access keys of private agents (access\_key\_service.py)\<close>

definition KEY_PREFIX :: string where
  "KEY_PREFIX = ''agk_''"

definition create_access_key ::
  "crypto \<Rightarrow> key_draw \<Rightarrow> agent \<Rightarrow> string \<Rightarrow> db \<Rightarrow> (db \<times> access_key \<times> string) result" where
  "create_access_key cr kd ag label d =
     (let raw_key = KEY_PREFIX @ kd_token kd;
          k = \<lparr>ak_id = kd_id kd, ak_agent_id = a_id ag, ak_label = label,
               ak_key_prefix = take 12 raw_key, ak_key_hash = hash_key cr raw_key,
               ak_created_at = kd_now kd\<rparr>
      in bind_result (insert_access_key k d) (\<lambda>d'. Inr (d', k, raw_key)))"

definition list_access_keys :: "string \<Rightarrow> db \<Rightarrow> access_key list" where
  "list_access_keys agent_id d =
     sort_key ak_created_at (filter (\<lambda>k. ak_agent_id k = agent_id) (access_keys d))"

definition delete_access_key :: "string \<Rightarrow> uuid \<Rightarrow> db \<Rightarrow> db result" where
  "delete_access_key agent_id key_id d = (case get_row ak_id key_id (access_keys d) of
       None \<Rightarrow> Inl (AccessKeyNotFoundError (uuid_str key_id))
     | Some k \<Rightarrow>
         if ak_agent_id k \<noteq> agent_id then Inl (AccessKeyNotFoundError (uuid_str key_id))
         else Inr (remove_access_key_row key_id d))"

definition is_valid_access_key :: "crypto \<Rightarrow> string \<Rightarrow> string \<Rightarrow> db \<Rightarrow> bool" where
  "is_valid_access_key cr agent_id raw_key d =
     (if \<not> starts_with raw_key KEY_PREFIX then False
      else filter (\<lambda>k. ak_agent_id k = agent_id \<and> ak_key_hash k = hash_key cr raw_key)
             (access_keys d) \<noteq> [])"

section \<open>Session tokens (jwt.py)\<close>

definition ISSUER :: string where
  "ISSUER = ''agntspark-gateway''"

definition create_access_token ::
  "settings \<Rightarrow> crypto \<Rightarrow> timestamp \<Rightarrow> uuid \<Rightarrow> uuid \<Rightarrow> string \<Rightarrow> int \<Rightarrow> string \<times> int" where
  "create_access_token st cr now jti user_id email r =
     (let expires_in = jwt_expire_minutes st * 60;
          payload = \<lparr>cl_sub = Some (uuid_str user_id), cl_email = email, cl_role = r, cl_iss = ISSUER,
            cl_iat = now, cl_exp = now + expires_in * 1000000, cl_jti = uuid_str jti\<rparr>
      in (jwt_encode cr payload (jwt_secret st) (jwt_algorithm st), expires_in))"

definition decode_access_token :: "settings \<Rightarrow> crypto \<Rightarrow> timestamp \<Rightarrow> string \<Rightarrow> jwt_claims result" where
  "decode_access_token st cr now token =
     (case jwt_decode cr token (jwt_secret st) (jwt_algorithm st) ISSUER now of
        Some c \<Rightarrow> Inr c
      | None \<Rightarrow> Inl (AuthenticationError ''Invalid or expired token.''))"

section \<open>Bearer authentication (dependencies.py)\<close>

datatype auth_method = Jwt | ApiKeyAuth

record principal =
  p_user_id :: uuid
  p_email :: string
  p_role :: role
  p_auth_method :: auth_method
  p_api_key_id :: "uuid option"

definition authenticate_api_key ::
  "crypto \<Rightarrow> core_auth \<Rightarrow> timestamp \<Rightarrow> string \<Rightarrow> db \<Rightarrow> principal result" where
  "authenticate_api_key cr ca now token d =
     (let refuse = Inl (AuthenticationError ''Invalid or revoked API key.'') in
      bind_result (select_one (\<lambda>k. k_key_hash k = hash_key cr token) (api_keys d)) (\<lambda>found.
        case found of
          None \<Rightarrow> refuse
        | Some k \<Rightarrow>
            if \<not> api_key_is_active now k then refuse
            else case get_user d (k_user_id k) of
                None \<Rightarrow> refuse
              | Some u \<Rightarrow>
                  if \<not> u_is_active u then refuse
                  else bind_result (role_enum ca u) (\<lambda>r.
                    Inr \<lparr>p_user_id = u_id u, p_email = u_email u, p_role = r,
                         p_auth_method = ApiKeyAuth, p_api_key_id = Some (k_id k)\<rparr>)))"

definition authenticate_jwt ::
  "settings \<Rightarrow> crypto \<Rightarrow> core_auth \<Rightarrow> timestamp \<Rightarrow> string \<Rightarrow> db \<Rightarrow> principal result" where
  "authenticate_jwt st cr ca now token d =
     bind_result (decode_access_token st cr now token) (\<lambda>payload.
       case (case cl_sub payload of None \<Rightarrow> None | Some s \<Rightarrow> uuid_parse s) of
         None \<Rightarrow> Inl (AuthenticationError ''Invalid token payload.'')
       | Some user_id \<Rightarrow>
           case get_user d user_id of
             None \<Rightarrow> Inl (AuthenticationError ''Invalid or expired token.'')
           | Some u \<Rightarrow>
               if \<not> u_is_active u then Inl (AuthenticationError ''Invalid or expired token.'')
               else bind_result (role_enum ca u) (\<lambda>r.
                 Inr \<lparr>p_user_id = u_id u, p_email = u_email u, p_role = r, p_auth_method = Jwt,
                      p_api_key_id = None\<rparr>))"

text \<open>The credentials are the bearer token of the request, if it has one.\<close>

definition get_current_principal ::
  "settings \<Rightarrow> crypto \<Rightarrow> core_auth \<Rightarrow> timestamp \<Rightarrow> string option \<Rightarrow> db \<Rightarrow> principal result" where
  "get_current_principal st cr ca now creds d = (case creds of
       None \<Rightarrow> Inl (AuthenticationError ''Missing Authorization header.'')
     | Some token \<Rightarrow>
         if token = [] then Inl (AuthenticationError ''Missing Authorization header.'')
         else if starts_with token (api_key_prefix st @ ''_'')
         then authenticate_api_key cr ca now token d
         else authenticate_jwt st cr ca now token d)"

definition require_jwt_principal ::
  "settings \<Rightarrow> crypto \<Rightarrow> core_auth \<Rightarrow> timestamp \<Rightarrow> string option \<Rightarrow> db \<Rightarrow> principal result" where
  "require_jwt_principal st cr ca now creds d = (case creds of
       None \<Rightarrow> Inl (AuthenticationError ''Missing Authorization header.'')
     | Some token \<Rightarrow>
         if token = [] then Inl (AuthenticationError ''Missing Authorization header.'')
         else if starts_with token (api_key_prefix st @ ''_'')
         then Inl (AuthenticationError
           ''This action requires a logged-in session, not an API key.'')
         else authenticate_jwt st cr ca now token d)"

fun role_name :: "role \<Rightarrow> string" where
  "role_name VIEWER = ''VIEWER''"
| "role_name OPERATOR = ''OPERATOR''"
| "role_name ADMIN = ''ADMIN''"
| "role_name (OtherRole n) = ''OTHER''"

definition require_role ::
  "settings \<Rightarrow> crypto \<Rightarrow> core_auth \<Rightarrow> timestamp \<Rightarrow> role \<Rightarrow> bool \<Rightarrow> string option \<Rightarrow> db \<Rightarrow>
   principal result" where
  "require_role st cr ca now minimum jwt_only creds d =
     bind_result
       (if jwt_only then require_jwt_principal st cr ca now creds d
        else get_current_principal st cr ca now creds d)
       (\<lambda>p. if \<not> role_can ca (p_role p) minimum
            then Inl (AuthorisationError (uuid_str (p_user_id p))
              (''require_role('' @ role_name minimum @ '')''))
            else Inr p)"

section \<open>Routes (routers/api\_keys.py, routers/auth.py)\<close>

record api_key_out =
  ko_id :: uuid
  ko_label :: string
  ko_keyPreview :: string
  ko_createdAt :: timestamp
  ko_lastUsedAt :: "timestamp option"
  ko_scopes :: "string list"

definition key_out :: "api_key \<Rightarrow> api_key_out" where
  "key_out k = \<lparr>ko_id = k_id k, ko_label = k_label k, ko_keyPreview = k_key_prefix k @ ''...'',
     ko_createdAt = k_created_at k, ko_lastUsedAt = k_last_used_at k, ko_scopes = k_scopes k\<rparr>"

definition create_key ::
  "settings \<Rightarrow> crypto \<Rightarrow> core_auth \<Rightarrow> key_draw \<Rightarrow> string option \<Rightarrow> string \<Rightarrow> string list \<Rightarrow> db \<Rightarrow>
   (db \<times> api_key_out \<times> string) result" where
  "create_key st cr ca kd creds label scopes d =
     bind_result (require_role st cr ca (kd_now kd) OPERATOR True creds d) (\<lambda>p.
       case get_user d (p_user_id p) of
         None \<Rightarrow> Inl (AuthenticationError ''Invalid or expired token.'')
       | Some u \<Rightarrow> bind_result (create_api_key ca kd u label scopes d) (\<lambda>(d', k, raw_key).
           Inr (d', key_out k, raw_key)))"

definition list_keys ::
  "settings \<Rightarrow> crypto \<Rightarrow> core_auth \<Rightarrow> timestamp \<Rightarrow> string option \<Rightarrow> db \<Rightarrow> api_key_out list result" where
  "list_keys st cr ca now creds d =
     bind_result (get_current_principal st cr ca now creds d) (\<lambda>p. Inr (map key_out (list_api_keys (p_user_id p) d)))"

definition delete_key ::
  "settings \<Rightarrow> crypto \<Rightarrow> core_auth \<Rightarrow> timestamp \<Rightarrow> string option \<Rightarrow> uuid \<Rightarrow> db \<Rightarrow> db result" where
  "delete_key st cr ca now creds key_id d =
     bind_result (get_current_principal st cr ca now creds d)
       (\<lambda>p. revoke_api_key now (p_user_id p) key_id d)"

record UserOut =
  uo_id :: uuid
  uo_name :: string
  uo_email :: string
  uo_role :: string
  uo_plan :: string

definition user_out :: "core_auth \<Rightarrow> user \<Rightarrow> UserOut result" where
  "user_out ca u = bind_result (role_enum ca u) (\<lambda>r. bind_result (role_to_str r) (\<lambda>s.
     Inr \<lparr>uo_id = u_id u, uo_name = u_name u, uo_email = u_email u, uo_role = s, uo_plan = u_plan u\<rparr>))"

definition token_response ::
  "settings \<Rightarrow> crypto \<Rightarrow> core_auth \<Rightarrow> timestamp \<Rightarrow> uuid \<Rightarrow> user \<Rightarrow> (string \<times> int \<times> UserOut) result" where
  "token_response st cr ca now jti u =
     (let (token, expires_in) = create_access_token st cr now jti (u_id u) (u_email u) (u_role u) in
      bind_result (user_out ca u) (\<lambda>out. Inr (token, expires_in, out)))"

text \<open>
  The rate limit in front of both routes is in \<open>Login_Limit\<close>. A registration is committed before
  the response is built, so its database is returned beside the response.
\<close>

definition register ::
  "settings \<Rightarrow> crypto \<Rightarrow> core_auth \<Rightarrow> drawn \<Rightarrow> uuid \<Rightarrow> signup \<Rightarrow> db \<Rightarrow>
   db \<times> (string \<times> int \<times> UserOut) result" where
  "register st cr ca dr jti su d = (case register_user st cr ca dr su d of
       Inl e \<Rightarrow> (d, Inl e)
     | Inr (d', u) \<Rightarrow> (d', token_response st cr ca (dr_now dr) jti u))"

definition login ::
  "settings \<Rightarrow> crypto \<Rightarrow> core_auth \<Rightarrow> timestamp \<Rightarrow> uuid \<Rightarrow> string \<Rightarrow> string \<Rightarrow> db \<Rightarrow>
   (string \<times> int \<times> UserOut) result" where
  "login st cr ca now jti email password d =
     bind_result (authenticate_user cr email password d) (token_response st cr ca now jti)"

definition me ::
  "settings \<Rightarrow> crypto \<Rightarrow> core_auth \<Rightarrow> timestamp \<Rightarrow> string option \<Rightarrow> db \<Rightarrow> UserOut result" where
  "me st cr ca now creds d =
     bind_result (get_current_principal st cr ca now creds d) (\<lambda>p.
       case get_user d (p_user_id p) of
         None \<Rightarrow> Inl (AuthenticationError ''Invalid or expired token.'')
       | Some u \<Rightarrow> user_out ca u)"

section \<open>Keys as a machine\<close>

text \<open>
  The committed effect of a key request: a request that raises leaves the database as it was.
  \<open>Issue\<close> makes a key, \<open>Withdraw\<close> ends one or more.
\<close>

datatype ('i, 'r) key_event = Issue 'i | Withdraw 'r

definition key_step ::
  "('i \<Rightarrow> 's \<Rightarrow> ('s \<times> string \<times> 'o) result) \<Rightarrow> ('r \<Rightarrow> 's \<Rightarrow> 's result) \<Rightarrow>
   's \<Rightarrow> ('i, 'r) key_event \<Rightarrow> 's" where
  "key_step issue withdraw s ev = (case ev of
       Issue i \<Rightarrow> (case issue i s of Inr (s', _) \<Rightarrow> s' | Inl _ \<Rightarrow> s)
     | Withdraw r \<Rightarrow> (case withdraw r s of Inr s' \<Rightarrow> s' | Inl _ \<Rightarrow> s))"

text \<open>API keys: who a stored hash stands for at a time, and the two requests.\<close>

definition api_key_holder :: "timestamp \<Rightarrow> db \<Rightarrow> string \<Rightarrow> uuid option" where
  "api_key_holder now d h = (case get_row k_key_hash h (api_keys d) of
     None \<Rightarrow> None | Some k \<Rightarrow> if api_key_is_active now k then Some (k_user_id k) else None)"

definition issue_api_key ::
  "core_auth \<Rightarrow> key_draw \<times> user \<times> string \<times> string list \<Rightarrow> db \<Rightarrow> (db \<times> string \<times> uuid) result" where
  "issue_api_key ca i d = (case i of (kd, u, label, scopes) \<Rightarrow>
     bind_result (create_api_key ca kd u label scopes d) (\<lambda>(d', k, raw). Inr (d', k_key_hash k, k_user_id k)))"

definition withdraw_api_key :: "timestamp \<times> uuid \<times> uuid \<Rightarrow> db \<Rightarrow> db result" where
  "withdraw_api_key r d = (case r of (now, user_id, key_id) \<Rightarrow> revoke_api_key now user_id key_id d)"

definition ended_api_keys :: "timestamp \<times> uuid \<times> uuid \<Rightarrow> db \<Rightarrow> string set" where
  "ended_api_keys r d = (case r of (now, user_id, key_id) \<Rightarrow>
     k_key_hash ` set (filter (\<lambda>k. k_id k = key_id) (api_keys d)))"

abbreviation "api_key_step ca \<equiv> key_step (issue_api_key ca) withdraw_api_key"

text \<open>Access keys: deleting one, or deleting the agent, which cascades.\<close>

datatype access_withdrawal = DeleteKey string uuid | DeleteAgent string

definition access_key_holder :: "db \<Rightarrow> string \<Rightarrow> string option" where
  "access_key_holder d h = map_option ak_agent_id (get_row ak_key_hash h (access_keys d))"

definition issue_access_key ::
  "crypto \<Rightarrow> key_draw \<times> agent \<times> string \<Rightarrow> db \<Rightarrow> (db \<times> string \<times> string) result" where
  "issue_access_key cr i d = (case i of (kd, ag, label) \<Rightarrow>
     bind_result (create_access_key cr kd ag label d) (\<lambda>(d', k, raw). Inr (d', ak_key_hash k, ak_agent_id k)))"

definition withdraw_access_key :: "access_withdrawal \<Rightarrow> db \<Rightarrow> db result" where
  "withdraw_access_key r d = (case r of
     DeleteKey aid kid \<Rightarrow> delete_access_key aid kid d | DeleteAgent aid \<Rightarrow> Inr (remove_agent_row aid d))"

definition ended_access_keys :: "access_withdrawal \<Rightarrow> db \<Rightarrow> string set" where
  "ended_access_keys r d = ak_key_hash ` set (filter
     (\<lambda>k. case r of DeleteKey aid kid \<Rightarrow> ak_id k = kid | DeleteAgent aid \<Rightarrow> ak_agent_id k = aid)
     (access_keys d))"

abbreviation "access_key_step cr \<equiv> key_step (issue_access_key cr) withdraw_access_key"

section \<open>What is relied on of the libraries\<close>

text \<open>
  \<open>security/api_keys.py\<close>: core's keys have the form \<open>agnt_<token>\<close> and are hashed with SHA-256.
  \<open>security/dependencies.py\<close>: a token made by PyJWT is not empty and never starts with the API-key
  prefix.
\<close>

definition api_key_law :: "crypto \<Rightarrow> core_auth \<Rightarrow> bool" where
  "api_key_law cr ca \<longleftrightarrow> (\<forall>who r t. case api_key_generate ca who r t of (raw, h) \<Rightarrow>
     starts_with raw ''agnt_'' \<and> h = sha256_hex cr raw)"

definition jwt_shape_law :: "settings \<Rightarrow> crypto \<Rightarrow> bool" where
  "jwt_shape_law st cr \<longleftrightarrow> (\<forall>c key alg. jwt_encode cr c key alg \<noteq> [] \<and>
     \<not> starts_with (jwt_encode cr c key alg) (api_key_prefix st @ ''_''))"

definition key_revoked :: "string \<Rightarrow> db \<Rightarrow> bool" where
  "key_revoked h d \<longleftrightarrow> (\<exists>k \<in> set (api_keys d). k_key_hash k = h \<and> k_revoked_at k \<noteq> None)"

text \<open>Example rows.\<close>

definition sample_user :: user where
  "sample_user = \<lparr>u_id = 1, u_email = ''a'', u_password_hash = ''pw'', u_name = ''A'', u_role = 1,
     u_plan = ''free'', u_stripe_customer_id = None, u_stripe_subscription_id = None,
     u_subscription_status = None, u_is_active = True, u_created_at = 0\<rparr>"

definition sample_agent :: agent where
  "sample_agent = \<lparr>a_id = ''agent-1'', a_user_id = 1, a_slug = ''demo-abc123'', a_name = ''Demo'',
     a_runtime = ''python3.12'', a_framework = ''agno'', a_model = ''m'', a_system_prompt = None,
     a_tags = [], a_metadata = [], a_status = ''running'', a_error = None, a_version = 1,
     a_access = ''private'', a_rate_limit_rpm = None, a_replicas = 1, a_cpu = 1/2, a_memory_mb = 256,
     a_gpu = 0, a_gpu_type = None, a_disk_gb = 10, a_ephemeral_storage_gb = 5, a_env = [],
     a_image = Some ''img'', a_build_path = None, a_command = None, a_args = [],
     a_health_check_path = None, a_auto_scale = False, a_min_replicas = 1, a_max_replicas = 1,
     a_port = 8000, a_created_at = 0\<rparr>"

definition sample_key :: api_key where
  "sample_key = \<lparr>k_id = 9, k_user_id = 1, k_label = ''ci'', k_key_prefix = ''agnt_t'',
     k_key_hash = ''agnt_t'', k_scopes = [], k_project_id = None, k_created_at = 5,
     k_last_used_at = None, k_revoked_at = None, k_expires_at = None\<rparr>"

definition sample_db :: db where
  "sample_db = empty_db\<lparr>users := [sample_user], agents := [sample_agent]\<rparr>"

definition sample_token :: string where
  "sample_token = sample_encode \<lparr>cl_sub = Some (uuid_str 1), cl_email = ''a'', cl_role = 1, cl_iss = ISSUER,
       cl_iat = 0, cl_exp = 9, cl_jti = ''j''\<rparr>"

section \<open>The contract of a credential store\<close>

text \<open>
  A store of hashed credentials: each live hash stands for one holder; issuing adds a hash that
  stood for nobody, withdrawing ends exactly the hashes named by \<open>ended\<close>. From these laws follows
  what matters to a caller: a credential that is accepted was issued to that holder and was not
  withdrawn since.
\<close>

locale credential_store =
  fixes holder :: "'s \<Rightarrow> string \<Rightarrow> 'o option" and wf :: "'s \<Rightarrow> bool"
    and issue :: "'i \<Rightarrow> 's \<Rightarrow> ('s \<times> string \<times> 'o) result"
    and withdraw :: "'r \<Rightarrow> 's \<Rightarrow> 's result" and ended :: "'r \<Rightarrow> 's \<Rightarrow> string set"
  assumes issue_law: "wf s \<Longrightarrow> issue i s = Inr (s', h, w) \<Longrightarrow>
      wf s' \<and> holder s h = None \<and> holder s' = (holder s)(h \<mapsto> w)"
    and withdraw_law: "wf s \<Longrightarrow> withdraw r s = Inr s' \<Longrightarrow>
      wf s' \<and> holder s' = (holder s) |` (- ended r s)"
begin

lemma issue_wf: "wf s \<Longrightarrow> issue i s = Inr (s', h, w) \<Longrightarrow> wf s'"
  and withdraw_wf: "wf s \<Longrightarrow> withdraw r s = Inr s' \<Longrightarrow> wf s'"
  using issue_law withdraw_law by blast+

lemma step_wf: "wf s \<Longrightarrow> wf (key_step issue withdraw s ev)"
  by (cases ev) (auto simp: key_step_def intro: issue_wf withdraw_wf split: sum.split prod.split)

lemma run_wf: "wf s \<Longrightarrow> wf (run_steps (key_step issue withdraw) s evs)"
  by (induction evs arbitrary: s) (simp_all add: step_wf)

lemma step_holder:
  assumes "wf s" and "holder (key_step issue withdraw s ev) h = Some w"
  shows "holder s h = Some w \<or> (\<exists>i s'. ev = Issue i \<and> issue i s = Inr (s', h, w))"
proof (cases ev)
  case (Issue i)
  show ?thesis
  proof (cases "issue i s")
    case (Inr r)
    then obtain s' h' w' where r: "issue i s = Inr (s', h', w')" by (cases r) auto
    then show ?thesis
      using assms issue_law [OF assms(1) r] Issue by (auto simp: key_step_def split: if_splits)
  qed (use assms Issue in \<open>simp add: key_step_def\<close>)
next
  case (Withdraw r)
  then show ?thesis
    using assms
    by (auto simp: key_step_def restrict_map_def dest: withdraw_law split: sum.splits if_splits)
qed

lemma accepted_was_issued:
  assumes "wf s" and "holder (run_steps (key_step issue withdraw) s evs) h = Some w"
  shows "holder s h = Some w \<or>
    (\<exists>pre i post s'. evs = pre @ Issue i # post \<and>
       issue i (run_steps (key_step issue withdraw) s pre) = Inr (s', h, w))"
  using assms
proof (induction evs rule: rev_induct)
  case (snoc ev evs)
  let ?s = "run_steps (key_step issue withdraw) s evs"
  have "holder ?s h = Some w \<or> (\<exists>i s'. ev = Issue i \<and> issue i ?s = Inr (s', h, w))"
    using step_holder [OF run_wf [OF snoc.prems(1)], of evs ev h w] snoc.prems(2) by simp
  then show ?case
  proof
    assume "holder ?s h = Some w"
    then show ?thesis using snoc.IH [OF snoc.prems(1)] by (metis append_Cons append_assoc)
  qed blast
qed simp

lemma withdrawn_needs_reissue:
  assumes "wf s" and "withdraw r s = Inr s1" and "h \<in> ended r s"
    and "holder (run_steps (key_step issue withdraw) s1 evs) h = Some w"
  shows "\<exists>pre i post s'. evs = pre @ Issue i # post \<and>
    issue i (run_steps (key_step issue withdraw) s1 pre) = Inr (s', h, w)"
  using accepted_was_issued [of s1 evs h w] withdraw_law [OF assms(1,2)] assms(3,4) by auto

lemma issued_is_accepted: "wf s \<Longrightarrow> issue i s = Inr (s', h, w) \<Longrightarrow> holder s' h = Some w"
  using issue_law by fastforce

lemma withdrawn_is_refused: "wf s \<Longrightarrow> withdraw r s = Inr s' \<Longrightarrow> h \<in> ended r s \<Longrightarrow> holder s' h = None"
  using withdraw_law by fastforce

end

section \<open>API keys provide the contract\<close>

lemma create_api_key_effect:
  assumes "create_api_key ca kd u label scopes d = Inr (d', k, raw)"
  shows "insert_api_key k d = Inr d'" and "d' = d\<lparr>api_keys := api_keys d @ [k]\<rparr>"
    and "k_key_hash k \<notin> k_key_hash ` set (api_keys d)" and "k_user_id k = u_id u"
    and "api_key_is_active now k" and "k_id k = kd_id kd" and "k_key_prefix k = take 12 raw"
    and "\<exists>r. role_enum ca u = Inr r \<and>
      (raw, k_key_hash k) = api_key_generate ca (uuid_str (u_id u)) r (kd_token kd)"
  using assms unfolding create_api_key_def mint_api_key_def
  by (auto simp: result_simps Let_def insert_api_key_def api_key_is_active_def
      split: prod.splits if_splits)

lemma get_row_snoc_new:
  "c r \<notin> c ` set rows \<Longrightarrow> get_row c h (rows @ [r]) = (if h = c r then Some r else get_row c h rows)"
  by (auto simp: get_row_append get_row_Cons get_row_None [THEN iffD2] split: option.splits)

lemma revoke_api_key_effect:
  assumes "db_wf d" and "revoke_api_key now user_id key_id d = Inr d'"
  shows "\<exists>k. get_row k_id key_id (api_keys d) = Some k \<and> k_user_id k = user_id \<and>
    api_key_is_active now k" and "d' = set_api_key key_id (\<lambda>k. k\<lparr>k_revoked_at := Some now\<rparr>) d"
proof -
  obtain k where k: "select_one (\<lambda>k. k_id k = key_id \<and> k_user_id k = user_id) (api_keys d) = Inr (Some k)"
    and "api_key_is_active now k" and "d' = set_api_key key_id (\<lambda>k. k\<lparr>k_revoked_at := Some now\<rparr>) d"
    using assms(2) by (auto simp: revoke_api_key_def result_simps split: option.splits if_splits)
  then show "\<exists>k. get_row k_id key_id (api_keys d) = Some k \<and> k_user_id k = user_id \<and>
      api_key_is_active now k" "d' = set_api_key key_id (\<lambda>k. k\<lparr>k_revoked_at := Some now\<rparr>) d"
    using select_one_Some [OF k] get_row_unique [OF db_wfD(3) [OF assms(1)], of k] by auto
qed

lemma get_row_other_key:
  "(\<And>r. c (f r) = c r) \<Longrightarrow> get_row c h (update_row key k f rows) =
     map_option (\<lambda>r. if key r = k then f r else r) (get_row c h rows)"
  by (induction rows) (auto simp: update_row_def get_row_Cons)

lemma api_key_holder_revoke:
  assumes "db_wf d"
  shows "api_key_holder t (set_api_key key_id (\<lambda>k. k\<lparr>k_revoked_at := Some now\<rparr>) d) =
    api_key_holder t d |` (- ended_api_keys (now, user_id, key_id) d)"
proof
  fix h
  have "k_id k = key_id" if "get_row k_key_hash h (api_keys d) = Some k"
    "h \<in> ended_api_keys (now, user_id, key_id) d" for k
    using that get_row_unique [OF db_wfD(4) [OF assms]] by (fastforce simp: ended_api_keys_def)
  moreover have "k_id k \<noteq> key_id" if "get_row k_key_hash h (api_keys d) = Some k"
    "h \<notin> ended_api_keys (now, user_id, key_id) d" for k
    using that get_row_Some [OF that(1)] by (auto simp: ended_api_keys_def)
  ultimately show "api_key_holder t (set_api_key key_id (\<lambda>k. k\<lparr>k_revoked_at := Some now\<rparr>) d) h =
    (api_key_holder t d |` (- ended_api_keys (now, user_id, key_id) d)) h"
    by (auto simp: api_key_holder_def get_row_other_key restrict_map_def api_key_is_active_def
        split: option.splits)
qed

interpretation akeys: credential_store "api_key_holder t" db_wf "issue_api_key ca" withdraw_api_key
  ended_api_keys for t ca
proof unfold_locales
  fix d i d' h w
  assume wf: "db_wf d" and "issue_api_key ca i d = Inr (d', h, w)"
  then obtain kd u label scopes k raw where
    c: "create_api_key ca kd u label scopes d = Inr (d', k, raw)" and h: "h = k_key_hash k" "w = k_user_id k"
    by (auto simp: issue_api_key_def result_simps split: prod.splits)
  note e = create_api_key_effect [OF c]
  have "api_key_holder t d h = None"
    using e(3) h by (simp add: api_key_holder_def get_row_None [THEN iffD2])
  moreover have "api_key_holder t d' = (api_key_holder t d)(h \<mapsto> w)"
    using e(3) e(5) [of t] h by (auto simp: e(2) api_key_holder_def get_row_snoc_new)
  ultimately show "db_wf d' \<and> api_key_holder t d h = None \<and>
      api_key_holder t d' = (api_key_holder t d)(h \<mapsto> w)"
    using insert_api_key_wf [OF e(1) wf] by blast
next
  fix d r d'
  assume wf: "db_wf d" and w: "withdraw_api_key r d = Inr d'"
  obtain now user_id key_id where r: "r = (now, user_id, key_id)" by (cases r)
  then have d': "d' = set_api_key key_id (\<lambda>k. k\<lparr>k_revoked_at := Some now\<rparr>) d"
    using w revoke_api_key_effect(2) [OF wf] by (simp add: withdraw_api_key_def)
  then show "db_wf d' \<and> api_key_holder t d' = api_key_holder t d |` (- ended_api_keys r d)"
    using wf api_key_holder_revoke [OF wf] by (simp add: r set_api_key_wf)
qed

section \<open>Access keys provide the contract\<close>

lemma create_access_key_effect:
  assumes "create_access_key cr kd ag label d = Inr (d', k, raw)"
  shows "insert_access_key k d = Inr d'" and "d' = d\<lparr>access_keys := access_keys d @ [k]\<rparr>"
    and "ak_key_hash k \<notin> ak_key_hash ` set (access_keys d)" and "ak_agent_id k = a_id ag"
    and "raw = KEY_PREFIX @ kd_token kd" and "ak_key_hash k = hash_key cr raw" and "ak_id k = kd_id kd"
  using assms unfolding create_access_key_def Let_def
  by (auto simp: result_simps insert_access_key_def split: if_splits)

lemma get_row_filter:
  "unique_on c rows \<Longrightarrow> get_row c h (filter q rows) =
     (case get_row c h rows of None \<Rightarrow> None | Some r \<Rightarrow> if q r then Some r else None)"
proof (induction rows)
  case (Cons r rows)
  moreover have "get_row c (c r) (filter q rows) = None" if "c r \<notin> c ` set rows"
    using that by (auto simp: get_row_None)
  ultimately show ?case by (auto simp: get_row_Cons unique_on_def)
qed simp

lemma access_key_holder_filter:
  assumes "db_wf d"
    and "access_keys d' = filter (\<lambda>k. \<not> q k) (access_keys d)"
  shows "access_key_holder d' = access_key_holder d |` (- ak_key_hash ` set (filter q (access_keys d)))"
proof
  fix h
  note u = db_wfD(10) [OF assms(1)]
  show "access_key_holder d' h =
      (access_key_holder d |` (- ak_key_hash ` set (filter q (access_keys d)))) h"
  proof (cases "get_row ak_key_hash h (access_keys d)")
    case None
    then show ?thesis
      using u by (simp add: access_key_holder_def assms(2) get_row_filter restrict_map_def)
  next
    case (Some k)
    have "r = k" if "r \<in> set (access_keys d)" "ak_key_hash r = h" for r
      using get_row_unique [OF u that(1)] Some that(2) by simp
    then have "h \<in> ak_key_hash ` set (filter q (access_keys d)) \<longleftrightarrow> q k"
      using get_row_Some [OF Some] by auto
    then show ?thesis
      using Some u by (simp add: access_key_holder_def assms(2) get_row_filter restrict_map_def)
  qed
qed

interpretation xkeys: credential_store access_key_holder db_wf "issue_access_key cr"
  withdraw_access_key ended_access_keys for cr
proof unfold_locales
  fix d i d' h w
  assume wf: "db_wf d" and "issue_access_key cr i d = Inr (d', h, w)"
  then obtain kd ag label k raw where
    c: "create_access_key cr kd ag label d = Inr (d', k, raw)" and h: "h = ak_key_hash k" "w = ak_agent_id k"
    by (auto simp: issue_access_key_def result_simps split: prod.splits)
  note e = create_access_key_effect [OF c]
  have "access_key_holder d h = None"
    using e(3) h by (simp add: access_key_holder_def get_row_None [THEN iffD2])
  moreover have "access_key_holder d' = (access_key_holder d)(h \<mapsto> w)"
    using e(3) h by (auto simp: e(2) access_key_holder_def get_row_snoc_new)
  ultimately show "db_wf d' \<and> access_key_holder d h = None \<and>
      access_key_holder d' = (access_key_holder d)(h \<mapsto> w)"
    using insert_access_key_wf [OF e(1) wf] by blast
next
  fix d r d'
  assume wf: "db_wf d" and w: "withdraw_access_key r d = Inr d'"
  have wf': "db_wf d'"
    using w wf by (auto simp: withdraw_access_key_def delete_access_key_def remove_access_key_row_wf
        remove_agent_row_wf split: access_withdrawal.splits option.splits if_splits)
  have acc: "access_keys d' = filter (\<lambda>k. \<not> (case r of DeleteKey aid kid \<Rightarrow> ak_id k = kid
      | DeleteAgent aid \<Rightarrow> ak_agent_id k = aid)) (access_keys d)"
    using w by (auto simp: withdraw_access_key_def delete_access_key_def remove_access_key_row_def
        remove_agent_row_def delete_row_def split: access_withdrawal.splits option.splits if_splits)
  show "db_wf d' \<and> access_key_holder d' = access_key_holder d |` (- ended_access_keys r d)"
    using wf' access_key_holder_filter [OF wf acc] by (simp add: ended_access_keys_def)
qed

section \<open>Authentication through the stores\<close>

lemma authenticate_api_key_iff:
  assumes "db_wf d"
  shows "authenticate_api_key cr ca now token d = Inr p \<longleftrightarrow>
    (\<exists>k u r. get_row k_key_hash (hash_key cr token) (api_keys d) = Some k \<and> api_key_is_active now k \<and>
       get_user d (k_user_id k) = Some u \<and> u_is_active u \<and> role_enum ca u = Inr r \<and>
       p = \<lparr>p_user_id = u_id u, p_email = u_email u, p_role = r, p_auth_method = ApiKeyAuth,
            p_api_key_id = Some (k_id k)\<rparr>)"
  using db_wfD(4) [OF assms]
  by (auto simp: authenticate_api_key_def select_one_unique result_simps Let_def split: option.splits)

lemma authenticated_holder:
  assumes "db_wf d" and "authenticate_api_key cr ca now token d = Inr p"
  shows "api_key_holder now d (hash_key cr token) = Some (p_user_id p)"
  using assms(2) get_user_Some
  by (fastforce simp: authenticate_api_key_iff [OF assms(1)] api_key_holder_def)

lemma no_holder_refused:
  assumes "db_wf d" and "api_key_holder now d (hash_key cr token) = None"
  shows "authenticate_api_key cr ca now token d = Inl (AuthenticationError ''Invalid or revoked API key.'')"
  using assms(2) db_wfD(4) [OF assms(1)]
  by (auto simp: authenticate_api_key_def select_one_unique api_key_holder_def Let_def
      split: option.splits if_splits)

lemma authenticate_jwt_iff:
  "authenticate_jwt st cr ca now token d = Inr p \<longleftrightarrow>
    (\<exists>c s uid u r. decode_access_token st cr now token = Inr c \<and> cl_sub c = Some s \<and>
       uuid_parse s = Some uid \<and> get_user d uid = Some u \<and> u_is_active u \<and> role_enum ca u = Inr r \<and>
       p = \<lparr>p_user_id = u_id u, p_email = u_email u, p_role = r, p_auth_method = Jwt, p_api_key_id = None\<rparr>)"
    (is "?l \<longleftrightarrow> ?r")
proof
  assume ?l
  then obtain c where c: "decode_access_token st cr now token = Inr c"
    by (auto simp: authenticate_jwt_def result_simps)
  obtain s uid where s: "cl_sub c = Some s" "uuid_parse s = Some uid"
    using \<open>?l\<close> c by (auto simp: authenticate_jwt_def split: option.split_asm)
  obtain u where u: "get_user d uid = Some u" "u_is_active u"
    using \<open>?l\<close> c s by (auto simp: authenticate_jwt_def split: option.split_asm if_split_asm)
  show ?r using \<open>?l\<close> c s u by (auto simp: authenticate_jwt_def result_simps)
qed (auto simp: authenticate_jwt_def)

lemma is_valid_access_key_iff:
  assumes "db_wf d"
  shows "is_valid_access_key cr aid raw d \<longleftrightarrow>
    starts_with raw KEY_PREFIX \<and> access_key_holder d (hash_key cr raw) = Some aid"
proof -
  have "filter (\<lambda>k. ak_agent_id k = aid \<and> ak_key_hash k = h) (access_keys d) \<noteq> [] \<longleftrightarrow>
      access_key_holder d h = Some aid" for h
    using get_row_unique [OF db_wfD(10) [OF assms]]
    by (auto simp: filter_empty_conv access_key_holder_def dest: get_row_Some)
  then show ?thesis by (simp add: is_valid_access_key_def)
qed

section \<open>A revoked key stays revoked\<close>

lemma key_revoked_set:
  fixes now :: timestamp
  defines "f \<equiv> \<lambda>k. k\<lparr>k_revoked_at := Some now\<rparr>"
  shows "key_revoked h d \<Longrightarrow> key_revoked h (set_api_key kid f d)"
    and "k \<in> set (api_keys d) \<Longrightarrow> k_id k = kid \<Longrightarrow> key_revoked (k_key_hash k) (set_api_key kid f d)"
proof -
  show "key_revoked h (set_api_key kid f d)" if r: "key_revoked h d"
  proof -
    obtain k where k: "k \<in> set (api_keys d)" "k_key_hash k = h" "k_revoked_at k \<noteq> None"
      using r by (auto simp: key_revoked_def)
    then show ?thesis
      unfolding key_revoked_def using update_row_member [OF k(1), of k_id kid f]
      by (intro bexI [where x = "if k_id k = kid then f k else k"]) (auto simp: f_def)
  qed
  show "key_revoked (k_key_hash k) (set_api_key kid f d)" if "k \<in> set (api_keys d)" "k_id k = kid"
    unfolding key_revoked_def using update_row_member [OF that(1), of k_id kid f] that(2)
    by (intro bexI [where x = "f k"]) (auto simp: f_def)
qed

lemma key_revoked_step:
  assumes "db_wf d" and "key_revoked h d"
  shows "key_revoked h (api_key_step ca d ev)"
proof (cases ev)
  case (Issue i)
  have "set (api_keys d) \<subseteq> set (api_keys (api_key_step ca d ev))"
    by (auto simp: key_step_def Issue issue_api_key_def result_simps dest!: create_api_key_effect(2)
        split: sum.splits prod.splits)
  then show ?thesis using assms(2) by (auto simp: key_revoked_def)
next
  case (Withdraw r)
  obtain now user_id key_id where r: "r = (now, user_id, key_id)" by (cases r)
  show ?thesis
  proof (cases "revoke_api_key now user_id key_id d")
    case (Inr d')
    then show ?thesis
      using revoke_api_key_effect(2) [OF assms(1) Inr] key_revoked_set(1) [OF assms(2)]
      by (simp add: key_step_def Withdraw r withdraw_api_key_def)
  qed (use assms(2) in \<open>simp add: key_step_def Withdraw r withdraw_api_key_def\<close>)
qed

interpretation rkeys: step_invariant "api_key_step ca" "\<lambda>d. db_wf d \<and> key_revoked h d" for ca h
  using key_revoked_step akeys.step_wf by unfold_locales blast

lemma key_revoked_no_holder:
  assumes "db_wf d" and "key_revoked h d"
  shows "api_key_holder t d h = None"
proof -
  obtain k where k: "k \<in> set (api_keys d)" "k_key_hash k = h" "k_revoked_at k \<noteq> None"
    using assms(2) by (auto simp: key_revoked_def)
  then have "get_row k_key_hash h (api_keys d) = Some k"
    using get_row_unique [OF db_wfD(4) [OF assms(1)]] by blast
  then show ?thesis using k(3) by (simp add: api_key_holder_def api_key_is_active_def)
qed

section \<open>Properties\<close>

lemma sample_db_wf: "db_wf sample_db"
  by (simp add: sample_db_def db_wf_def keys_wf_def refs_wf_def empty_db_def unique_on_def
      unique_opt_on_def sample_user_def sample_agent_def)

lemma sample_api_key_law: "api_key_law sample_crypto sample_core_auth"
  by (simp add: api_key_law_def sample_crypto_def sample_core_auth_def starts_with_def)

lemma sample_jwt_shape: "jwt_shape_law default_settings sample_crypto"
  by (simp add: jwt_shape_law_def sample_crypto_def sample_encode_def default_settings_def starts_with_def)

text \<open>
  C10: an API key is accepted only if it was issued, and only as its owner. After any sequence of
  key creations and revocations (failed ones included), a token accepted as a user's key has the
  hash of a key that was live for that user at the start, or of one created in the sequence for
  that very user.
\<close>

theorem api_key_authenticity:
  assumes "db_wf d"
    and "authenticate_api_key cr ca now token (run_steps (api_key_step ca) d evs) = Inr p"
  shows "api_key_holder now d (hash_key cr token) = Some (p_user_id p) \<or>
    (\<exists>pre kd u label scopes post d' k raw.
       evs = pre @ Issue (kd, u, label, scopes) # post \<and>
       create_api_key ca kd u label scopes (run_steps (api_key_step ca) d pre) = Inr (d', k, raw) \<and>
       k_key_hash k = hash_key cr token \<and> u_id u = p_user_id p)"
proof -
  have "api_key_holder now (run_steps (api_key_step ca) d evs) (hash_key cr token) = Some (p_user_id p)"
    using authenticated_holder akeys.run_wf [OF assms(1)] assms(2) by blast
  then consider "api_key_holder now d (hash_key cr token) = Some (p_user_id p)"
    | pre i post d' where "evs = pre @ Issue i # post"
      "issue_api_key ca i (run_steps (api_key_step ca) d pre) = Inr (d', hash_key cr token, p_user_id p)"
    using akeys.accepted_was_issued [OF assms(1)] by blast
  then show ?thesis
  proof cases
    case 2
    obtain kd u label scopes where i: "i = (kd, u, label, scopes)" by (cases i)
    then obtain k raw where
      c: "create_api_key ca kd u label scopes (run_steps (api_key_step ca) d pre) = Inr (d', k, raw)"
        "k_key_hash k = hash_key cr token" "k_user_id k = p_user_id p"
      using 2(2) by (auto simp: issue_api_key_def result_simps)
    then show ?thesis
      using create_api_key_effect(4) [OF c(1)] 2(1) i by metis
  qed simp
qed

lemma sample_create_key:
  "create_api_key sample_core_auth \<lparr>kd_id = 9, kd_token = ''t'', kd_now = 5\<rparr> sample_user ''ci'' [] sample_db =
   Inr (sample_db\<lparr>api_keys := [sample_key]\<rparr>, sample_key, ''agnt_t'')"
  by (simp add: create_api_key_def mint_api_key_def sample_core_auth_def role_enum_def sample_user_def
      insert_api_key_def sample_db_def empty_db_def Let_def sample_key_def)

lemma sample_key_wf: "db_wf (sample_db\<lparr>api_keys := [sample_key]\<rparr>)"
  using insert_api_key_wf [OF create_api_key_effect(1) [OF sample_create_key] sample_db_wf] .

lemma sample_key_authenticates:
  "authenticate_api_key sample_crypto sample_core_auth 6 ''agnt_t'' (sample_db\<lparr>api_keys := [sample_key]\<rparr>) =
   Inr \<lparr>p_user_id = 1, p_email = ''a'', p_role = OPERATOR, p_auth_method = ApiKeyAuth,
    p_api_key_id = Some 9\<rparr>"
  by (simp add: authenticate_api_key_def select_one_def one_or_none_def hash_key_def sample_crypto_def
      api_key_is_active_def sample_db_def get_user_def get_row_Cons sample_user_def role_enum_def
      sample_core_auth_def sample_key_def)

theorem api_key_authenticity_witness:
  "\<exists>p. authenticate_api_key sample_crypto sample_core_auth 6 ''agnt_t''
       (run_steps (api_key_step sample_core_auth) sample_db
         [Issue (\<lparr>kd_id = 9, kd_token = ''t'', kd_now = 5\<rparr>, sample_user, ''ci'', [])]) = Inr p \<and>
     (\<exists>u. u_id u = p_user_id p \<and> u = sample_user)"
proof -
  have a: "authenticate_api_key sample_crypto sample_core_auth 6 ''agnt_t''
      (run_steps (api_key_step sample_core_auth) sample_db
        [Issue (\<lparr>kd_id = 9, kd_token = ''t'', kd_now = 5\<rparr>, sample_user, ''ci'', [])]) =
      Inr \<lparr>p_user_id = 1, p_email = ''a'', p_role = OPERATOR, p_auth_method = ApiKeyAuth,
        p_api_key_id = Some 9\<rparr>"
    by (simp add: key_step_def issue_api_key_def sample_create_key sample_key_authenticates)
  have "api_key_holder 6 sample_db (hash_key sample_crypto ''agnt_t'') = None"
    by (simp add: api_key_holder_def sample_db_def empty_db_def)
  then show ?thesis
    using api_key_authenticity [OF sample_db_wf a] a by (auto simp: Cons_eq_append_conv)
qed

text \<open>
  C23: revocation is immediate and final. Once \<open>revoke_api_key\<close> returns, the key it names is refused
  with the same error at every later time, whatever keys are created or revoked in between: no
  later key can take over its hash.
\<close>

theorem revoked_key_stays_revoked:
  assumes "db_wf d" and "revoke_api_key now user_id key_id d = Inr d'"
    and "get_row k_id key_id (api_keys d) = Some k" and "hash_key cr token = k_key_hash k"
  shows "authenticate_api_key cr ca t token (run_steps (api_key_step ca) d' evs) =
    Inl (AuthenticationError ''Invalid or revoked API key.'')"
proof -
  have d': "d' = set_api_key key_id (\<lambda>k. k\<lparr>k_revoked_at := Some now\<rparr>) d"
    using revoke_api_key_effect(2) [OF assms(1,2)] .
  have "db_wf d' \<and> key_revoked (k_key_hash k) d'"
    using get_row_Some [OF assms(3)] assms(1) key_revoked_set(2) [of k d key_id now]
    by (simp add: d' set_api_key_wf)
  then have "db_wf (run_steps (api_key_step ca) d' evs) \<and>
      key_revoked (k_key_hash k) (run_steps (api_key_step ca) d' evs)"
    by (rule rkeys.run_keeps)
  then show ?thesis
    using assms(4) by (auto intro!: no_holder_refused key_revoked_no_holder)
qed

theorem revoked_key_stays_revoked_witness:
  "authenticate_api_key sample_crypto sample_core_auth 100 ''agnt_t''
     (run_steps (api_key_step sample_core_auth)
       (set_api_key 9 (\<lambda>k. k\<lparr>k_revoked_at := Some 7\<rparr>) (sample_db\<lparr>api_keys := [sample_key]\<rparr>))
       [Issue (\<lparr>kd_id = 10, kd_token = ''t'', kd_now = 8\<rparr>, sample_user, ''again'', [])]) =
   Inl (AuthenticationError ''Invalid or revoked API key.'')"
proof -
  have "revoke_api_key 7 1 9 (sample_db\<lparr>api_keys := [sample_key]\<rparr>) =
      Inr (set_api_key 9 (\<lambda>k. k\<lparr>k_revoked_at := Some 7\<rparr>) (sample_db\<lparr>api_keys := [sample_key]\<rparr>))"
    by (simp add: revoke_api_key_def select_one_def one_or_none_def sample_key_def api_key_is_active_def)
  then show ?thesis
    by (rule revoked_key_stays_revoked [OF sample_key_wf, where k = sample_key])
      (simp_all add: get_row_Cons sample_key_def hash_key_def sample_crypto_def)
qed

text \<open>
  C25: minting an API key takes a developer's own session, and the new key works. When the
  \<open>POST /v1/api-keys\<close> route succeeds, the bearer token was not an API key and authenticates an
  active account whose role allows OPERATOR. The only change to the database is one new row of that
  account: the given label and scopes, the time, no expiry, and of the key its hash and its first
  12 characters, nothing else. Presenting the key from then on authenticates that same account with
  that key.
\<close>

theorem minted_key_roundtrip:
  assumes "db_wf d" and "api_key_law cr ca" and "api_key_prefix st = ''agnt''"
    and "create_key st cr ca kd creds label scopes d = Inr (d', out, raw)"
  shows "\<exists>token p. creds = Some token \<and> \<not> starts_with token ''agnt_'' \<and>
    authenticate_jwt st cr ca (kd_now kd) token d = Inr p \<and> role_can ca (p_role p) OPERATOR \<and>
    ko_keyPreview out = take 12 raw @ ''...'' \<and> ko_id out = kd_id kd \<and> db_wf d' \<and>
    d' = d\<lparr>api_keys := api_keys d @ [\<lparr>k_id = kd_id kd, k_user_id = p_user_id p, k_label = label,
      k_key_prefix = take 12 raw, k_key_hash = hash_key cr raw, k_scopes = scopes, k_project_id = None,
      k_created_at = kd_now kd, k_last_used_at = None, k_revoked_at = None, k_expires_at = None\<rparr>]\<rparr> \<and>
    get_current_principal st cr ca t (Some raw) d' =
      Inr (p\<lparr>p_auth_method := ApiKeyAuth, p_api_key_id := Some (ko_id out)\<rparr>)"
proof -
  obtain token p u k where token: "creds = Some token" "\<not> starts_with token ''agnt_''"
    and p: "authenticate_jwt st cr ca (kd_now kd) token d = Inr p" "role_can ca (p_role p) OPERATOR"
    and u: "get_user d (p_user_id p) = Some u"
    and c: "create_api_key ca kd u label scopes d = Inr (d', k, raw)" and out: "out = key_out k"
    using assms(3,4) by (auto simp: create_key_def require_role_def require_jwt_principal_def result_simps
        split: option.splits if_splits)
  note e = create_api_key_effect [OF c]
  have raw: "starts_with raw ''agnt_''" "k_key_hash k = hash_key cr raw"
    using e(8) assms(2) unfolding api_key_law_def hash_key_def by (metis (lifting) case_prodD)+
  obtain r where p': "u_is_active u" "role_enum ca u = Inr r"
    "p = \<lparr>p_user_id = u_id u, p_email = u_email u, p_role = r, p_auth_method = Jwt, p_api_key_id = None\<rparr>"
    using p(1) u get_user_Some by (auto simp: authenticate_jwt_iff)
  have wf: "db_wf d'" using e(1) assms(1) insert_api_key_wf by blast
  have row: "k = \<lparr>k_id = kd_id kd, k_user_id = p_user_id p, k_label = label,
      k_key_prefix = take 12 raw, k_key_hash = hash_key cr raw, k_scopes = scopes, k_project_id = None,
      k_created_at = kd_now kd, k_last_used_at = None, k_revoked_at = None, k_expires_at = None\<rparr>"
    using c raw(2) p'(3)
    by (auto simp: create_api_key_def mint_api_key_def Let_def result_simps split: prod.splits)
  have "get_row k_key_hash (hash_key cr raw) (api_keys d') = Some k"
    using raw(2) e(3) by (simp add: e(2) get_row_snoc_new)
  moreover have "get_user d' (k_user_id k) = Some u"
    using u e(4) get_user_Some [OF u] by (simp add: e(2) get_user_def)
  ultimately have "authenticate_api_key cr ca t raw d' =
      Inr (p\<lparr>p_auth_method := ApiKeyAuth, p_api_key_id := Some (k_id k)\<rparr>)"
    using e(5) p' by (simp add: authenticate_api_key_iff [OF wf])
  then show ?thesis
    using token p wf raw(1) e(7) assms(3) e(2) row
    by (auto simp: out key_out_def get_current_principal_def starts_with_def)
qed

lemma sample_session:
  "authenticate_jwt default_settings sample_crypto sample_core_auth 5
     sample_token sample_db =
   Inr \<lparr>p_user_id = 1, p_email = ''a'', p_role = OPERATOR, p_auth_method = Jwt, p_api_key_id = None\<rparr>"
  by (simp add: authenticate_jwt_def decode_access_token_def sample_crypto_def sample_decode_encode
      sample_token_def get_user_def sample_db_def get_row_Cons sample_user_def role_enum_def sample_core_auth_def)

lemma sample_token_shape: "sample_token \<noteq> []" "\<not> starts_with sample_token ''agnt_''"
  by (simp_all add: sample_token_def sample_encode_def starts_with_def)

lemma sample_values:
  "get_user sample_db 1 = Some sample_user" "role_can sample_core_auth OPERATOR OPERATOR"
  "api_key_prefix default_settings = ''agnt''"
  by (simp_all add: get_user_def sample_db_def get_row_Cons sample_user_def sample_core_auth_def
      default_settings_def)

theorem minted_key_roundtrip_witness:
  "\<exists>d' out raw. create_key default_settings sample_crypto sample_core_auth
      \<lparr>kd_id = 9, kd_token = ''t'', kd_now = 5\<rparr>
      (Some sample_token) ''ci'' [] sample_db = Inr (d', out, raw) \<and>
    is_ok (get_current_principal default_settings sample_crypto sample_core_auth 6 (Some raw) d')"
proof -
  have c: "create_key default_settings sample_crypto sample_core_auth
      \<lparr>kd_id = 9, kd_token = ''t'', kd_now = 5\<rparr>
      (Some sample_token) ''ci'' [] sample_db =
      Inr (sample_db\<lparr>api_keys := [sample_key]\<rparr>, key_out sample_key, ''agnt_t'')"
    by (simp add: create_key_def require_role_def require_jwt_principal_def sample_session
        sample_create_key sample_token_shape sample_values)
  show ?thesis
    using minted_key_roundtrip [OF sample_db_wf sample_api_key_law _ c, where t = 6] c
    by (auto simp: default_settings_def)
qed

text \<open>
  C24: a session token identifies the account that logged in, for its lifetime and no longer. The
  token returned by \<open>login\<close> authenticates that account (as long as it is active, and with the role
  it has at the time of use) until a second before its expiry, and is refused with 401 from the
  expiry on.
\<close>

theorem session_token_lifetime:
  assumes "jwt_law st cr" and "jwt_shape_law st cr" and "db_wf d"
    and "login st cr ca now jti email password d = Inr (token, expires_in, out)"
  shows "expires_in = jwt_expire_minutes st * 60 \<and>
    (\<exists>u \<in> set (users d). u_email u = email \<and> uo_id out = u_id u \<and>
      (\<forall>t d'. now \<le> t \<and> t + 1000000 \<le> now + expires_in * 1000000 \<longrightarrow>
         get_current_principal st cr ca t (Some token) d' =
           (case get_user d' (u_id u) of
              None \<Rightarrow> Inl (AuthenticationError ''Invalid or expired token.'')
            | Some v \<Rightarrow> if u_is_active v
                then bind_result (role_enum ca v) (\<lambda>r. Inr \<lparr>p_user_id = u_id v, p_email = u_email v,
                  p_role = r, p_auth_method = Jwt, p_api_key_id = None\<rparr>)
                else Inl (AuthenticationError ''Invalid or expired token.''))) \<and>
      (\<forall>t d'. now + expires_in * 1000000 \<le> t \<longrightarrow>
         get_current_principal st cr ca t (Some token) d' =
           Inl (AuthenticationError ''Invalid or expired token.'')))"
proof -
  obtain u where u: "authenticate_user cr email password d = Inr u"
    and t: "token_response st cr ca now jti u = Inr (token, expires_in, out)"
    using assms(4) by (auto simp: login_def result_simps)
  have mem: "u \<in> set (users d)" "u_email u = email"
    using u db_wfD(2) [OF assms(3)]
    by (auto simp: authenticate_user_def select_one_unique split: option.split_asm if_split_asm
        dest: get_row_Some)
  define c where "c = \<lparr>cl_sub = Some (uuid_str (u_id u)), cl_email = u_email u, cl_role = u_role u,
    cl_iss = ISSUER, cl_iat = now, cl_exp = now + jwt_expire_minutes st * 60 * 1000000,
    cl_jti = uuid_str jti\<rparr>"
  have tok: "token = jwt_encode cr c (jwt_secret st) (jwt_algorithm st)"
    "expires_in = jwt_expire_minutes st * 60" "uo_id out = u_id u"
    using t by (auto simp: token_response_def create_access_token_def c_def user_out_def Let_def result_simps)
  have shape: "get_current_principal st cr ca t (Some token) d' = authenticate_jwt st cr ca t token d'" for t d'
    using assms(2) by (simp add: get_current_principal_def tok(1) jwt_shape_law_def)
  have live: "\<exists>c'. decode_access_token st cr t token = Inr c' \<and> cl_sub c' = Some (uuid_str (u_id u))"
    if "now \<le> t" "t + 1000000 \<le> now + expires_in * 1000000" for t
    using assms(1) [unfolded jwt_law_def Let_def, rule_format, of c ISSUER t]
      that by (auto simp: decode_access_token_def tok(1,2) c_def)
  have dead: "decode_access_token st cr t token = Inl (AuthenticationError ''Invalid or expired token.'')"
    if "now + expires_in * 1000000 \<le> t" for t
    using assms(1) [unfolded jwt_law_def Let_def, rule_format, of c ISSUER t]
      that by (auto simp: decode_access_token_def tok(1,2) c_def)
  show ?thesis
    using mem tok(2,3) live dead
    by (intro conjI bexI [where x = u]) (fastforce simp: shape authenticate_jwt_def split: option.split)+
qed

theorem session_token_lifetime_witness:
  "\<exists>token out. login default_settings sample_crypto sample_core_auth 5 3 ''a'' ''pw'' sample_db =
      Inr (token, 3600, out) \<and>
    is_ok (get_current_principal default_settings sample_crypto sample_core_auth 3599000000 (Some token) sample_db) \<and>
    \<not> is_ok (get_current_principal default_settings sample_crypto sample_core_auth 3600000005 (Some token) sample_db)"
proof -
  obtain token out where l: "login default_settings sample_crypto sample_core_auth 5 3 ''a'' ''pw'' sample_db =
      Inr (token, 3600, out)"
    by (simp add: login_def authenticate_user_def select_one_def one_or_none_def sample_db_def
        sample_user_def verify_password_def sample_crypto_def token_response_def create_access_token_def
        user_out_def role_enum_def sample_core_auth_def role_to_str_def ROLE_TO_STR_def
        default_settings_def Let_def)
  have "\<exists>u \<in> set (users sample_db). P u \<longleftrightarrow> P sample_user" for P
    by (simp add: sample_db_def)
  then show ?thesis
    using session_token_lifetime [OF sample_jwt_law sample_jwt_shape sample_db_wf l] l
    by (auto simp: sample_db_def get_user_def get_row_Cons sample_user_def role_enum_def
        sample_core_auth_def)
qed

text \<open>
  An access key opens exactly its own agent, from creation to deletion. The raw key returned by
  \<open>create_access_key\<close> is valid for that agent and for no other; deleting it, or deleting the agent,
  makes it invalid; and neither touches the validity of any other key.
\<close>

theorem access_key_lifecycle:
  assumes "db_wf d" and "create_access_key cr kd ag label d = Inr (d1, k, raw)"
  shows "db_wf d1 \<and> (\<forall>aid. is_valid_access_key cr aid raw d1 \<longleftrightarrow> aid = a_id ag) \<and>
    (\<exists>d2. delete_access_key (a_id ag) (ak_id k) d1 = Inr d2 \<and>
       (\<forall>aid raw'. is_valid_access_key cr aid raw' d2 \<longleftrightarrow>
          is_valid_access_key cr aid raw' d1 \<and> hash_key cr raw' \<noteq> hash_key cr raw)) \<and>
    (\<forall>aid raw'. is_valid_access_key cr aid raw' (remove_agent_row (a_id ag) d1) \<longleftrightarrow>
       is_valid_access_key cr aid raw' d1 \<and> aid \<noteq> a_id ag)"
proof -
  note e = create_access_key_effect [OF assms(2)]
  have wf1: "db_wf d1" using e(1) assms(1) insert_access_key_wf by blast
  have hold: "access_key_holder d1 (hash_key cr raw) = Some (a_id ag)"
    using xkeys.issued_is_accepted [OF assms(1), of cr "(kd, ag, label)"] assms(2) e(4,6)
    by (simp add: issue_access_key_def)
  have row: "k \<in> set (access_keys d1)" by (simp add: e(2))
  have own: "ak_id k' = ak_id k \<longleftrightarrow> k' = k" if "k' \<in> set (access_keys d1)" for k'
    using that row get_row_unique [OF db_wfD(9) [OF wf1]] by (metis option.inject)
  let ?d2 = "remove_access_key_row (ak_id k) d1" and ?d3 = "remove_agent_row (a_id ag) d1"
  have "get_row ak_id (ak_id k) (access_keys d1) = Some k"
    using row get_row_unique [OF db_wfD(9) [OF wf1]] by blast
  then have del: "delete_access_key (a_id ag) (ak_id k) d1 = Inr ?d2"
    using e(4) by (simp add: delete_access_key_def)
  have "{x \<in> set (access_keys d1). ak_id x = ak_id k} = {k}"
    using own row by auto
  then have "ended_access_keys (DeleteKey (a_id ag) (ak_id k)) d1 = {hash_key cr raw}"
    using e(6) by (simp add: ended_access_keys_def)
  then have h2: "access_key_holder ?d2 = access_key_holder d1 |` (- {hash_key cr raw})" and wf2: "db_wf ?d2"
    using xkeys.withdraw_law [OF wf1, of "DeleteKey (a_id ag) (ak_id k)" ?d2] del
    by (simp_all add: withdraw_access_key_def)
  have wf3: "db_wf ?d3" using wf1 by (rule remove_agent_row_wf)
  have h3: "access_key_holder ?d3 h = Some aid \<longleftrightarrow> access_key_holder d1 h = Some aid \<and> aid \<noteq> a_id ag" for h aid
    using db_wfD(10) [OF wf1]
    by (auto simp: access_key_holder_def remove_agent_row_def get_row_filter split: option.splits)
  show ?thesis
    using hold h2 h3 del e(5)
    by (auto simp: is_valid_access_key_iff [OF wf1] is_valid_access_key_iff [OF wf2]
        is_valid_access_key_iff [OF wf3] wf1 restrict_map_def)
qed

theorem access_key_lifecycle_witness:
  "\<exists>d1 k. create_access_key sample_crypto \<lparr>kd_id = 4, kd_token = ''t'', kd_now = 5\<rparr> sample_agent ''x'' sample_db =
      Inr (d1, k, ''agk_t'') \<and> is_valid_access_key sample_crypto ''agent-1'' ''agk_t'' d1 \<and>
    \<not> is_valid_access_key sample_crypto ''agent-1'' ''agk_t'' (remove_agent_row ''agent-1'' d1)"
proof -
  obtain d1 k where c: "create_access_key sample_crypto \<lparr>kd_id = 4, kd_token = ''t'', kd_now = 5\<rparr>
      sample_agent ''x'' sample_db = Inr (d1, k, ''agk_t'')"
    by (simp add: create_access_key_def KEY_PREFIX_def insert_access_key_def sample_db_def empty_db_def Let_def)
  show ?thesis
    using access_key_lifecycle [OF sample_db_wf c] c by (auto simp: sample_agent_def)
qed

end
