(* ===== verification/Quota.thy ===== *)
theory Quota
  imports Credentials
begin

text \<open>
  Per-account quotas (\<open>services/quota_service.py\<close>). The checks read the database and either return
  or raise; they never write. CPU shares are rationals and the code's \<open>round(x, 3)\<close> calls are kept.
\<close>

section \<open>Usage\<close>

definition ACTIVE_STATUSES :: "string list" where
  "ACTIVE_STATUSES = [''running'', ''scaling'', ''starting'']"

record usage =
  us_agents :: int
  us_replicas :: int
  us_vcpu :: rat
  us_memory_mb :: int

definition quota_user :: "db \<Rightarrow> uuid \<Rightarrow> user result" where
  "quota_user d user_id = (case get_user d user_id of
     None \<Rightarrow> Inl (AuthenticationError ''Invalid or expired token.'') | Some u \<Rightarrow> Inr u)"

definition is_exempt :: "core_auth \<Rightarrow> user \<Rightarrow> bool result" where
  "is_exempt ca u = bind_result (role_enum ca u) (\<lambda>r. Inr (role_can ca r ADMIN))"

definition active_agents :: "db \<Rightarrow> uuid \<Rightarrow> string option \<Rightarrow> agent list" where
  "active_agents d user_id exclude_agent_id =
     filter (\<lambda>a. a_user_id a = user_id \<and> a_status a \<in> set ACTIVE_STATUSES \<and>
       (case exclude_agent_id of None \<Rightarrow> True | Some x \<Rightarrow> a_id a \<noteq> x)) (agents d)"

definition current_usage :: "db \<Rightarrow> uuid \<Rightarrow> string option \<Rightarrow> usage" where
  "current_usage d user_id exclude_agent_id =
     (let active = active_agents d user_id exclude_agent_id in
      \<lparr>us_agents = int (length (filter (\<lambda>a. a_user_id a = user_id) (agents d))),
       us_replicas = sum_list (map a_replicas active),
       us_vcpu = py_round 3 (sum_list (map (\<lambda>a. of_int (a_replicas a) * a_cpu a) active)),
       us_memory_mb = sum_list (map (\<lambda>a. a_replicas a * a_memory_mb a) active)\<rparr>)"

definition usage_report :: "db \<Rightarrow> uuid \<Rightarrow> (user \<times> plan_limits \<times> usage) result" where
  "usage_report d user_id = bind_result (quota_user d user_id)
     (\<lambda>u. Inr (u, limits_for (u_plan u), current_usage d user_id None))"

section \<open>Checks\<close>

definition ensure_can_create_agent :: "core_auth \<Rightarrow> db \<Rightarrow> uuid \<Rightarrow> unit result" where
  "ensure_can_create_agent ca d user_id =
     bind_result (quota_user d user_id) (\<lambda>u. bind_result (is_exempt ca u) (\<lambda>exempt.
       if exempt then Inr ()
       else
         let limits = limits_for (u_plan u); us = current_usage d user_id None in
         if us_agents us + 1 > max_agents limits
         then Inl (QuotaExceededError ''agents'' (u_plan u) (of_int (max_agents limits))
                (Some (of_int (us_agents us))) 1)
         else Inr ()))"

text \<open>The loop over \<open>(resource, current, requested, limit)\<close>: the first one over its limit raises.\<close>

fun check_all :: "string \<Rightarrow> (string \<times> rat \<times> rat \<times> rat) list \<Rightarrow> unit result" where
  "check_all plan [] = Inr ()"
| "check_all plan ((resource, current, requested, limit) # rest) =
     (if py_round 3 (current + requested) > limit
      then Inl (QuotaExceededError resource plan limit (Some current) requested)
      else check_all plan rest)"

definition ensure_resources ::
  "core_auth \<Rightarrow> db \<Rightarrow> uuid \<Rightarrow> string option \<Rightarrow> int \<Rightarrow> rat \<Rightarrow> int \<Rightarrow> unit result" where
  "ensure_resources ca d user_id agent_id replicas cpu memory_mb =
     bind_result (quota_user d user_id) (\<lambda>u. bind_result (is_exempt ca u) (\<lambda>exempt.
       if exempt then Inr ()
       else
         let limits = limits_for (u_plan u) in
         if cpu > max_replica_cpu limits
         then Inl (QuotaExceededError ''cpu_per_replica'' (u_plan u) (max_replica_cpu limits) None cpu)
         else if memory_mb > max_replica_memory_mb limits
         then Inl (QuotaExceededError ''memory_mb_per_replica'' (u_plan u)
                (of_int (max_replica_memory_mb limits)) None (of_int memory_mb))
         else
           let us = current_usage d user_id agent_id in
           check_all (u_plan u)
             [(''replicas'', of_int (us_replicas us), of_int replicas, of_int (max_replicas limits)),
              (''vcpu'', us_vcpu us, py_round 3 (of_int replicas * cpu), max_vcpu limits),
              (''memory_mb'', of_int (us_memory_mb us), of_int (replicas * memory_mb),
               of_int (max_memory_mb limits))]))"

definition has_headroom_for_replica :: "core_auth \<Rightarrow> db \<Rightarrow> agent \<Rightarrow> bool result" where
  "has_headroom_for_replica ca d ag =
     (case ensure_resources ca d (a_user_id ag) (Some (a_id ag)) (a_replicas ag + 1) (a_cpu ag)
         (a_memory_mb ag) of
        Inr _ \<Rightarrow> Inr True
      | Inl (QuotaExceededError _ _ _ _ _) \<Rightarrow> Inr False
      | Inl e \<Rightarrow> Inl e)"

text \<open>An agent running with the given shape, as deploying and scaling leave it.\<close>

definition run_with :: "int \<Rightarrow> rat \<Rightarrow> int \<Rightarrow> agent \<Rightarrow> agent" where
  "run_with replicas cpu memory_mb a =
     a\<lparr>a_status := ''running'', a_replicas := replicas, a_cpu := cpu, a_memory_mb := memory_mb\<rparr>"

text \<open>A plan that allows at least as much of everything.\<close>

definition plan_le :: "plan_limits \<Rightarrow> plan_limits \<Rightarrow> bool" where
  "plan_le l m \<longleftrightarrow> max_agents l \<le> max_agents m \<and> max_replicas l \<le> max_replicas m \<and>
     max_vcpu l \<le> max_vcpu m \<and> max_memory_mb l \<le> max_memory_mb m \<and>
     max_replica_cpu l \<le> max_replica_cpu m \<and> max_replica_memory_mb l \<le> max_replica_memory_mb m"

section \<open>Lemmas\<close>

lemma py_round_sum [simp]: "py_round n (of_int i + of_int j) = of_int i + of_int j"
  using py_round_of_int [of n "i + j"] by simp

lemma py_round_exact_sum: "py_round n (py_round n x + py_round n y) = py_round n x + py_round n y"
  by (rule py_round_exact [where k = "round_half_even (x * 10 ^ n) + round_half_even (y * 10 ^ n)"])
    (simp add: py_round_def field_simps)

lemma round_half_even_add: "round_half_even (x + y) \<le> round_half_even x + round_half_even y + 1"
proof -
  have "of_int (round_half_even (x + y)) \<le> (of_int (round_half_even x + round_half_even y) + 3/2 :: rat)"
    using round_half_even_bounds [of "x + y"] round_half_even_bounds [of x] round_half_even_bounds [of y]
    unfolding of_int_add by linarith
  then have "of_int (round_half_even (x + y)) < (of_int (round_half_even x + round_half_even y + 2) :: rat)"
    by simp
  then show ?thesis by linarith
qed

lemma py_round_add: "py_round n (x + y) \<le> py_round n x + py_round n y + 1 / 10 ^ n"
proof -
  have "of_int (round_half_even (x * 10 ^ n + y * 10 ^ n)) \<le>
      (of_int (round_half_even (x * 10 ^ n) + round_half_even (y * 10 ^ n) + 1) :: rat)"
    using round_half_even_add by (subst of_int_le_iff)
  then show ?thesis
    by (simp add: py_round_def field_simps)
qed

lemma ensure_resources_iff:
  fixes agent_id :: "string option"
  assumes "get_user d user_id = Some u" and "is_exempt ca u = Inr False"
  defines "l \<equiv> limits_for (u_plan u)" and "us \<equiv> current_usage d user_id agent_id"
  shows "ensure_resources ca d user_id agent_id replicas cpu memory_mb = Inr () \<longleftrightarrow>
    cpu \<le> max_replica_cpu l \<and> memory_mb \<le> max_replica_memory_mb l \<and>
    us_replicas us + replicas \<le> max_replicas l \<and>
    us_vcpu us + py_round 3 (of_int replicas * cpu) \<le> max_vcpu l \<and>
    us_memory_mb us + replicas * memory_mb \<le> max_memory_mb l"
proof -
  have "py_round 3 (us_vcpu us + py_round 3 (of_int replicas * cpu)) =
      us_vcpu us + py_round 3 (of_int replicas * cpu)"
    unfolding us_def current_usage_def Let_def by (simp add: py_round_exact_sum)
  moreover have "(of_int a + of_int b \<le> (of_int c :: rat)) = (a + b \<le> c)" for a b c
    by (metis of_int_add of_int_le_iff)
  ultimately show ?thesis
    using assms(1,2) by (auto simp: ensure_resources_def quota_user_def Let_def not_less
        simp del: of_int_mult simp flip: l_def us_def)
qed

lemma sum_list_split_row:
  assumes "unique_on a_id as" and "get_row a_id aid as = Some a" and "q (g a)"
    and "\<And>b. a_id (g b) = a_id b"
  shows "sum_list (map c (filter q (update_row a_id aid g as))) =
    sum_list (map c (filter (\<lambda>b. q b \<and> a_id b \<noteq> aid) as)) + (c (g a) :: 'n::comm_monoid_add)"
  using assms(1,2)
proof (induction as)
  case (Cons b as)
  show ?case
  proof (cases "a_id b = aid")
    case True
    then have new: "aid \<notin> a_id ` set as" using Cons.prems(1) by (auto simp: unique_on_def)
    have "filter q as = filter (\<lambda>b. q b \<and> a_id b \<noteq> aid) as"
      using new by (intro filter_cong) auto
    then show ?thesis
      using True Cons.prems(2) assms(3) update_row_absent [OF new, of g]
      by (simp add: get_row_Cons update_row_def add.commute)
  next
    case False
    then show ?thesis
      using Cons by (simp add: get_row_Cons unique_on_def update_row_def ac_simps)
  qed
qed simp

lemma usage_run_with:
  fixes r m :: int and c :: rat
  assumes "db_wf d" and "get_row a_id aid (agents d) = Some a" and "a_user_id a = user_id"
  defines "us \<equiv> current_usage d user_id (Some aid)"
    and "us' \<equiv> current_usage (set_agent aid (run_with r c m) d) user_id None"
  shows "us_replicas us' = us_replicas us + r" and "us_memory_mb us' = us_memory_mb us + r * m"
    and "us_vcpu us' \<le> us_vcpu us + py_round 3 (of_int r * c) + 1/1000"
proof -
  let ?q = "\<lambda>b. a_user_id b = user_id \<and> a_status b \<in> set ACTIVE_STATUSES"
  have act: "active_agents d user_id (Some aid) = filter (\<lambda>b. ?q b \<and> a_id b \<noteq> aid) (agents d)"
    by (simp add: active_agents_def)
  have act': "sum_list (map f (active_agents (set_agent aid (run_with r c m) d) user_id None)) =
      sum_list (map f (active_agents d user_id (Some aid))) + f (run_with r c m a)"
    for f :: "agent \<Rightarrow> 'n::comm_monoid_add"
    unfolding act using sum_list_split_row [OF db_wfD(7) [OF assms(1)] assms(2), of ?q "run_with r c m" f]
      assms(3) by (simp add: active_agents_def run_with_def ACTIVE_STATUSES_def)
  show "us_replicas us' = us_replicas us + r" and "us_memory_mb us' = us_memory_mb us + r * m"
    by (simp_all add: us_def us'_def current_usage_def Let_def act' run_with_def)
  let ?x = "sum_list (map (\<lambda>a. of_int (a_replicas a) * a_cpu a) (active_agents d user_id (Some aid)))"
  have "us_vcpu us' = py_round 3 (?x + of_int r * c)" and "us_vcpu us = py_round 3 ?x"
    by (simp_all add: us_def us'_def current_usage_def Let_def act' run_with_def)
  then show "us_vcpu us' \<le> us_vcpu us + py_round 3 (of_int r * c) + 1/1000"
    using py_round_add [of 3 ?x "of_int r * c"] by simp
qed

section \<open>Properties\<close>

text \<open>
  C2: what passes the quota check runs within the plan. When the check for running an agent with a new
  shape passes, and nothing else changes before the agent runs (two requests at once can overshoot,
  as \<open>quota_service.py\<close> says), for an account that is not exempt, then with the agent running in that shape the whole
  account's replicas and memory are within the plan exactly, its vCPUs within the plan up to one
  rounding step of 0.001, and the shape of one replica is within the per-replica limits. The
  agent's previous shape does not count twice.
\<close>

theorem quota_safe:
  assumes "db_wf d" and "get_user d user_id = Some u" and "is_exempt ca u = Inr False"
    and "get_row a_id aid (agents d) = Some a" and "a_user_id a = user_id"
    and "ensure_resources ca d user_id (Some aid) r c m = Inr ()"
  defines "us' \<equiv> current_usage (set_agent aid (run_with r c m) d) user_id None"
    and "l \<equiv> limits_for (u_plan u)"
  shows "us_replicas us' \<le> max_replicas l \<and> us_memory_mb us' \<le> max_memory_mb l \<and>
    us_vcpu us' \<le> max_vcpu l + 1/1000 \<and> c \<le> max_replica_cpu l \<and> m \<le> max_replica_memory_mb l"
  using usage_run_with [OF assms(1,4,5), of r c m] assms(6) ensure_resources_iff [OF assms(2,3)]
  by (simp add: us'_def l_def)

theorem quota_safe_witness:
  "us_replicas (current_usage (set_agent ''agent-1'' (run_with 2 (1/2) 512) sample_db) 1 None) \<le> 3"
proof -
  have e: "is_exempt sample_core_auth sample_user = Inr False"
    by (simp add: is_exempt_def role_enum_def sample_core_auth_def sample_user_def)
  have r: "ensure_resources sample_core_auth sample_db 1 (Some ''agent-1'') 2 (1/2) 512 = Inr ()"
    unfolding ensure_resources_iff [OF sample_values(1) e]
    by (simp add: current_usage_def active_agents_def sample_db_def sample_agent_def Let_def
        sample_user_def free_limits_def py_round_of_int [of 3 1, simplified])
  have a: "get_row a_id ''agent-1'' (agents sample_db) = Some sample_agent" "a_user_id sample_agent = 1"
    by (simp_all add: sample_db_def get_row_Cons sample_agent_def)
  show ?thesis
    using quota_safe [OF sample_db_wf sample_values(1) e a r]
    by (simp add: sample_user_def free_limits_def)
qed

text \<open>
  Asking for less, or for the same on a larger plan, is never refused. If a shape passes, so
  does any shape with no more replicas, CPU and memory, also after the account's plan changes to
  one that allows at least as much (as from free to pro).
\<close>

theorem quota_monotone:
  assumes "get_user d user_id = Some u" and "is_exempt ca u = Inr False"
    and "ensure_resources ca d user_id agent_id r c m = Inr ()"
    and "0 \<le> r'" "r' \<le> r" "0 \<le> c'" "c' \<le> c" "0 \<le> m'" "m' \<le> m"
    and "plan_le (limits_for (u_plan u)) (limits_for plan')"
  shows "ensure_resources ca (set_user user_id (\<lambda>u. u\<lparr>u_plan := plan'\<rparr>) d) user_id agent_id r' c' m' = Inr () \<and>
    plan_le (limits_for ''free'') (limits_for ''pro'')"
proof
  let ?d = "set_user user_id (\<lambda>u. u\<lparr>u_plan := plan'\<rparr>) d"
  have u: "get_user ?d user_id = Some (u\<lparr>u_plan := plan'\<rparr>)" using assms(1) by simp
  have e: "is_exempt ca (u\<lparr>u_plan := plan'\<rparr>) = Inr False"
    using assms(2) by (simp add: is_exempt_def role_enum_def)
  have us: "current_usage ?d user_id agent_id = current_usage d user_id agent_id"
    by (simp add: current_usage_def active_agents_def)
  have "of_int r' * c' \<le> of_int r * c" "r' * m' \<le> r * m"
    using assms(4-9) by (auto intro!: mult_mono)
  then have "py_round 3 (of_int r' * c') \<le> py_round 3 (of_int r * c)" "r' * m' \<le> r * m"
    by (simp_all add: py_round_mono)
  then show "ensure_resources ca ?d user_id agent_id r' c' m' = Inr ()"
    using assms(3,5,7,9,10) unfolding ensure_resources_iff [OF u e] ensure_resources_iff [OF assms(1,2)] us
    by (auto simp: plan_le_def)
  show "plan_le (limits_for ''free'') (limits_for ''pro'')"
    by (simp add: plan_le_def free_limits_def pro_limits_def)
qed

theorem quota_monotone_witness:
  "ensure_resources sample_core_auth (set_user 1 (\<lambda>u. u\<lparr>u_plan := ''pro''\<rparr>) sample_db) 1 None 1 0 128 = Inr ()"
proof -
  have e: "is_exempt sample_core_auth sample_user = Inr False"
    by (simp add: is_exempt_def role_enum_def sample_core_auth_def sample_user_def)
  have p: "plan_le (limits_for (u_plan sample_user)) (limits_for ''pro'')"
    by (simp add: sample_user_def plan_le_def free_limits_def pro_limits_def)
  have a: "active_agents sample_db 1 None = [sample_agent]"
    by (simp add: active_agents_def sample_db_def sample_agent_def ACTIVE_STATUSES_def)
  have r: "py_round 3 (1/2) = 1/2" by code_simp
  have "ensure_resources sample_core_auth sample_db 1 None 2 0 256 = Inr ()"
    unfolding ensure_resources_iff [OF sample_values(1) e]
    by (simp add: current_usage_def a Let_def r sample_agent_def sample_user_def free_limits_def)
  from quota_monotone [OF sample_values(1) e this, where r' = 1 and c' = 0 and m' = 128, OF _ _ _ _ _ _ p]
  show ?thesis by simp
qed

text \<open>
  A refusal is never spurious. Every quota error names the account's plan and the limit it has
  for that resource, and either a single replica asks for more than the limit, or what the account
  already uses plus what is requested is more than the limit. Nothing but a quota error, a missing
  account or an unreadable role stops the check.
\<close>

theorem quota_refusals_justified:
  assumes "get_user d user_id = Some u" and "role_enum ca u = Inr role"
    and "ensure_resources ca d user_id agent_id r c m = Inl e"
  shows "\<exists>resource limit current requested.
    e = QuotaExceededError resource (u_plan u) limit current requested \<and>
    (case current of None \<Rightarrow> requested | Some x \<Rightarrow> x + requested) > limit \<and>
    (resource, limit) \<in> set
      [(''cpu_per_replica'', max_replica_cpu (limits_for (u_plan u))),
       (''memory_mb_per_replica'', of_int (max_replica_memory_mb (limits_for (u_plan u)))),
       (''replicas'', of_int (max_replicas (limits_for (u_plan u)))),
       (''vcpu'', max_vcpu (limits_for (u_plan u))),
       (''memory_mb'', of_int (max_memory_mb (limits_for (u_plan u))))] \<and>
    \<not> role_can ca role ADMIN"
proof -
  have v: "py_round 3 (us_vcpu (current_usage d user_id agent_id) + py_round 3 x) =
      us_vcpu (current_usage d user_id agent_id) + py_round 3 x" for x
    unfolding current_usage_def Let_def by (simp add: py_round_exact_sum)
  show ?thesis
    using assms by (auto simp: ensure_resources_def quota_user_def is_exempt_def Let_def v
        simp del: of_int_mult split: if_split_asm)
qed

theorem quota_refusals_justified_witness:
  "ensure_resources sample_core_auth sample_db 1 None 3 (1/2) 2048 =
     Inl (QuotaExceededError ''memory_mb_per_replica'' ''free'' 1024 None 2048) \<and> (2048 :: rat) > 1024"
proof -
  have r: "role_enum sample_core_auth sample_user = Inr OPERATOR"
    by (simp add: role_enum_def sample_core_auth_def sample_user_def)
  have e: "ensure_resources sample_core_auth sample_db 1 None 3 (1/2) 2048 =
     Inl (QuotaExceededError ''memory_mb_per_replica'' ''free'' 1024 None 2048)"
    by (simp add: ensure_resources_def quota_user_def sample_values is_exempt_def r Let_def)
      (simp add: sample_core_auth_def sample_user_def free_limits_def)
  show ?thesis using quota_refusals_justified [OF sample_values(1) r e] e by simp
qed

end
