(* ===== verification/Metering.thy ===== *)
theory Metering
  imports Quota
begin

text \<open>
  Usage metering (\<open>services/metering_service.py\<close>): hour buckets of reserved resources, and requests
  counted in memory until the scheduler writes them out. A flush is two atomic steps, because the
  coroutine awaits the database in between and requests may be counted meanwhile: \<open>take_batch\<close>
  copies and clears the pending counts, \<open>finish_flush\<close> commits the batch or, on an exception, puts it
  back unless the rollback raises too.
\<close>

section \<open>Calendar\<close>

definition hour_start :: "timestamp \<Rightarrow> timestamp" where
  "hour_start t = t - t mod usecs_per_hour"

text \<open>
  The Gregorian calendar from 1970 on, as \<open>datetime\<close> has it: a day number is split into a year and
  the day in it, and that into a month and the day in it (both counted from 0).
\<close>

definition leap_year :: "nat \<Rightarrow> bool" where
  "leap_year y \<longleftrightarrow> y mod 4 = 0 \<and> (y mod 100 \<noteq> 0 \<or> y mod 400 = 0)"

definition year_length :: "nat \<Rightarrow> nat" where
  "year_length y = (if leap_year y then 366 else 365)"

definition month_lengths :: "nat \<Rightarrow> nat list" where
  "month_lengths y = [31, if leap_year y then 29 else 28, 31, 30, 31, 30, 31, 31, 30, 31, 30, 31]"

function split_year :: "nat \<Rightarrow> nat \<Rightarrow> nat \<times> nat" where
  "split_year y n = (if n < year_length y then (y, n) else split_year (y + 1) (n - year_length y))"
  by pat_completeness auto
termination
  by (relation "measure snd") (auto simp: year_length_def)

declare split_year.simps [simp del]

fun split_month :: "nat list \<Rightarrow> nat \<Rightarrow> nat \<times> nat" where
  "split_month [] n = (0, n)"
| "split_month (l # ls) n = (if n < l then (0, n) else (let (m, k) = split_month ls (n - l) in (m + 1, k)))"

definition civil :: "nat \<Rightarrow> nat \<times> nat \<times> nat" where
  "civil day = (let (y, n) = split_year 1970 day; (m, k) = split_month (month_lengths y) n in (y, m, k))"

text \<open>\<open>now.replace(day=1, hour=0, minute=0, second=0, microsecond=0)\<close>, from 1970 on.\<close>

definition month_start :: "timestamp \<Rightarrow> timestamp" where
  "month_start now =
     (let day = now div usecs_per_day; (y, m, k) = civil (nat day) in (day - int k) * usecs_per_day)"

section \<open>Recorded usage\<close>

text \<open>
  \<open>INSERT ... ON CONFLICT ON CONSTRAINT uq_usage_hours_agent_hour DO UPDATE\<close>: the row of the same
  agent and hour is added to, or the row is inserted, for which the account must exist.
\<close>

definition add_usage :: "usage_hour \<Rightarrow> usage_hour \<Rightarrow> usage_hour" where
  "add_usage new old = old\<lparr>
     uh_replica_seconds := uh_replica_seconds old + uh_replica_seconds new,
     uh_vcpu_seconds := uh_vcpu_seconds old + uh_vcpu_seconds new,
     uh_memory_mb_seconds := uh_memory_mb_seconds old + uh_memory_mb_seconds new,
     uh_requests := uh_requests old + uh_requests new\<rparr>"

definition bucket :: "usage_hour \<Rightarrow> string \<times> timestamp" where
  "bucket h = (uh_agent_id h, uh_hour_start h)"

definition upsert_usage :: "usage_hour \<Rightarrow> db \<Rightarrow> db result" where
  "upsert_usage h d =
     (if bucket h \<in> bucket ` set (usage_hours d)
      then Inr (d\<lparr>usage_hours := update_row bucket (bucket h) (add_usage h) (usage_hours d)\<rparr>)
      else if uh_user_id h \<notin> u_id ` set (users d) then Inl (Unhandled IntegrityError)
      else Inr (d\<lparr>usage_hours := usage_hours d @ [h]\<rparr>))"

definition record_usage :: "agent \<Rightarrow> int \<Rightarrow> rat \<Rightarrow> timestamp \<Rightarrow> db \<Rightarrow> db result" where
  "record_usage ag replicas secs t d =
     (if replicas \<le> 0 \<or> secs \<le> 0 then Inr d
      else upsert_usage \<lparr>uh_user_id = a_user_id ag, uh_agent_id = a_id ag, uh_hour_start = hour_start t,
        uh_replica_seconds = of_int replicas * secs,
        uh_vcpu_seconds = of_int replicas * a_cpu ag * secs,
        uh_memory_mb_seconds = of_int (replicas * a_memory_mb ag) * secs,
        uh_requests = 0\<rparr> d)"

section \<open>Counted requests\<close>

text \<open>The \<open>Counter\<close> from \<open>(agent_id, user_id, hour_start)\<close> to requests not yet written.\<close>

type_synonym request_key = "string \<times> uuid \<times> timestamp"
type_synonym counter = "(request_key \<times> int) list"

fun counter_add :: "request_key \<Rightarrow> int \<Rightarrow> counter \<Rightarrow> counter" where
  "counter_add k n [] = [(k, n)]"
| "counter_add k n ((j, m) # c) = (if j = k then (j, m + n) # c else (j, m) # counter_add k n c)"

definition count_request :: "agent \<Rightarrow> timestamp \<Rightarrow> counter \<Rightarrow> counter" where
  "count_request ag t c = counter_add (a_id ag, a_user_id ag, hour_start t) 1 c"

definition pending_requests :: "counter \<Rightarrow> int" where
  "pending_requests c = sum_list (map snd c)"

definition discard_pending_requests :: "counter \<Rightarrow> counter" where
  "discard_pending_requests c = []"

text \<open>\<open>Counter.update(batch)\<close> adds the counts of the batch.\<close>

fun counter_update :: "counter \<Rightarrow> counter \<Rightarrow> counter" where
  "counter_update c [] = c"
| "counter_update c ((k, n) # b) = counter_update (counter_add k n c) b"

text \<open>The loop of \<open>flush_requests\<close> over the batch: the database and the number written.\<close>

fun write_batch :: "uuid set \<Rightarrow> counter \<Rightarrow> db \<times> int \<Rightarrow> (db \<times> int) result" where
  "write_batch existing [] dw = Inr dw"
| "write_batch existing (((agent_id, user_id, hour), n) # b) (d, written) =
     (if user_id \<notin> existing then write_batch existing b (d, written)
      else bind_result
        (upsert_usage \<lparr>uh_user_id = user_id, uh_agent_id = agent_id, uh_hour_start = hour,
           uh_replica_seconds = 0, uh_vcpu_seconds = 0, uh_memory_mb_seconds = 0, uh_requests = n\<rparr> d)
        (\<lambda>d'. write_batch existing b (d', written + n)))"

definition take_batch :: "counter \<Rightarrow> counter \<times> counter" where
  "take_batch pending = (pending, [])"

text \<open>
  What can go wrong with the database in the rest of \<open>flush_requests\<close>: a statement or the commit raises
  and the transaction is rolled back; or the server has carried out the commit but the connection is
  lost before it says so; or the rollback raises as well, before the handler has put the batch back.
\<close>

datatype flush_fault =
    Raised py_exception
  | CommitApplied py_exception
  | RollbackRaised py_exception

definition finish_flush ::
  "flush_fault option \<Rightarrow> counter \<Rightarrow> db \<Rightarrow> counter \<Rightarrow> db \<times> counter \<times> int result" where
  "finish_flush fault batch d pending =
     (if batch = [] then (d, pending, Inr 0)
      else
        let existing = u_id ` set (filter (\<lambda>u. u_id u \<in> (fst o snd o fst) ` set batch) (users d)) in
        case write_batch existing batch (d, 0) of
          Inl e \<Rightarrow>
            (case fault of
               Some (RollbackRaised x) \<Rightarrow> (d, pending, Inl (Unhandled x))
             | _ \<Rightarrow> (d, counter_update pending batch, Inl e))
        | Inr (d', written) \<Rightarrow>
            (case fault of
               None \<Rightarrow> (d', pending, Inr written)
             | Some (Raised x) \<Rightarrow> (d, counter_update pending batch, Inl (Unhandled x))
             | Some (CommitApplied x) \<Rightarrow> (d', counter_update pending batch, Inl (Unhandled x))
             | Some (RollbackRaised x) \<Rightarrow> (d, pending, Inl (Unhandled x))))"

definition flush_requests :: "flush_fault option \<Rightarrow> db \<Rightarrow> counter \<Rightarrow> db \<times> counter \<times> int result" where
  "flush_requests fault d pending =
     (let (batch, pending') = take_batch pending in finish_flush fault batch d pending')"

section \<open>Totals of a period\<close>

record PeriodTotals =
  pt_start :: timestamp
  pt_replica_hours :: rat
  pt_vcpu_hours :: rat
  pt_memory_gb_hours :: rat
  pt_requests :: int

definition period_rows :: "db \<Rightarrow> uuid \<Rightarrow> timestamp \<Rightarrow> timestamp option \<Rightarrow> usage_hour list" where
  "period_rows d user_id start end_at =
     filter (\<lambda>h. uh_user_id h = user_id \<and> start \<le> uh_hour_start h \<and>
       (case end_at of None \<Rightarrow> True | Some e \<Rightarrow> uh_hour_start h < e)) (usage_hours d)"

definition period_totals :: "db \<Rightarrow> uuid \<Rightarrow> timestamp \<Rightarrow> timestamp option \<Rightarrow> PeriodTotals" where
  "period_totals d user_id start end_at =
     (let rows = period_rows d user_id start end_at in
      \<lparr>pt_start = start,
       pt_replica_hours = py_round 4 (sum_list (map uh_replica_seconds rows) / 3600),
       pt_vcpu_hours = py_round 4 (sum_list (map uh_vcpu_seconds rows) / 3600),
       pt_memory_gb_hours = py_round 4 (sum_list (map uh_memory_mb_seconds rows) / 1024 / 3600),
       pt_requests = sum_list (map uh_requests rows)\<rparr>)"

section \<open>Counting and flushing as a machine\<close>

text \<open>
  The gateway's one scheduler flushes, so at most one batch is in flight; requests are counted at
  any moment. Ghosts: \<open>ms_counted\<close>, all keys counted so far, and the batches of flushes whose rollback
  raised (\<open>ms_lost\<close>) or whose commit went through unnoticed (\<open>ms_doubled\<close>).
\<close>

record meter_state =
  ms_db :: db
  ms_pending :: counter
  ms_in_flight :: "counter option"
  ms_counted :: "request_key list"
  ms_lost :: counter
  ms_doubled :: counter

datatype meter_event = Count agent timestamp | BeginFlush | EndFlush "flush_fault option"

definition meter_step :: "meter_state \<Rightarrow> meter_event \<Rightarrow> meter_state" where
  "meter_step s ev = (case ev of
       Count ag t \<Rightarrow> s\<lparr>ms_pending := count_request ag t (ms_pending s),
         ms_counted := (a_id ag, a_user_id ag, hour_start t) # ms_counted s\<rparr>
     | BeginFlush \<Rightarrow> (case ms_in_flight s of
           Some _ \<Rightarrow> s
         | None \<Rightarrow> let (batch, pending) = take_batch (ms_pending s) in
             s\<lparr>ms_pending := pending, ms_in_flight := Some batch\<rparr>)
     | EndFlush fault \<Rightarrow> (case ms_in_flight s of
           None \<Rightarrow> s
         | Some batch \<Rightarrow> let (d, pending, _) = finish_flush fault batch (ms_db s) (ms_pending s) in
             s\<lparr>ms_db := d, ms_pending := pending, ms_in_flight := None,
               ms_lost := (case fault of Some (RollbackRaised _) \<Rightarrow> batch | _ \<Rightarrow> []) @ ms_lost s,
               ms_doubled := (case fault of Some (CommitApplied _) \<Rightarrow> batch | _ \<Rightarrow> []) @ ms_doubled s\<rparr>))"

text \<open>
  Requests of one bucket: written, and held in a counter. Entries of accounts that no longer exist
  are not written (there is nobody left to bill).
\<close>

definition written_requests :: "db \<Rightarrow> string \<times> timestamp \<Rightarrow> int" where
  "written_requests d b = (case get_row bucket b (usage_hours d) of None \<Rightarrow> 0 | Some h \<Rightarrow> uh_requests h)"

definition key_bucket :: "request_key \<Rightarrow> string \<times> timestamp" where
  "key_bucket k = (fst k, snd (snd k))"

definition held_requests :: "counter \<Rightarrow> string \<times> timestamp \<Rightarrow> int" where
  "held_requests c b = sum_list (map snd (filter (\<lambda>x. key_bucket (fst x) = b) c))"

definition meter_balance :: "meter_state \<Rightarrow> string \<times> timestamp \<Rightarrow> int" where
  "meter_balance s b = written_requests (ms_db s) b + held_requests (ms_pending s) b +
     (case ms_in_flight s of None \<Rightarrow> 0 | Some c \<Rightarrow> held_requests c b)"

definition counted_requests :: "meter_state \<Rightarrow> string \<times> timestamp \<Rightarrow> int" where
  "counted_requests s b = int (length (filter (\<lambda>k. key_bucket k = b) (ms_counted s)))"

definition meter_init :: "db \<Rightarrow> meter_state" where
  "meter_init d = \<lparr>ms_db = d, ms_pending = [], ms_in_flight = None, ms_counted = [], ms_lost = [], ms_doubled = []\<rparr>"

text \<open>Metered time: one call of \<open>record\<close> after another.\<close>

fun record_all :: "(agent \<times> int \<times> rat \<times> timestamp) list \<Rightarrow> db \<Rightarrow> db result" where
  "record_all [] d = Inr d"
| "record_all ((ag, replicas, secs, t) # rest) d =
     bind_result (record_usage ag replicas secs t d) (record_all rest)"

text \<open>What a list of recordings should add to an account's period, per unit of \<open>weight\<close>.\<close>

definition in_period :: "timestamp \<Rightarrow> timestamp option \<Rightarrow> timestamp \<Rightarrow> bool" where
  "in_period start end_at t \<longleftrightarrow> start \<le> t \<and> (case end_at of None \<Rightarrow> True | Some e \<Rightarrow> t < e)"

fun recorded :: "(agent \<Rightarrow> rat) \<Rightarrow> uuid \<Rightarrow> timestamp \<Rightarrow> timestamp option \<Rightarrow>
    (agent \<times> int \<times> rat \<times> timestamp) list \<Rightarrow> rat" where
  "recorded weight user_id start end_at [] = 0"
| "recorded weight user_id start end_at ((ag, replicas, secs, t) # rest) =
     (if a_user_id ag = user_id \<and> in_period start end_at (hour_start t) \<and> 0 < replicas \<and> 0 < secs
      then of_int replicas * weight ag * secs else 0) + recorded weight user_id start end_at rest"

section \<open>Lemmas on the calendar\<close>

lemma hour_start_bounds: "hour_start t \<le> t" "t < hour_start t + usecs_per_hour"
  by (simp_all add: hour_start_def usecs_per_hour_def)

lemma hour_start_mod: "hour_start t mod usecs_per_hour = 0"
  by (simp add: hour_start_def mod_diff_left_eq)

lemma split_month_first:
  "split_month ls n = (m, k) \<Longrightarrow> k \<le> n \<and> (n < sum_list ls \<longrightarrow> j \<le> k \<longrightarrow> split_month ls (n - j) = (m, k - j))"
proof (induction ls arbitrary: n m)
  case (Cons l ls)
  show ?case
  proof (cases "n < l")
    case False
    then obtain m' where m: "split_month ls (n - l) = (m', k)" "m = m' + 1"
      using Cons.prems by (auto split: prod.splits)
    note ih = Cons.IH [OF m(1)]
    show ?thesis
    proof (intro conjI impI)
      show "k \<le> n" using ih by linarith
      assume h: "n < sum_list (l # ls)" "j \<le> k"
      then have "split_month ls (n - l - j) = (m', k - j)" using ih False by auto
      moreover have "\<not> n - j < l" using ih h(2) False by linarith
      ultimately show "split_month (l # ls) (n - j) = (m, k - j)"
        using m(2) by (simp add: add.commute)
    qed
  qed (use Cons.prems in auto)
qed simp

lemma split_year_before:
  "split_year y n = (z, k) \<Longrightarrow> k \<le> n \<and> k < year_length z \<and> (j \<le> k \<longrightarrow> split_year y (n - j) = (z, k - j))"
proof (induction y n rule: split_year.induct)
  case (1 y n)
  show ?case
  proof (cases "n < year_length y")
    case True
    then show ?thesis using 1(2) by (auto simp: split_year.simps [of y] split_year.simps [of z "k - j"])
  next
    case False
    then have ih: "k \<le> n - year_length y \<and> k < year_length z \<and>
        (j \<le> k \<longrightarrow> split_year (y + 1) (n - year_length y - j) = (z, k - j))"
      using 1(1) [OF False] 1(2) by (simp add: split_year.simps [of y n])
    then have "\<not> n - j < year_length y" if "j \<le> k" using that False by linarith
    then show ?thesis
      using ih False by (auto simp: split_year.simps [of y "n - j"] add.commute)
  qed
qed

lemma sum_month_lengths: "sum_list (month_lengths y) = year_length y"
  by (simp add: month_lengths_def year_length_def)

lemma civil_first:
  assumes "civil n = (y, m, k)"
  shows "k \<le> n" and "j \<le> k \<Longrightarrow> civil (n - j) = (y, m, k - j)"
proof -
  obtain i where i: "split_year 1970 n = (y, i)" and k: "split_month (month_lengths y) i = (m, k)"
    using assms by (auto simp: civil_def Let_def split: prod.splits)
  note sy = split_year_before [OF i] and sm = split_month_first [OF k]
  show "k \<le> n" using sy sm by (meson le_trans)
  show "civil (n - j) = (y, m, k - j)" if "j \<le> k"
  proof -
    have "j \<le> i" using that sm by (meson le_trans)
    then have "split_year 1970 (n - j) = (y, i - j)" using sy by blast
    moreover have "split_month (month_lengths y) (i - j) = (m, k - j)"
      using sm sy that by (simp add: sum_month_lengths)
    ultimately show ?thesis by (simp add: civil_def)
  qed
qed

section \<open>Lemmas on buckets\<close>

lemma bucket_add_usage [simp]: "bucket (add_usage h r) = bucket r"
  "uh_user_id (add_usage h r) = uh_user_id r" "uh_requests (add_usage h r) = uh_requests r + uh_requests h"
  "uh_hour_start (add_usage h r) = uh_hour_start r"
  "uh_replica_seconds (add_usage h r) = uh_replica_seconds r + uh_replica_seconds h"
  by (simp_all add: bucket_def add_usage_def)

lemma bucket_eq: "(\<lambda>h. (uh_agent_id h, uh_hour_start h)) = bucket"
  by (simp add: bucket_def fun_eq_iff)

lemma db_wf_usage: "db_wf d \<Longrightarrow> unique_on bucket (usage_hours d)"
  by (simp add: db_wf_def keys_wf_def bucket_eq)

lemma upsert_ok: "uh_user_id h \<in> u_id ` set (users d) \<Longrightarrow> \<exists>d'. upsert_usage h d = Inr d'"
  by (simp add: upsert_usage_def)

lemma upsert_frame:
  "upsert_usage h d = Inr d' \<Longrightarrow> users d' = users d \<and> agents d' = agents d \<and> api_keys d' = api_keys d \<and>
     invites d' = invites d \<and> access_keys d' = access_keys d"
  by (auto simp: upsert_usage_def split: if_splits)

lemma upsert_wf:
  assumes "upsert_usage h d = Inr d'" and "db_wf d"
  shows "db_wf d'"
proof -
  have "unique_on bucket (usage_hours d')"
    using assms(1) db_wf_usage [OF assms(2)]
    by (auto simp: upsert_usage_def unique_on_update unique_on_snoc split: if_splits)
  moreover have "uh_user_id ` set (usage_hours d') \<subseteq> u_id ` set (users d')"
  proof -
    have "usage_hours d' = update_row bucket (bucket h) (add_usage h) (usage_hours d) \<or>
        (usage_hours d' = usage_hours d @ [h] \<and> uh_user_id h \<in> u_id ` set (users d))"
      using assms(1) by (auto simp: upsert_usage_def split: if_splits)
    moreover have "uh_user_id ` set (usage_hours d) \<subseteq> u_id ` set (users d)"
      using assms(2) by (simp add: db_wf_def refs_wf_def)
    ultimately show ?thesis
      using upsert_frame [OF assms(1)] by (elim disjE) (simp_all add: image_update_row_same)
  qed
  ultimately show ?thesis
    using assms(2) upsert_frame [OF assms(1)] by (simp add: db_wf_def keys_wf_def refs_wf_def bucket_eq)
qed

lemma upsert_written:
  assumes "upsert_usage h d = Inr d'"
  shows "written_requests d' b = written_requests d b + (if bucket h = b then uh_requests h else 0)"
proof (cases "bucket h \<in> bucket ` set (usage_hours d)")
  case True
  then obtain r where "get_row bucket (bucket h) (usage_hours d) = Some r"
    using get_row_None [of bucket "bucket h" "usage_hours d"] by auto
  then show ?thesis
    using True assms by (auto simp: upsert_usage_def written_requests_def get_row_update)
next
  case False
  then have "usage_hours d' = usage_hours d @ [h]" "get_row bucket (bucket h) (usage_hours d) = None"
    using assms by (auto simp: upsert_usage_def get_row_None split: if_splits)
  then show ?thesis
    using get_row_snoc_new [OF False] by (auto simp: written_requests_def)
qed

section \<open>Lemmas on counters\<close>

lemma held_simps [simp]: "held_requests [] b = 0"
  "held_requests (x # c) b = (if key_bucket (fst x) = b then snd x else 0) + held_requests c b"
  by (simp_all add: held_requests_def)

lemma held_add [simp]:
  "held_requests (counter_add k n c) b = held_requests c b + (if key_bucket k = b then n else 0)"
  by (induction k n c rule: counter_add.induct) auto

lemma held_update: "held_requests (counter_update c x) b = held_requests c b + held_requests x b"
  by (induction c x rule: counter_update.induct) simp_all

lemma held_count: "held_requests (count_request ag t c) b =
    held_requests c b + (if (a_id ag, hour_start t) = b then 1 else 0)"
  by (simp add: count_request_def held_add key_bucket_def)

lemma keys_counter_add: "fst ` set (counter_add k n c) = insert k (fst ` set c)"
  by (induction k n c rule: counter_add.induct) (simp_all add: insert_commute)

lemma keys_counter_update: "fst ` set (counter_update c x) = fst ` set c \<union> fst ` set x"
  by (induction c x rule: counter_update.induct) (simp_all add: keys_counter_add)

text \<open>What a batch writes: everything of the accounts that exist, and it cannot fail.\<close>

lemma write_batch_effect:
  assumes "db_wf d" and "existing \<subseteq> u_id ` set (users d)"
  shows "\<exists>d' w'. write_batch existing batch (d, w) = Inr (d', w') \<and> db_wf d' \<and> users d' = users d \<and>
    w' = w + sum_list (map snd (filter (\<lambda>x. fst (snd (fst x)) \<in> existing) batch)) \<and>
    (\<forall>b. written_requests d' b = written_requests d b +
       held_requests (filter (\<lambda>x. fst (snd (fst x)) \<in> existing) batch) b)"
  using assms
proof (induction batch arbitrary: d w)
  case (Cons x batch)
  obtain aid uid hour n where x: "x = ((aid, uid, hour), n)" by (metis prod.exhaust)
  show ?case
  proof (cases "uid \<in> existing")
    case False
    then show ?thesis using Cons.IH [OF Cons.prems] by (simp add: x)
  next
    case True
    let ?h = "\<lparr>uh_user_id = uid, uh_agent_id = aid, uh_hour_start = hour, uh_replica_seconds = 0,
      uh_vcpu_seconds = 0, uh_memory_mb_seconds = 0, uh_requests = n\<rparr>"
    obtain d1 where d1: "upsert_usage ?h d = Inr d1"
      using upsert_ok [of ?h d] True Cons.prems(2) by auto
    have "existing \<subseteq> u_id ` set (users d1)" using Cons.prems(2) upsert_frame [OF d1] by simp
    from Cons.IH [OF upsert_wf [OF d1 Cons.prems(1)] this, of "w + n"] obtain d' w' where
      ih: "write_batch existing batch (d1, w + n) = Inr (d', w')" "db_wf d'" "users d' = users d1"
        "w' = w + n + sum_list (map snd (filter (\<lambda>x. fst (snd (fst x)) \<in> existing) batch))"
        "\<And>b. written_requests d' b = written_requests d1 b +
           held_requests (filter (\<lambda>x. fst (snd (fst x)) \<in> existing) batch) b"
      by blast
    have "written_requests d1 b = written_requests d b + (if (aid, hour) = b then n else 0)" for b
      using upsert_written [OF d1] by (simp add: bucket_def)
    then show ?thesis
      using ih True d1 upsert_frame [OF d1]
      by (auto simp: x key_bucket_def intro!: exI [of _ d'])
  qed
qed simp

section \<open>Lemmas on flushing\<close>

lemma finish_flush_cases:
  assumes "db_wf d" and "batch \<noteq> []"
  obtains d1 n where "db_wf d1" "users d1 = users d"
    "\<And>b. written_requests d1 b =
       written_requests d b + held_requests (filter (\<lambda>x. fst (snd (fst x)) \<in> u_id ` set (users d)) batch) b"
    "n = sum_list (map snd (filter (\<lambda>x. fst (snd (fst x)) \<in> u_id ` set (users d)) batch))"
    "\<And>fault pending. finish_flush fault batch d pending = (case fault of
        None \<Rightarrow> (d1, pending, Inr n)
      | Some (Raised x) \<Rightarrow> (d, counter_update pending batch, Inl (Unhandled x))
      | Some (CommitApplied x) \<Rightarrow> (d1, counter_update pending batch, Inl (Unhandled x))
      | Some (RollbackRaised x) \<Rightarrow> (d, pending, Inl (Unhandled x)))"
proof -
  let ?ex = "u_id ` set (filter (\<lambda>u. u_id u \<in> (fst o snd o fst) ` set batch) (users d))"
  have sub: "?ex \<subseteq> u_id ` set (users d)" by auto
  have eq: "filter (\<lambda>x. fst (snd (fst x)) \<in> ?ex) batch = filter (\<lambda>x. fst (snd (fst x)) \<in> u_id ` set (users d)) batch"
    by (rule filter_cong) force+
  from write_batch_effect [OF assms(1) sub, of batch 0] obtain d1 n where
    w: "write_batch ?ex batch (d, 0) = Inr (d1, n)" "db_wf d1" "users d1 = users d"
      "n = sum_list (map snd (filter (\<lambda>x. fst (snd (fst x)) \<in> u_id ` set (users d)) batch))"
      "\<And>b. written_requests d1 b = written_requests d b +
        held_requests (filter (\<lambda>x. fst (snd (fst x)) \<in> u_id ` set (users d)) batch) b"
    unfolding eq by auto
  show ?thesis
    using assms(2) w(1) by (intro that [OF w(2,3,5,4)]) (simp add: finish_flush_def Let_def)
qed

lemma finish_flush_ok:
  assumes "db_wf d"
  defines "live \<equiv> \<lambda>x. fst (snd (fst x)) \<in> u_id ` set (users d)"
  shows "\<exists>d'. finish_flush None batch d pending =
      (d', pending, Inr (sum_list (map snd (filter live batch)))) \<and> db_wf d' \<and> users d' = users d \<and>
    (\<forall>b. written_requests d' b = written_requests d b + held_requests (filter live batch) b)"
proof (cases "batch = []")
  case False
  show ?thesis
  proof (rule finish_flush_cases [OF assms(1) False])
    fix d1 n
    assume e: "db_wf d1" "users d1 = users d"
      "\<And>b. written_requests d1 b =
         written_requests d b + held_requests (filter (\<lambda>x. fst (snd (fst x)) \<in> u_id ` set (users d)) batch) b"
      "n = sum_list (map snd (filter (\<lambda>x. fst (snd (fst x)) \<in> u_id ` set (users d)) batch))"
      "\<And>fault pending. finish_flush fault batch d pending = (case fault of
          None \<Rightarrow> (d1, pending, Inr n)
        | Some (Raised x) \<Rightarrow> (d, counter_update pending batch, Inl (Unhandled x))
        | Some (CommitApplied x) \<Rightarrow> (d1, counter_update pending batch, Inl (Unhandled x))
        | Some (RollbackRaised x) \<Rightarrow> (d, pending, Inl (Unhandled x)))"
    show ?thesis unfolding live_def by (rule exI [of _ d1]) (simp add: e)
  qed
qed (simp add: finish_flush_def assms(1))

text \<open>What a fault adds to the requests of a bucket that are written or pending, or takes away.\<close>

definition flush_drift :: "flush_fault option \<Rightarrow> counter \<Rightarrow> string \<times> timestamp \<Rightarrow> int" where
  "flush_drift fault batch b = (case fault of
     Some (CommitApplied _) \<Rightarrow> held_requests batch b
   | Some (RollbackRaised _) \<Rightarrow> - held_requests batch b
   | _ \<Rightarrow> 0)"

definition plain_fault :: "flush_fault option \<Rightarrow> bool" where
  "plain_fault fault \<longleftrightarrow> (case fault of None \<Rightarrow> True | Some (Raised _) \<Rightarrow> True | _ \<Rightarrow> False)"

lemma plain_drift [simp]: "plain_fault fault \<Longrightarrow> flush_drift fault batch b = 0"
  by (simp add: plain_fault_def flush_drift_def split: option.splits flush_fault.splits)

lemma held_append: "held_requests (x @ y) b = held_requests x b + held_requests y b"
  by (simp add: held_requests_def)

lemma held_live:
  assumes "\<forall>k \<in> fst ` set c. key_bucket k = b \<longrightarrow> fst (snd k) \<in> ids"
  shows "held_requests (filter (\<lambda>x. fst (snd (fst x)) \<in> ids) c) b = held_requests c b"
  using assms by (induction c) auto

lemma finish_flush_effect:
  assumes "db_wf d" and "finish_flush fault batch d pending = (d', pending', r)"
  shows "db_wf d'" and "users d' = users d"
    and "fst ` set pending' \<subseteq> fst ` set pending \<union> fst ` set batch"
    and "\<forall>k \<in> fst ` set batch. key_bucket k = b \<longrightarrow> fst (snd k) \<in> u_id ` set (users d) \<Longrightarrow>
      written_requests d' b + held_requests pending' b =
      written_requests d b + held_requests pending b + held_requests batch b + flush_drift fault batch b"
    and "fault = None \<Longrightarrow> pending' = pending"
proof -
  have "db_wf d' \<and> users d' = users d \<and> fst ` set pending' \<subseteq> fst ` set pending \<union> fst ` set batch \<and>
    ((\<forall>k \<in> fst ` set batch. key_bucket k = b \<longrightarrow> fst (snd k) \<in> u_id ` set (users d)) \<longrightarrow>
      written_requests d' b + held_requests pending' b =
      written_requests d b + held_requests pending b + held_requests batch b + flush_drift fault batch b) \<and>
    (fault = None \<longrightarrow> pending' = pending)"
  proof (cases "batch = []")
    case False
    from finish_flush_cases [OF assms(1) this] obtain d1 n where e: "db_wf d1" "users d1 = users d"
      "written_requests d1 b =
         written_requests d b + held_requests (filter (\<lambda>x. fst (snd (fst x)) \<in> u_id ` set (users d)) batch) b"
      "finish_flush fault batch d pending = (case fault of
        None \<Rightarrow> (d1, pending, Inr n)
      | Some (Raised x) \<Rightarrow> (d, counter_update pending batch, Inl (Unhandled x))
      | Some (CommitApplied x) \<Rightarrow> (d1, counter_update pending batch, Inl (Unhandled x))
      | Some (RollbackRaised x) \<Rightarrow> (d, pending, Inl (Unhandled x)))"
      by metis
    then show ?thesis
      using assms held_live [of batch b "u_id ` set (users d)"]
      by (auto simp: flush_drift_def held_update keys_counter_update split: option.split_asm flush_fault.split_asm)
  qed (use assms in \<open>auto simp: finish_flush_def flush_drift_def split: option.split flush_fault.split\<close>)
  then show "db_wf d'" "users d' = users d" "fst ` set pending' \<subseteq> fst ` set pending \<union> fst ` set batch"
    "\<forall>k \<in> fst ` set batch. key_bucket k = b \<longrightarrow> fst (snd k) \<in> u_id ` set (users d) \<Longrightarrow>
      written_requests d' b + held_requests pending' b =
      written_requests d b + held_requests pending b + held_requests batch b + flush_drift fault batch b"
    "fault = None \<Longrightarrow> pending' = pending"
    by blast+
qed

definition billable :: "db \<Rightarrow> meter_state \<Rightarrow> string \<times> timestamp \<Rightarrow> bool" where
  "billable d0 s b \<longleftrightarrow> (\<forall>k \<in> set (ms_counted s). key_bucket k = b \<longrightarrow> fst (snd k) \<in> u_id ` set (users d0))"

definition meter_inv :: "db \<Rightarrow> meter_state \<Rightarrow> bool" where
  "meter_inv d0 s \<longleftrightarrow> db_wf (ms_db s) \<and> users (ms_db s) = users d0 \<and>
     fst ` set (ms_pending s) \<subseteq> set (ms_counted s) \<and>
     (case ms_in_flight s of None \<Rightarrow> True | Some c \<Rightarrow> fst ` set c \<subseteq> set (ms_counted s)) \<and>
     (\<forall>b. billable d0 s b \<longrightarrow> meter_balance s b + held_requests (ms_lost s) b =
        written_requests d0 b + counted_requests s b + held_requests (ms_doubled s) b)"

lemma meter_inv_end:
  assumes inv: "meter_inv d0 s" and fl: "ms_in_flight s = Some c"
  shows "meter_inv d0 (meter_step s (EndFlush fault))"
proof -
  obtain d' c' r where f: "finish_flush fault c (ms_db s) (ms_pending s) = (d', c', r)" by (metis prod_cases3)
  have wf: "db_wf (ms_db s)" and us: "users (ms_db s) = users d0" using inv by (simp_all add: meter_inv_def)
  note e = finish_flush_effect [OF wf f]
  let ?s = "meter_step s (EndFlush fault)"
  have step: "?s = s\<lparr>ms_db := d', ms_pending := c', ms_in_flight := None,
      ms_lost := (case fault of Some (RollbackRaised _) \<Rightarrow> c | _ \<Rightarrow> []) @ ms_lost s,
      ms_doubled := (case fault of Some (CommitApplied _) \<Rightarrow> c | _ \<Rightarrow> []) @ ms_doubled s\<rparr>"
    using f fl by (simp add: meter_step_def)
  have "meter_balance ?s b + held_requests (ms_lost ?s) b =
      written_requests d0 b + counted_requests ?s b + held_requests (ms_doubled ?s) b" if "billable d0 ?s b" for b
  proof -
    have b: "billable d0 s b" using that by (simp add: step billable_def)
    have "fst ` set c \<subseteq> set (ms_counted s)" using inv fl by (simp add: meter_inv_def)
    then have "\<forall>k \<in> fst ` set c. key_bucket k = b \<longrightarrow> fst (snd k) \<in> u_id ` set (users (ms_db s))"
      using b unfolding billable_def us by blast
    from e(4) [OF this] have "meter_balance ?s b = meter_balance s b + flush_drift fault c b"
      using fl by (simp add: step meter_balance_def)
    moreover have "held_requests (ms_doubled ?s) b - held_requests (ms_lost ?s) b =
        held_requests (ms_doubled s) b - held_requests (ms_lost s) b + flush_drift fault c b"
      by (simp add: step held_append flush_drift_def split: option.split flush_fault.split)
    moreover have "meter_balance s b + held_requests (ms_lost s) b =
        written_requests d0 b + counted_requests s b + held_requests (ms_doubled s) b"
      using b inv unfolding meter_inv_def by blast
    moreover have "counted_requests ?s b = counted_requests s b" by (simp add: step counted_requests_def)
    ultimately show ?thesis by linarith
  qed
  moreover have "fst ` set (ms_pending s) \<subseteq> set (ms_counted s)" "fst ` set c \<subseteq> set (ms_counted s)"
    using inv fl by (simp_all add: meter_inv_def)
  then have "fst ` set (ms_pending ?s) \<subseteq> set (ms_counted ?s)"
    using subset_trans [OF e(3)] by (simp add: step)
  moreover have "db_wf (ms_db ?s)" "users (ms_db ?s) = users d0" "ms_in_flight ?s = None"
    using e(1,2) us by (simp_all add: step)
  ultimately show ?thesis unfolding meter_inv_def by simp
qed

lemma meter_inv_step:
  assumes "meter_inv d0 s"
  shows "meter_inv d0 (meter_step s ev)"
proof (cases ev)
  case (Count ag t)
  let ?k = "(a_id ag, a_user_id ag, hour_start t)" and ?s = "meter_step s (Count ag t)"
  have step: "?s = s\<lparr>ms_pending := counter_add ?k 1 (ms_pending s), ms_counted := ?k # ms_counted s\<rparr>"
    by (simp add: meter_step_def count_request_def)
  have "meter_balance ?s b - counted_requests ?s b = meter_balance s b - counted_requests s b"
    "ms_lost ?s = ms_lost s" "ms_doubled ?s = ms_doubled s" for b
    by (simp_all add: step meter_balance_def counted_requests_def)
  moreover have "billable d0 s b" if "billable d0 ?s b" for b
    using that by (simp add: step billable_def)
  ultimately have "meter_balance ?s b + held_requests (ms_lost ?s) b =
      written_requests d0 b + counted_requests ?s b + held_requests (ms_doubled ?s) b"
    if "billable d0 ?s b" for b
    using that assms unfolding meter_inv_def by (smt (verit))
  moreover have "fst ` set (ms_pending ?s) \<subseteq> set (ms_counted ?s)"
    using assms by (auto simp: step meter_inv_def keys_counter_add)
  ultimately show ?thesis
    using assms unfolding Count by (auto simp: step meter_inv_def split: option.splits)
next
  case BeginFlush
  show ?thesis
  proof (cases "ms_in_flight s")
    case None
    then show ?thesis
      using assms BeginFlush by (simp add: meter_inv_def meter_step_def meter_balance_def
          counted_requests_def billable_def take_batch_def)
  qed (use assms BeginFlush in \<open>simp add: meter_step_def\<close>)
next
  case (EndFlush fault)
  show ?thesis
  proof (cases "ms_in_flight s")
    case None
    then show ?thesis using assms EndFlush by (simp add: meter_step_def)
  next
    case (Some c)
    then show ?thesis using meter_inv_end [OF assms Some] EndFlush by simp
  qed
qed

interpretation meter: step_invariant meter_step "meter_inv d0" for d0
  using meter_inv_step by unfold_locales

section \<open>Lemmas on recorded time\<close>

lemma period_rows_in: "period_rows d uid start end_at =
    filter (\<lambda>h. uh_user_id h = uid \<and> in_period start end_at (uh_hour_start h)) (usage_hours d)"
  by (simp add: period_rows_def in_period_def)

lemma recorded_nothing: "recorded (\<lambda>a. 0) uid start end_at recs = 0"
  by (induction "\<lambda>a :: agent. 0 :: rat" uid start end_at recs rule: recorded.induct) simp_all

lemma sum_requests_rat: "(\<Sum>h \<leftarrow> rows. rat_of_int (uh_requests h)) = of_int (sum_list (map uh_requests rows))"
  by (induction rows) simp_all

text \<open>Rows of one agent belong to one account.\<close>

definition owned_by :: "(string \<Rightarrow> uuid) \<Rightarrow> db \<Rightarrow> bool" where
  "owned_by owner d \<longleftrightarrow> (\<forall>h \<in> set (usage_hours d). uh_user_id h = owner (uh_agent_id h))"

lemma sum_filter_update:
  fixes f :: "usage_hour \<Rightarrow> rat"
  assumes "unique_on bucket rows" and "get_row bucket k rows = Some r"
    and "\<And>x. f (g x) = f x + v" and "\<And>x. q (g x) = q x"
  shows "sum_list (map f (filter q (update_row bucket k g rows))) =
    sum_list (map f (filter q rows)) + (if q r then v else 0)"
  using assms(1,2)
proof (induction rows)
  case (Cons x rows)
  show ?case
  proof (cases "bucket x = k")
    case True
    then have "k \<notin> bucket ` set rows" using Cons.prems(1) by (auto simp: unique_on_def)
    then show ?thesis
      using True Cons.prems(2) assms(3,4) update_row_absent [of k bucket rows g]
      by (simp add: get_row_Cons update_row_def)
  next
    case False
    then show ?thesis using Cons by (simp add: get_row_Cons unique_on_def update_row_def)
  qed
qed simp

lemma upsert_sum:
  fixes f :: "usage_hour \<Rightarrow> rat"
  assumes "db_wf d" and "owned_by owner d" and "uh_user_id h = owner (uh_agent_id h)"
    and "upsert_usage h d = Inr d'" and add: "\<And>x. f (add_usage h x) = f x + f h"
  shows "sum_list (map f (period_rows d' uid start end_at)) =
      sum_list (map f (period_rows d uid start end_at)) +
      (if uh_user_id h = uid \<and> in_period start end_at (uh_hour_start h) then f h else 0)" and "owned_by owner d'"
proof -
  let ?q = "\<lambda>x. uh_user_id x = uid \<and> in_period start end_at (uh_hour_start x)"
  have "sum_list (map f (period_rows d' uid start end_at)) =
      sum_list (map f (period_rows d uid start end_at)) + (if ?q h then f h else 0) \<and> owned_by owner d'"
  proof (cases "bucket h \<in> bucket ` set (usage_hours d)")
    case True
    then obtain r where r: "get_row bucket (bucket h) (usage_hours d) = Some r"
      using get_row_None [of bucket "bucket h" "usage_hours d"] by auto
    have d': "usage_hours d' = update_row bucket (bucket h) (add_usage h) (usage_hours d)"
      using True assms(4) by (auto simp: upsert_usage_def)
    have "?q r = ?q h"
      using get_row_Some [OF r] assms(2,3) by (auto simp: owned_by_def bucket_def)
    moreover have "owned_by owner d'"
      using assms(2) by (auto simp: owned_by_def d' set_update_row add_usage_def)
    ultimately show ?thesis
      using sum_filter_update [OF db_wf_usage [OF assms(1)] r, of f "add_usage h" "f h" ?q] add
      by (simp add: period_rows_in d')
  next
    case False
    then show ?thesis
      using assms(2-4) by (auto simp: upsert_usage_def owned_by_def period_rows_in split: if_splits)
  qed
  then show "sum_list (map f (period_rows d' uid start end_at)) =
      sum_list (map f (period_rows d uid start end_at)) + (if ?q h then f h else 0)" "owned_by owner d'"
    by simp_all
qed

lemma record_all_sum:
  fixes f :: "usage_hour \<Rightarrow> rat"
  assumes "db_wf d" and "owned_by owner d"
    and "\<forall>(ag, r, s, t) \<in> set recs. a_user_id ag = owner (a_id ag) \<and> a_user_id ag \<in> u_id ` set (users d)"
    and add: "\<And>h x. f (add_usage h x) = f x + f h"
    and w: "\<And>ag r s t. f \<lparr>uh_user_id = a_user_id ag, uh_agent_id = a_id ag, uh_hour_start = t,
        uh_replica_seconds = of_int r * s, uh_vcpu_seconds = of_int r * a_cpu ag * s,
        uh_memory_mb_seconds = of_int (r * a_memory_mb ag) * s, uh_requests = 0\<rparr> = of_int r * weight ag * s"
  shows "\<exists>d'. record_all recs d = Inr d' \<and> sum_list (map f (period_rows d' uid start end_at)) =
    sum_list (map f (period_rows d uid start end_at)) + recorded weight uid start end_at recs"
  using assms(1-3)
proof (induction recs arbitrary: d)
  case (Cons x recs)
  obtain ag r s t where x: "x = (ag, r, s, t)" by (metis prod.exhaust)
  show ?case
  proof (cases "r \<le> 0 \<or> s \<le> 0")
    case True
    then have "record_usage ag r s t d = Inr d" by (simp add: record_usage_def)
    then show ?thesis
      using Cons.IH [OF Cons.prems(1,2)] Cons.prems(3) True by (auto simp: x)
  next
    case False
    define h where "h = \<lparr>uh_user_id = a_user_id ag, uh_agent_id = a_id ag, uh_hour_start = hour_start t,
        uh_replica_seconds = of_int r * s, uh_vcpu_seconds = of_int r * a_cpu ag * s,
        uh_memory_mb_seconds = of_int (r * a_memory_mb ag) * s, uh_requests = 0\<rparr>"
    have h: "uh_user_id h = a_user_id ag" "uh_agent_id h = a_id ag" "uh_hour_start h = hour_start t"
      "f h = of_int r * weight ag * s" "record_usage ag r s t d = upsert_usage h d"
      using False w by (simp_all add: h_def record_usage_def)
    have own: "a_user_id ag = owner (a_id ag)" "a_user_id ag \<in> u_id ` set (users d)"
      using bspec [OF Cons.prems(3), of x] by (force simp: x)+
    obtain d1 where d1: "upsert_usage h d = Inr d1" using upsert_ok [of h d] own(2) h(1) by auto
    have "uh_user_id h = owner (uh_agent_id h)" using own(1) h by simp
    note e = upsert_sum(1) [where f = f and uid = uid and start = start and end_at = end_at, OF Cons.prems(1,2) this d1 add,
        unfolded h(1-3)] upsert_sum(2) [where f = f, OF Cons.prems(1,2) this d1 add]
    obtain d' where "record_all recs d1 = Inr d'"
      "sum_list (map f (period_rows d' uid start end_at)) =
       sum_list (map f (period_rows d1 uid start end_at)) + recorded weight uid start end_at recs"
      using Cons.IH [OF upsert_wf [OF d1 Cons.prems(1)] e(2)] Cons.prems(3) upsert_frame [OF d1] by auto
    then show ?thesis
      using False d1 e(1) h(4,5) by (auto simp: x)
  qed
qed simp

lemma run_plain:
  assumes "\<forall>fault. EndFlush fault \<in> set evs \<longrightarrow> plain_fault fault" and "ms_lost s = []" and "ms_doubled s = []"
  shows "ms_lost (run_steps meter_step s evs) = [] \<and> ms_doubled (run_steps meter_step s evs) = []"
  using assms
proof (induction evs arbitrary: s)
  case (Cons ev evs)
  have "ms_lost (meter_step s ev) = [] \<and> ms_doubled (meter_step s ev) = []"
    using Cons.prems by (cases ev)
      (auto simp: meter_step_def plain_fault_def case_prod_beta Let_def split: option.split flush_fault.split)
  then show ?case using Cons.IH [of "meter_step s ev"] Cons.prems(1) by simp
qed simp

section \<open>Properties\<close>

text \<open>
  C7: no routed request is lost or counted twice. However counting interleaves with flushes, and
  however many flushes fail half way, for every agent and hour whose account exists: the requests
  written, pending and in flight add up to those written at the start plus those counted; except
  that exactly the batches of flushes whose rollback raises too are missing, and exactly those of
  flushes whose commit went through although it raised are there twice.
\<close>

theorem requests_conserved:
  assumes "db_wf d" and s': "s' = run_steps meter_step (meter_init d) evs"
    and "\<forall>k \<in> set (ms_counted s'). key_bucket k = b \<longrightarrow> fst (snd k) \<in> u_id ` set (users d)"
  shows "meter_balance s' b + held_requests (ms_lost s') b =
      written_requests d b + counted_requests s' b + held_requests (ms_doubled s') b \<and>
    ((\<forall>fault. EndFlush fault \<in> set evs \<longrightarrow> plain_fault fault) \<longrightarrow>
      meter_balance s' b = written_requests d b + counted_requests s' b)"
proof -
  have "meter_inv d (meter_init d)"
    using assms(1) by (simp add: meter_inv_def meter_init_def meter_balance_def counted_requests_def)
  then have "meter_inv d s'" unfolding s' by (rule meter.run_keeps)
  then have "meter_balance s' b + held_requests (ms_lost s') b =
      written_requests d b + counted_requests s' b + held_requests (ms_doubled s') b"
    using assms(3) unfolding meter_inv_def billable_def by blast
  moreover have "ms_lost s' = [] \<and> ms_doubled s' = []" if "\<forall>fault. EndFlush fault \<in> set evs \<longrightarrow> plain_fault fault"
    unfolding s' by (rule run_plain) (use that in \<open>simp_all add: meter_init_def\<close>)
  ultimately show ?thesis by auto
qed

theorem requests_conserved_witness:
  "meter_balance (run_steps meter_step (meter_init sample_db)
     [Count sample_agent 5, BeginFlush, Count sample_agent 6, EndFlush (Some (Raised IntegrityError))]) (''agent-1'', 0) = 2"
proof -
  let ?evs = "[Count sample_agent 5, BeginFlush, Count sample_agent 6, EndFlush (Some (Raised IntegrityError))]"
  have "hour_start 5 = 0" "hour_start 6 = 0" by (simp_all add: hour_start_def usecs_per_hour_def)
  then show ?thesis
    using requests_conserved [OF sample_db_wf refl, of ?evs "(''agent-1'', 0)"]
    by (simp add: meter_step_def meter_init_def take_batch_def key_bucket_def counted_requests_def plain_fault_def
        written_requests_def sample_db_def empty_db_def sample_agent_def sample_user_def split: prod.splits)
qed

text \<open>
  A flush writes everything or nothing. Without a fault it always succeeds, empties the pending
  counts, adds to every hour bucket exactly the counts held for it and returns their number
  (all accounts existing); with a fault the database is untouched, the error is passed on and every
  count is pending again.
\<close>

theorem flush_all_or_nothing:
  assumes "db_wf d" and "\<forall>x \<in> set pending. fst (snd (fst x)) \<in> u_id ` set (users d)" and "pending \<noteq> []"
  shows "(\<exists>d'. flush_requests None d pending = (d', [], Inr (pending_requests pending)) \<and> db_wf d' \<and>
      (\<forall>b. written_requests d' b = written_requests d b + held_requests pending b)) \<and>
    (\<exists>pending'. flush_requests (Some (Raised x)) d pending = (d, pending', Inl (Unhandled x)) \<and>
      (\<forall>b. held_requests pending' b = held_requests pending b))"
proof -
  have "filter (\<lambda>x. fst (snd (fst x)) \<in> u_id ` set (users d)) pending = pending"
    using assms(2) by simp
  note all = this
  show ?thesis
  proof (rule finish_flush_cases [OF assms(1,3)], unfold all)
    fix d1 n
    assume e: "db_wf d1" "\<And>b. written_requests d1 b = written_requests d b + held_requests pending b"
      "n = sum_list (map snd pending)"
      "\<And>fault p. finish_flush fault pending d p = (case fault of
          None \<Rightarrow> (d1, p, Inr n)
        | Some (Raised x) \<Rightarrow> (d, counter_update p pending, Inl (Unhandled x))
        | Some (CommitApplied x) \<Rightarrow> (d1, counter_update p pending, Inl (Unhandled x))
        | Some (RollbackRaised x) \<Rightarrow> (d, p, Inl (Unhandled x)))"
    show ?thesis
      by (intro conjI exI [of _ d1] exI [of _ "counter_update [] pending"])
        (simp_all add: e flush_requests_def take_batch_def pending_requests_def held_update)
  qed
qed

theorem flush_all_or_nothing_witness:
  "fst (snd (flush_requests None sample_db [((''agent-1'', 1, 0), 3)])) = [] \<and>
   snd (snd (flush_requests None sample_db [((''agent-1'', 1, 0), 3)])) = Inr 3"
proof -
  have "u_id ` set (users sample_db) = {1}" by (simp add: sample_db_def sample_user_def)
  then show ?thesis
    using flush_all_or_nothing [OF sample_db_wf, of "[((''agent-1'', 1, 0), 3)]" KeyError]
    by (auto simp: pending_requests_def)
qed



text \<open>
  The billing period is the calendar month. For times from 1970 on, the start of the month is
  midnight of its first day, not after the time, and every time between it and the given one has
  the same start.
\<close>

theorem month_start_correct:
  assumes "0 \<le> t"
  shows "month_start t \<le> t \<and> month_start t mod usecs_per_day = 0 \<and>
    (\<exists>y m k. civil (nat (t div usecs_per_day)) = (y, m, k) \<and>
       civil (nat (month_start t div usecs_per_day)) = (y, m, 0)) \<and>
    (\<forall>s. month_start t \<le> s \<and> s \<le> t \<longrightarrow> month_start s = month_start t)"
proof -
  let ?n = "nat (t div usecs_per_day)"
  have pos: "0 < usecs_per_day" by (simp add: usecs_per_day_def usecs_per_hour_def)
  obtain y m k where c: "civil ?n = (y, m, k)" by (metis prod_cases3)
  note cf = civil_first [OF c]
  have day: "int ?n = t div usecs_per_day"
    using assms pos by (simp add: pos_imp_zdiv_nonneg_iff)
  have ms: "month_start t = (int (?n - k)) * usecs_per_day"
    using c cf(1) day by (simp add: month_start_def Let_def of_nat_diff)
  then have div: "month_start t div usecs_per_day = int (?n - k)" and "month_start t mod usecs_per_day = 0"
    using pos by simp_all
  moreover have "int (?n - k) * usecs_per_day \<le> int ?n * usecs_per_day"
    using pos by (intro mult_right_mono) auto
  then have "month_start t \<le> t"
    unfolding ms day using div_mult_mod_eq [of t usecs_per_day] pos_mod_sign [OF pos, of t] by linarith
  moreover have "month_start s = month_start t" if "month_start t \<le> s" "s \<le> t" for s
  proof -
    define j where "j = ?n - nat (s div usecs_per_day)"
    have b: "int (?n - k) \<le> s div usecs_per_day" "s div usecs_per_day \<le> int ?n"
      using zdiv_mono1 [OF that(1) pos] zdiv_mono1 [OF that(2) pos] div day by simp_all
    then have j: "nat (s div usecs_per_day) = ?n - j" "j \<le> k" "s div usecs_per_day = int (?n - j)"
      unfolding j_def using cf(1) by linarith+
    have "month_start s = (int (?n - j) - int (k - j)) * usecs_per_day"
      using cf(2) [OF j(2)] by (simp add: month_start_def j(1,3))
    then show ?thesis
      using ms j(2) cf(1) by (simp add: of_nat_diff)
  qed
  moreover have "civil (nat (month_start t div usecs_per_day)) = (y, m, 0)"
    using cf(2) [of k] by (simp add: div)
  ultimately show ?thesis using c by blast
qed

theorem month_start_correct_witness:
  "month_start (1709251199 * 1000000) \<le> 1709251199 * 1000000"
  by (rule month_start_correct [THEN conjunct1]) simp

end
