(* ===== verification/Administration.thy ===== *)
theory Administration
  imports Metering
begin

text \<open>
  The admin endpoints (\<open>routers/admin.py\<close>), the account's usage report (\<open>routers/account.py\<close>) and
  the maintenance script that appoints the first admin (\<open>scripts/set_user_role.py\<close>).
\<close>

section \<open>Invites (routers/admin.py)\<close>

record InviteOut =
  io_id :: uuid
  io_code_prefix :: string
  io_note :: string
  io_max_uses :: int
  io_use_count :: int
  io_status :: string
  io_expires_at :: "timestamp option"
  io_created_at :: timestamp

definition invite_out :: "timestamp \<Rightarrow> invite \<Rightarrow> InviteOut" where
  "invite_out now i = \<lparr>io_id = i_id i, io_code_prefix = i_code_prefix i, io_note = i_note i,
     io_max_uses = i_max_uses i, io_use_count = i_use_count i, io_status = invite_status now i,
     io_expires_at = i_expires_at i, io_created_at = i_created_at i\<rparr>"

definition admin_create_invite ::
  "settings \<Rightarrow> crypto \<Rightarrow> core_auth \<Rightarrow> key_draw \<Rightarrow> string option \<Rightarrow> string \<Rightarrow> int \<Rightarrow> int option \<Rightarrow> db \<Rightarrow>
   (db \<times> InviteOut \<times> string) result" where
  "admin_create_invite st cr ca kd creds memo max_uses expires_in_days d =
     bind_result (require_role st cr ca (kd_now kd) ADMIN False creds d) (\<lambda>p.
     bind_result (create_invite cr (kd_id kd) (kd_token kd) (kd_now kd) (p_user_id p) (py_strip memo)
         max_uses expires_in_days d) (\<lambda>(d', i, code).
       Inr (d', invite_out (kd_now kd) i, code)))"

definition admin_list_invites ::
  "settings \<Rightarrow> crypto \<Rightarrow> core_auth \<Rightarrow> timestamp \<Rightarrow> string option \<Rightarrow> db \<Rightarrow> InviteOut list result" where
  "admin_list_invites st cr ca now creds d =
     bind_result (require_role st cr ca now ADMIN False creds d)
       (\<lambda>p. Inr (map (invite_out now) (list_invites d)))"

definition admin_revoke_invite ::
  "settings \<Rightarrow> crypto \<Rightarrow> core_auth \<Rightarrow> timestamp \<Rightarrow> string option \<Rightarrow> uuid \<Rightarrow> db \<Rightarrow> db result" where
  "admin_revoke_invite st cr ca now creds invite_id d =
     bind_result (require_role st cr ca now ADMIN False creds d) (\<lambda>p. revoke_invite now invite_id d)"

section \<open>Accounts (routers/admin.py)\<close>

record AdminUserOut =
  au_id :: uuid
  au_email :: string
  au_name :: string
  au_role :: string
  au_plan :: string
  au_is_active :: bool
  au_agents :: int
  au_created_at :: timestamp

definition admin_user_out :: "core_auth \<Rightarrow> user \<Rightarrow> int \<Rightarrow> AdminUserOut result" where
  "admin_user_out ca u n = bind_result (role_enum ca u) (\<lambda>r. bind_result (role_to_str r) (\<lambda>s.
     Inr \<lparr>au_id = u_id u, au_email = u_email u, au_name = u_name u, au_role = s, au_plan = u_plan u,
          au_is_active = u_is_active u, au_agents = n, au_created_at = u_created_at u\<rparr>))"

definition agent_count :: "db \<Rightarrow> uuid \<Rightarrow> int" where
  "agent_count d user_id = int (length (filter (\<lambda>a. a_user_id a = user_id) (agents d)))"

definition list_users ::
  "settings \<Rightarrow> crypto \<Rightarrow> core_auth \<Rightarrow> timestamp \<Rightarrow> string option \<Rightarrow> db \<Rightarrow> AdminUserOut list result" where
  "list_users st cr ca now creds d =
     bind_result (require_role st cr ca now ADMIN False creds d) (\<lambda>p.
       traverse (\<lambda>u. admin_user_out ca u (agent_count d (u_id u))) (order_by_desc u_created_at (users d)))"

text \<open>\<open>AdminUserUpdate\<close>, and what its schema accepts.\<close>

record admin_user_update =
  up_role :: "string option"
  up_plan :: "string option"
  up_is_active :: "bool option"

definition valid_update :: "admin_user_update \<Rightarrow> bool" where
  "valid_update b \<longleftrightarrow>
     (case up_role b of None \<Rightarrow> True | Some r \<Rightarrow> r \<in> {''viewer'', ''developer'', ''admin''}) \<and>
     (case up_plan b of None \<Rightarrow> True | Some p \<Rightarrow> p \<in> fst ` set PLANS)"

definition apply_update :: "core_auth \<Rightarrow> admin_user_update \<Rightarrow> user \<Rightarrow> user result" where
  "apply_update ca b u =
     bind_result (case up_role b of
         None \<Rightarrow> Inr u
       | Some s \<Rightarrow> bind_result (str_to_role s) (\<lambda>r. Inr (u\<lparr>u_role := role_value ca r\<rparr>))) (\<lambda>u1.
     let u2 = (case up_plan b of None \<Rightarrow> u1 | Some p \<Rightarrow> u1\<lparr>u_plan := p\<rparr>);
         u3 = (case up_is_active b of None \<Rightarrow> u2 | Some x \<Rightarrow> u2\<lparr>u_is_active := x\<rparr>)
     in Inr u3)"

definition own_access_change :: "principal \<Rightarrow> user \<Rightarrow> admin_user_update \<Rightarrow> bool" where
  "own_access_change p u b \<longleftrightarrow> u_id u = p_user_id p \<and>
     ((case up_role b of None \<Rightarrow> False | Some r \<Rightarrow> r \<noteq> ''admin'') \<or> up_is_active b = Some False)"

text \<open>The change is committed before the response is built.\<close>

definition update_user ::
  "settings \<Rightarrow> crypto \<Rightarrow> core_auth \<Rightarrow> timestamp \<Rightarrow> string option \<Rightarrow> uuid \<Rightarrow> admin_user_update \<Rightarrow> db \<Rightarrow>
   db \<times> AdminUserOut result" where
  "update_user st cr ca now creds user_id b d =
     (case bind_result (require_role st cr ca now ADMIN False creds d) (\<lambda>p.
         case get_user d user_id of
           None \<Rightarrow> Inl (UserNotFoundError (uuid_str user_id))
         | Some u \<Rightarrow>
             if own_access_change p u b
             then Inl (AuthorisationError (uuid_str (p_user_id p)) ''change own admin access'')
             else apply_update ca b u) of
        Inl e \<Rightarrow> (d, Inl e)
      | Inr u' \<Rightarrow>
          let d' = set_user user_id (\<lambda>_. u') d
          in (d', admin_user_out ca u' (agent_count d' user_id)))"

section \<open>Usage report (routers/account.py)\<close>

record AccountUsage =
  ac_plan :: string
  ac_exempt :: bool
  ac_limits :: plan_limits
  ac_usage :: usage
  ac_period :: PeriodTotals

definition account_usage ::
  "settings \<Rightarrow> crypto \<Rightarrow> core_auth \<Rightarrow> timestamp \<Rightarrow> string option \<Rightarrow> db \<Rightarrow> AccountUsage result" where
  "account_usage st cr ca now creds d =
     bind_result (get_current_principal st cr ca now creds d) (\<lambda>p.
     bind_result (usage_report d (p_user_id p)) (\<lambda>(u, limits, current).
     bind_result (is_exempt ca u) (\<lambda>exempt.
       Inr \<lparr>ac_plan = u_plan u, ac_exempt = exempt, ac_limits = limits, ac_usage = current,
            ac_period = period_totals d (p_user_id p) (month_start now) None\<rparr>)))"

section \<open>The script (set\_user\_role.py)\<close>

text \<open>Unknown e-mail: the script exits with status 1 (\<^term>\<open>None\<close>).\<close>

definition set_role :: "core_auth \<Rightarrow> string \<Rightarrow> role \<Rightarrow> db \<Rightarrow> db option result" where
  "set_role ca email r d =
     bind_result (select_one (\<lambda>u. u_email u = email) (users d)) (\<lambda>found. case found of
         None \<Rightarrow> Inr None
       | Some u \<Rightarrow> bind_result (role_enum ca u) (\<lambda>old.
           Inr (Some (set_user (u_id u) (\<lambda>v. v\<lparr>u_role := role_value ca r\<rparr>) d))))"

text \<open>The script's arguments: argparse refuses any other role and exits (\<^term>\<open>None\<close> as well).\<close>

definition set_user_role :: "core_auth \<Rightarrow> string \<Rightarrow> string \<Rightarrow> db \<Rightarrow> db option result" where
  "set_user_role ca email role d =
     (if role \<notin> {''viewer'', ''developer'', ''admin''} then Inr None
      else bind_result (str_to_role role) (\<lambda>r. set_role ca email r d))"

section \<open>Specification\<close>

definition can_admin :: "core_auth \<Rightarrow> user \<Rightarrow> bool" where
  "can_admin ca u \<longleftrightarrow> u_is_active u \<and>
     (case role_of_value ca (u_role u) of None \<Rightarrow> False | Some r \<Rightarrow> role_can ca r ADMIN)"

definition has_admin :: "core_auth \<Rightarrow> db \<Rightarrow> bool" where
  "has_admin ca d \<longleftrightarrow> (\<exists>u \<in> set (users d). can_admin ca u)"

text \<open>One request to change an account, with everything it carries.\<close>

record update_request =
  ur_now :: timestamp
  ur_creds :: "string option"
  ur_user :: uuid
  ur_body :: admin_user_update

definition admin_step :: "settings \<Rightarrow> crypto \<Rightarrow> core_auth \<Rightarrow> db \<Rightarrow> update_request \<Rightarrow> db" where
  "admin_step st cr ca d q = fst (update_user st cr ca (ur_now q) (ur_creds q) (ur_user q) (ur_body q) d)"

section \<open>Lemmas\<close>

lemma get_user_id: "get_user d v = Some u \<Longrightarrow> get_user d (u_id u) = Some u"
  using get_user_Some by metis

lemma authenticated_user:
  assumes "db_wf d" and "get_current_principal st cr ca now creds d = Inr p"
  shows "\<exists>u. get_user d (p_user_id p) = Some u \<and> u_is_active u \<and> role_enum ca u = Inr (p_role p) \<and>
    p_email p = u_email u"
proof -
  obtain token where "authenticate_api_key cr ca now token d = Inr p \<or> authenticate_jwt st cr ca now token d = Inr p"
    using assms(2) by (auto simp: get_current_principal_def split: option.split_asm if_split_asm)
  then show ?thesis
    by (auto simp: authenticate_api_key_iff [OF assms(1)] authenticate_jwt_iff dest: get_user_id)
qed

lemma required_role_user:
  assumes "db_wf d" and "require_role st cr ca now m jwt creds d = Inr p"
  shows "\<exists>u. get_user d (p_user_id p) = Some u \<and> u_is_active u \<and> role_enum ca u = Inr (p_role p) \<and>
    role_can ca (p_role p) m"
proof -
  have base: "get_current_principal st cr ca now creds d = Inr p" and can: "role_can ca (p_role p) m"
    using assms(2) by (auto simp: require_role_def result_simps require_jwt_principal_def
        get_current_principal_def split: if_split_asm option.split_asm)
  then show ?thesis using authenticated_user [OF assms(1) base] by blast
qed

lemma apply_update_effect:
  assumes "apply_update ca b u = Inr u'"
  shows "u_id u' = u_id u" "u_email u' = u_email u" "u_stripe_customer_id u' = u_stripe_customer_id u"
    "u_plan u' = (case up_plan b of None \<Rightarrow> u_plan u | Some p \<Rightarrow> p)"
    "u_is_active u' = (case up_is_active b of None \<Rightarrow> u_is_active u | Some x \<Rightarrow> x)"
    "case up_role b of None \<Rightarrow> u_role u' = u_role u
      | Some s \<Rightarrow> \<exists>r. str_to_role s = Inr r \<and> u_role u' = role_value ca r"
    "u_password_hash u' = u_password_hash u"
  using assms
  by (cases "up_role b"; cases "up_plan b"; cases "up_is_active b"; auto simp: apply_update_def result_simps)+

lemma update_user_cases:
  assumes "update_user st cr ca now creds user_id b d = (d', out)"
  obtains "d' = d" "\<exists>e. out = Inl e"
    | p u u' where "require_role st cr ca now ADMIN False creds d = Inr p" "get_user d user_id = Some u"
        "\<not> own_access_change p u b" "apply_update ca b u = Inr u'" "d' = set_user user_id (\<lambda>_. u') d"
        "out = admin_user_out ca u' (agent_count d' user_id)"
proof -
  let ?inner = "bind_result (require_role st cr ca now ADMIN False creds d) (\<lambda>p.
    case get_user d user_id of
      None \<Rightarrow> Inl (UserNotFoundError (uuid_str user_id))
    | Some u \<Rightarrow> if own_access_change p u b
        then Inl (AuthorisationError (uuid_str (p_user_id p)) ''change own admin access'')
        else apply_update ca b u)"
  note def = assms [unfolded update_user_def]
  show ?thesis
  proof (cases ?inner)
    case (Inl e)
    then show ?thesis using def by (intro that(1)) auto
  next
    case (Inr u')
    then obtain p u where "require_role st cr ca now ADMIN False creds d = Inr p" "get_user d user_id = Some u"
      "\<not> own_access_change p u b" "apply_update ca b u = Inr u'"
      by (auto simp: result_simps split: option.split_asm if_split_asm)
    then show ?thesis using def Inr by (intro that(2)) (auto simp: Let_def)
  qed
qed

text \<open>Replacing one row by a row with the same keys.\<close>

lemma set_user_const_wf:
  assumes "db_wf d" and "get_user d uid = Some u" and "u_id u' = u_id u" "u_email u' = u_email u"
    "u_stripe_customer_id u' = u_stripe_customer_id u"
  shows "db_wf (set_user uid (\<lambda>_. u') d)" and "get_user (set_user uid (\<lambda>_. u') d) uid = Some u'"
    and "v \<noteq> uid \<Longrightarrow> get_user (set_user uid (\<lambda>_. u') d) v = get_user d v"
proof -
  let ?f = "\<lambda>v. if v = u then u' else v"
  have "update_row u_id uid (\<lambda>_. u') (users d) = update_row u_id uid ?f (users d)"
    using get_row_unique [OF db_wfD(1) [OF assms(1)]] assms(2)
    by (fastforce simp: update_row_def get_user_def)
  then have eq: "set_user uid (\<lambda>_. u') d = set_user uid ?f d" by (simp add: set_user_def)
  show "db_wf (set_user uid (\<lambda>_. u') d)"
    unfolding eq using assms(1,3-5) by (subst set_user_wf) auto
  show "get_user (set_user uid (\<lambda>_. u') d) uid = Some u'"
    "v \<noteq> uid \<Longrightarrow> get_user (set_user uid (\<lambda>_. u') d) v = get_user d v"
    unfolding eq using assms(2,3) by (subst get_user_set_user; simp)+
qed

lemma has_admin_lookup: "db_wf d \<Longrightarrow> has_admin ca d \<longleftrightarrow> (\<exists>v u. get_user d v = Some u \<and> can_admin ca u)"
  using get_row_unique [OF db_wfD(1)] get_user_Some unfolding has_admin_def get_user_def by metis

lemma can_admin_iff: "can_admin ca u \<longleftrightarrow> u_is_active u \<and> (\<exists>r. role_enum ca u = Inr r \<and> role_can ca r ADMIN)"
  by (auto simp: can_admin_def role_enum_def split: option.splits)

lemma update_user_wf:
  assumes "db_wf d"
  shows "db_wf (fst (update_user st cr ca now creds user_id b d))"
proof -
  obtain d' out where u: "update_user st cr ca now creds user_id b d = (d', out)" by (metis prod.exhaust)
  then have "db_wf d'"
    by (rule update_user_cases) (use assms apply_update_effect(1-3) set_user_const_wf(1) in \<open>blast+\<close>)
  then show ?thesis using u by simp
qed

text \<open>The admin who makes a change still is one afterwards.\<close>

lemma update_keeps_actor:
  assumes "db_wf d" and "role_laws ca" and "require_role st cr ca now ADMIN False creds d = Inr p"
    and "get_user d user_id = Some u" and "\<not> own_access_change p u b" and "apply_update ca b u = Inr u'"
  shows "\<exists>v. get_user (set_user user_id (\<lambda>_. u') d) (p_user_id p) = Some v \<and> can_admin ca v"
proof -
  obtain a where a: "get_user d (p_user_id p) = Some a" "can_admin ca a"
    using required_role_user [OF assms(1,3)] by (auto simp: can_admin_iff)
  note e = apply_update_effect [OF assms(6)]
  note s = set_user_const_wf [OF assms(1,4) e(1-3)]
  show ?thesis
  proof (cases "p_user_id p = user_id")
    case True
    then have own: "u = a" "u_id u = p_user_id p" using a(1) assms(4) get_user_Some [OF assms(4)] by auto
    have "up_is_active b \<noteq> Some False" "up_role b = None \<or> up_role b = Some ''admin''"
      using assms(5) own(2) by (auto simp: own_access_change_def split: option.split_asm)
    then have "u_is_active u' \<and> (u_role u' = u_role u \<or> u_role u' = role_value ca ADMIN)"
      using a(2) own(1) e(5,6)
      by (auto simp: can_admin_def str_to_role_def ROLE_TO_STR_def split: option.splits)
    then have "can_admin ca u'"
      using a(2) own(1) assms(2) by (auto simp: can_admin_def role_laws_def)
    then show ?thesis using s(2) True by simp
  qed (use a s(3) in auto)
qed

definition admin_inv :: "core_auth \<Rightarrow> db \<Rightarrow> bool" where
  "admin_inv ca d \<longleftrightarrow> role_laws ca \<and> db_wf d \<and> has_admin ca d"

lemma admin_step_inv:
  assumes "admin_inv ca d"
  shows "admin_inv ca (admin_step st cr ca d q)"
proof -
  have wf: "db_wf d" and laws: "role_laws ca" using assms by (auto simp: admin_inv_def)
  obtain d' out where u: "update_user st cr ca (ur_now q) (ur_creds q) (ur_user q) (ur_body q) d = (d', out)"
    by (metis prod.exhaust)
  have wf': "db_wf d'" using update_user_wf [OF wf] u by (metis fst_conv)
  have "has_admin ca d'"
    using u
  proof (rule update_user_cases)
    assume "d' = d" then show ?thesis using assms by (simp add: admin_inv_def)
  next
    fix p u u'
    assume h: "require_role st cr ca (ur_now q) ADMIN False (ur_creds q) d = Inr p"
      "get_user d (ur_user q) = Some u" "\<not> own_access_change p u (ur_body q)"
      "apply_update ca (ur_body q) u = Inr u'" "d' = set_user (ur_user q) (\<lambda>_. u') d"
    show ?thesis
      using update_keeps_actor [OF wf laws h(1-4)] h(5) has_admin_lookup [OF wf'] by blast
  qed
  then show ?thesis using wf' laws u by (simp add: admin_inv_def admin_step_def)
qed

interpretation adm: step_invariant "admin_step st cr ca" "admin_inv ca" for st cr ca
  using admin_step_inv by unfold_locales

section \<open>Properties\<close>

definition sample_admin :: user where
  "sample_admin = sample_user\<lparr>u_role := 2\<rparr>"

lemma sample_admin_inv: "admin_inv sample_core_auth (sample_db\<lparr>users := [sample_admin]\<rparr>)"
proof -
  have "db_wf (sample_db\<lparr>users := [sample_admin]\<rparr>)"
    by (simp add: sample_db_def sample_admin_def db_wf_def keys_wf_def refs_wf_def empty_db_def
        unique_on_def unique_opt_on_def sample_user_def sample_agent_def)
  then show ?thesis
    using sample_role_laws
    by (simp add: admin_inv_def has_admin_def can_admin_def sample_admin_def sample_core_auth_def
        sample_user_def)
qed

text \<open>
  The platform never loses its last admin. Over any sequence of changes to accounts (roles,
  plans, deactivations) by any callers, if there was an active account with the admin role at the
  start, there is one at the end.
\<close>

theorem an_admin_remains:
  assumes "role_laws ca" and "db_wf d" and "has_admin ca d"
  shows "has_admin ca (run_steps (admin_step st cr ca) d requests) \<and>
    db_wf (run_steps (admin_step st cr ca) d requests)"
  using adm.run_keeps [of ca d st cr requests] assms by (simp add: admin_inv_def)

theorem an_admin_remains_witness:
  "has_admin sample_core_auth (run_steps (admin_step default_settings sample_crypto sample_core_auth)
     (sample_db\<lparr>users := [sample_admin]\<rparr>)
     [\<lparr>ur_now = 5, ur_creds = Some sample_token, ur_user = 1,
       ur_body = \<lparr>up_role = Some ''viewer'', up_plan = None, up_is_active = Some False\<rparr>\<rparr>])"
  by (rule an_admin_remains [THEN conjunct1]) (use sample_admin_inv in \<open>simp_all add: admin_inv_def\<close>)

text \<open>
  Changing an account takes an admin, and changes what was asked and nothing else. Unless the
  caller is an active account whose role allows ADMIN the database is unchanged; when a change is
  applied, the named account gets exactly the given role, plan and activity, keeps its e-mail and
  password, and every other account stays the same.
\<close>

theorem update_user_effect:
  assumes "db_wf d" and "update_user st cr ca now creds user_id b d = (d', out)" and "d' \<noteq> d"
  shows "(\<exists>p a. get_current_principal st cr ca now creds d = Inr p \<and>
      get_user d (p_user_id p) = Some a \<and> can_admin ca a) \<and>
    (\<exists>u u'. get_user d user_id = Some u \<and> get_user d' user_id = Some u' \<and>
      u_plan u' = (case up_plan b of None \<Rightarrow> u_plan u | Some x \<Rightarrow> x) \<and>
      u_is_active u' = (case up_is_active b of None \<Rightarrow> u_is_active u | Some x \<Rightarrow> x) \<and>
      (case up_role b of None \<Rightarrow> u_role u' = u_role u
         | Some s \<Rightarrow> \<exists>r. str_to_role s = Inr r \<and> u_role u' = role_value ca r) \<and>
      u_email u' = u_email u \<and> u_password_hash u' = u_password_hash u) \<and>
    (\<forall>v. v \<noteq> user_id \<longrightarrow> get_user d' v = get_user d v) \<and> agents d' = agents d"
  using assms(2)
proof (rule update_user_cases)
  fix p u u'
  assume h: "require_role st cr ca now ADMIN False creds d = Inr p" "get_user d user_id = Some u"
    "apply_update ca b u = Inr u'" "d' = set_user user_id (\<lambda>_. u') d"
  note e = apply_update_effect [OF h(3)]
  note s = set_user_const_wf [OF assms(1) h(2) e(1-3)]
  have "get_current_principal st cr ca now creds d = Inr p"
    using h(1) by (auto simp: require_role_def result_simps split: if_split_asm)
  moreover obtain a where "get_user d (p_user_id p) = Some a" "can_admin ca a"
    using required_role_user [OF assms(1) h(1)] by (auto simp: can_admin_iff)
  moreover have "agents d' = agents d" by (simp add: h(4))
  ultimately show ?thesis
    using h(2) s(2,3) e(2,4-7) unfolding h(4) by blast
qed (use assms(3) in simp)

lemma sample_admin_update:
  defines "d \<equiv> sample_db\<lparr>users := [sample_admin]\<rparr>"
  shows "update_user default_settings sample_crypto sample_core_auth 5 (Some sample_token) 1
      \<lparr>up_role = None, up_plan = Some ''pro'', up_is_active = None\<rparr> d =
    (d\<lparr>users := [sample_admin\<lparr>u_plan := ''pro''\<rparr>]\<rparr>, Inr \<lparr>au_id = 1, au_email = ''a'', au_name = ''A'',
      au_role = ''admin'', au_plan = ''pro'', au_is_active = True, au_agents = 1, au_created_at = 0\<rparr>)"
proof -
  have "authenticate_jwt default_settings sample_crypto sample_core_auth 5 sample_token d =
      Inr \<lparr>p_user_id = 1, p_email = ''a'', p_role = ADMIN, p_auth_method = Jwt, p_api_key_id = None\<rparr>"
    by (simp add: authenticate_jwt_def decode_access_token_def sample_crypto_def sample_decode_encode
        sample_token_def get_user_def d_def get_row_Cons sample_admin_def sample_user_def role_enum_def
        sample_core_auth_def)
  then have "require_role default_settings sample_crypto sample_core_auth 5 ADMIN False (Some sample_token) d =
      Inr \<lparr>p_user_id = 1, p_email = ''a'', p_role = ADMIN, p_auth_method = Jwt, p_api_key_id = None\<rparr>"
    by (simp add: require_role_def get_current_principal_def sample_token_shape sample_values)
      (simp add: sample_core_auth_def)
  moreover have "get_user d 1 = Some sample_admin"
    by (simp add: d_def get_user_def get_row_Cons sample_admin_def sample_user_def)
  ultimately show ?thesis
    by (simp add: update_user_def own_access_change_def apply_update_def Let_def)
      (simp add: d_def set_user_def update_row_def sample_admin_def sample_user_def admin_user_out_def
        role_enum_def sample_core_auth_def role_to_str_def ROLE_TO_STR_def agent_count_def sample_db_def
        sample_agent_def)
qed

theorem update_user_effect_witness:
  "\<exists>d' out u'. update_user default_settings sample_crypto sample_core_auth 5 (Some sample_token) 1
      \<lparr>up_role = None, up_plan = Some ''pro'', up_is_active = None\<rparr> (sample_db\<lparr>users := [sample_admin]\<rparr>) = (d', out) \<and>
    get_user d' 1 = Some u' \<and> u_plan u' = ''pro''"
proof -
  let ?d = "sample_db\<lparr>users := [sample_admin]\<rparr>"
  have wf: "db_wf ?d" using sample_admin_inv by (simp add: admin_inv_def)
  have ne: "?d\<lparr>users := [sample_admin\<lparr>u_plan := ''pro''\<rparr>]\<rparr> \<noteq> ?d"
  proof
    assume "?d\<lparr>users := [sample_admin\<lparr>u_plan := ''pro''\<rparr>]\<rparr> = ?d"
    then have "users (?d\<lparr>users := [sample_admin\<lparr>u_plan := ''pro''\<rparr>]\<rparr>) = users ?d" by (rule arg_cong)
    then show False by (simp add: sample_admin_def sample_user_def)
  qed
  show ?thesis
    using update_user_effect [OF wf sample_admin_update ne] sample_admin_update by auto
qed

text \<open>The script makes the first admin: any active account becomes one, and nothing else changes.\<close>

lemma script_makes_admin:
  assumes "role_laws ca" and "db_wf d" and "u \<in> set (users d)" and "u_is_active u" and "role_enum ca u = Inr r"
  shows "\<exists>d'. set_user_role ca (u_email u) ''admin'' d = Inr (Some d') \<and> db_wf d' \<and> has_admin ca d' \<and>
    get_user d' (u_id u) = Some (u\<lparr>u_role := role_value ca ADMIN\<rparr>) \<and>
    (\<forall>v. v \<noteq> u_id u \<longrightarrow> get_user d' v = get_user d v)"
proof -
  let ?d' = "set_user (u_id u) (\<lambda>v. v\<lparr>u_role := role_value ca ADMIN\<rparr>) d"
  have sel: "select_one (\<lambda>v. u_email v = u_email u) (users d) = Inr (Some u)"
    using get_row_unique [OF db_wfD(2) [OF assms(2)] assms(3)] db_wfD(2) [OF assms(2)] by (simp add: select_one_unique)
  have g: "get_user d (u_id u) = Some u"
    using get_row_unique [OF db_wfD(1) [OF assms(2)] assms(3)] by (simp add: get_user_def)
  then have g': "get_user ?d' (u_id u) = Some (u\<lparr>u_role := role_value ca ADMIN\<rparr>)" by simp
  have wf: "db_wf ?d'" using assms(2) by (subst set_user_wf) simp_all
  have "has_admin ca ?d'"
    using g' assms(1,4) unfolding has_admin_lookup [OF wf] by (auto simp: can_admin_def role_laws_def)
  then show ?thesis
    using sel assms(5) g' wf
    by (auto simp: set_user_role_def set_role_def str_to_role_def ROLE_TO_STR_def)
qed

end
