(* ===== verification/Billing.thy ===== *)
theory Billing
  imports Credentials
begin

text \<open>
  Stripe subscriptions (\<open>services/billing_service.py\<close>, \<open>routers/billing.py\<close>). Stripe itself is a
  parameter: the four calls of the client (each returns a value or raises) and the verification of
  a webhook's signature. An event is the JSON object of which the code reads the fields below; an
  absent field and JSON null are \<^term>\<open>None\<close>.
\<close>

section \<open>Stripe's side\<close>

record checkout_request =
  cq_mode :: string
  cq_customer :: string
  cq_client_reference_id :: string
  cq_price :: "string option"
  cq_quantity :: int
  cq_metadata_user_id :: string
  cq_allow_promotion_codes :: bool
  cq_success_url :: string
  cq_cancel_url :: string

record stripe_object =
  so_id :: "string option"
  so_customer :: "string option"
  so_status :: "string option"
  so_metadata_user_id :: "string option"
  so_client_reference_id :: "string option"
  so_mode :: "string option"
  so_subscription :: "string option"
  so_payment_status :: "string option"

record stripe_event =
  se_type :: string
  se_object :: stripe_object

record stripe_client =
  customers_create :: "string \<Rightarrow> string \<Rightarrow> string \<Rightarrow> string result"
  sessions_create :: "checkout_request \<Rightarrow> string result"
  portal_create :: "string \<Rightarrow> string \<Rightarrow> string result"
  subscriptions_retrieve :: "string \<Rightarrow> stripe_object result"

section \<open>billing\_service.py\<close>

definition PAID_PLAN :: string where
  "PAID_PLAN = ''pro''"

definition PAID_STATUSES :: "string list" where
  "PAID_STATUSES = [''active'', ''trialing'', ''past_due'']"

definition paid :: "string option \<Rightarrow> bool" where
  "paid status = (case status of None \<Rightarrow> False | Some s \<Rightarrow> s \<in> set PAID_STATUSES)"

definition plan_for_status :: "string option \<Rightarrow> string" where
  "plan_for_status status = (if paid status then PAID_PLAN else ''free'')"

definition console_url :: "settings \<Rightarrow> string \<Rightarrow> string" where
  "console_url st path = rstrip_by (\<lambda>c. c = CHR ''/'') (public_base_url st) @ path"

text \<open>UPDATE of an account and COMMIT, under the UNIQUE constraint of \<open>stripe_customer_id\<close>.\<close>

definition commit_user :: "uuid \<Rightarrow> (user \<Rightarrow> user) \<Rightarrow> db \<Rightarrow> db result" where
  "commit_user uid f d = (let d' = set_user uid f d in
     if unique_opt_on u_stripe_customer_id (users d') then Inr d' else Inl (Unhandled IntegrityError))"

definition ensure_customer :: "stripe_client \<Rightarrow> user \<Rightarrow> db \<Rightarrow> (db \<times> string) result" where
  "ensure_customer client u d =
     (if truthy (u_stripe_customer_id u) then Inr (d, the (u_stripe_customer_id u))
      else bind_result (customers_create client (u_email u) (u_name u) (uuid_str (u_id u))) (\<lambda>cid.
        bind_result (commit_user (u_id u) (\<lambda>v. v\<lparr>u_stripe_customer_id := Some cid\<rparr>) d) (\<lambda>d'.
          Inr (d', cid))))"

definition checkout_url :: "settings \<Rightarrow> stripe_client \<Rightarrow> user \<Rightarrow> db \<Rightarrow> db \<times> string result" where
  "checkout_url st client u d =
     (if paid (u_subscription_status u) then (d, Inl (BillingConflictError ''ALREADY_SUBSCRIBED''))
      else case ensure_customer client u d of
          Inl e \<Rightarrow> (d, Inl e)
        | Inr (d', cid) \<Rightarrow>
            (d', sessions_create client
               \<lparr>cq_mode = ''subscription'', cq_customer = cid, cq_client_reference_id = uuid_str (u_id u),
                cq_price = stripe_price_pro st, cq_quantity = 1, cq_metadata_user_id = uuid_str (u_id u),
                cq_allow_promotion_codes = True,
                cq_success_url = console_url st ''/settings?billing=success'',
                cq_cancel_url = console_url st ''/settings?billing=cancelled''\<rparr>))"

definition portal_url :: "settings \<Rightarrow> stripe_client \<Rightarrow> user \<Rightarrow> string result" where
  "portal_url st client u =
     (if \<not> truthy (u_stripe_customer_id u) then Inl (BillingConflictError ''NO_BILLING_ACCOUNT'')
      else portal_create client (the (u_stripe_customer_id u))
             (console_url st ''/settings?billing=portal''))"

definition find_user :: "db \<Rightarrow> string option \<Rightarrow> string option \<Rightarrow> user option result" where
  "find_user d user_id customer_id =
     (let by_id = (if truthy user_id then
            (case uuid_parse (the user_id) of None \<Rightarrow> None | Some uid \<Rightarrow> get_user d uid) else None)
      in if by_id \<noteq> None then Inr by_id
         else if truthy customer_id
         then select_one (\<lambda>u. u_stripe_customer_id u = customer_id) (users d)
         else Inr None)"

definition current_subscription :: "stripe_client option \<Rightarrow> stripe_object \<Rightarrow> stripe_object result" where
  "current_subscription client obj = (case client of
       None \<Rightarrow> Inr obj
     | Some c \<Rightarrow> if \<not> truthy (so_id obj) then Inr obj else subscriptions_retrieve c (the (so_id obj)))"

text \<open>\<open>x or y\<close> on optional strings.\<close>

definition py_or :: "string option \<Rightarrow> string option \<Rightarrow> string option" where
  "py_or x y = (if truthy x then x else y)"

definition apply_checkout :: "stripe_object \<Rightarrow> user \<Rightarrow> user" where
  "apply_checkout obj u =
     (let u1 = u\<lparr>u_stripe_customer_id := py_or (so_customer obj) (u_stripe_customer_id u),
                 u_stripe_subscription_id := py_or (so_subscription obj) (u_stripe_subscription_id u)\<rparr>
      in if so_payment_status obj \<in> {Some ''paid'', Some ''no_payment_required''}
         then u1\<lparr>u_subscription_status := Some ''active'', u_plan := PAID_PLAN\<rparr>
         else u1)"

definition apply_subscription :: "stripe_object \<Rightarrow> string option \<Rightarrow> user \<Rightarrow> user" where
  "apply_subscription obj status u =
     u\<lparr>u_stripe_customer_id := py_or (so_customer obj) (u_stripe_customer_id u),
       u_stripe_subscription_id := so_id obj,
       u_subscription_status := status,
       u_plan := plan_for_status status\<rparr>"

definition SUBSCRIPTION_EVENTS :: "string list" where
  "SUBSCRIPTION_EVENTS = [''customer.subscription.created'', ''customer.subscription.updated'',
     ''customer.subscription.deleted'']"

definition handle_event :: "stripe_event \<Rightarrow> stripe_client option \<Rightarrow> db \<Rightarrow> db result" where
  "handle_event event client d =
     (let event_type = se_type event; obj0 = se_object event in
      if event_type = ''checkout.session.completed'' then
        bind_result (find_user d (so_client_reference_id obj0) (so_customer obj0)) (\<lambda>found.
          case found of
            None \<Rightarrow> Inr d
          | Some u \<Rightarrow>
              if so_mode obj0 \<noteq> Some ''subscription'' then Inr d
              else commit_user (u_id u) (apply_checkout obj0) d)
      else if event_type \<in> set SUBSCRIPTION_EVENTS then
        bind_result
          (if event_type \<noteq> ''customer.subscription.deleted'' then current_subscription client obj0
           else Inr obj0) (\<lambda>obj.
        bind_result (find_user d (so_metadata_user_id obj) (so_customer obj)) (\<lambda>found.
          case found of
            None \<Rightarrow> Inr d
          | Some u \<Rightarrow>
              let status = (if event_type = ''customer.subscription.deleted'' then Some ''canceled''
                            else so_status obj)
              in if truthy (u_stripe_subscription_id u) \<and> so_id obj \<noteq> u_stripe_subscription_id u \<and>
                    \<not> paid status
                 then Inr d
                 else commit_user (u_id u) (apply_subscription obj status) d))
      else Inr d)"

section \<open>routers/billing.py\<close>

definition billing_enabled :: "settings \<Rightarrow> bool" where
  "billing_enabled st = (truthy (stripe_secret_key st) \<and> truthy (stripe_price_pro st))"

definition get_stripe_client :: "settings \<Rightarrow> (string \<Rightarrow> stripe_client) \<Rightarrow> stripe_client result" where
  "get_stripe_client st StripeClient =
     (if \<not> billing_enabled st then Inl BillingNotConfiguredError
      else Inr (StripeClient (the (stripe_secret_key st))))"

definition billing_user :: "db \<Rightarrow> principal \<Rightarrow> user result" where
  "billing_user d p = (case get_user d (p_user_id p) of
     None \<Rightarrow> Inl (AuthenticationError ''Invalid or expired token.'') | Some u \<Rightarrow> Inr u)"

record BillingStatus =
  bs_enabled :: bool
  bs_plan :: string
  bs_subscription_status :: "string option"
  bs_has_billing_account :: bool

definition billing_status ::
  "settings \<Rightarrow> crypto \<Rightarrow> core_auth \<Rightarrow> timestamp \<Rightarrow> string option \<Rightarrow> db \<Rightarrow> BillingStatus result" where
  "billing_status st cr ca now creds d =
     bind_result (get_current_principal st cr ca now creds d) (\<lambda>p.
     bind_result (billing_user d p) (\<lambda>u.
       Inr \<lparr>bs_enabled = billing_enabled st, bs_plan = u_plan u,
            bs_subscription_status = u_subscription_status u,
            bs_has_billing_account = (u_stripe_customer_id u \<noteq> None)\<rparr>))"

text \<open>The dependencies are resolved in order: the session first, then Stripe's configuration.\<close>

definition checkout ::
  "settings \<Rightarrow> crypto \<Rightarrow> core_auth \<Rightarrow> (string \<Rightarrow> stripe_client) \<Rightarrow> timestamp \<Rightarrow> string option \<Rightarrow> db \<Rightarrow>
   db \<times> string result" where
  "checkout st cr ca StripeClient now creds d =
     (case bind_result (require_role st cr ca now OPERATOR True creds d) (\<lambda>p.
           bind_result (get_stripe_client st StripeClient) (\<lambda>client.
           bind_result (billing_user d p) (\<lambda>u. Inr (client, u)))) of
        Inl e \<Rightarrow> (d, Inl e)
      | Inr (client, u) \<Rightarrow> checkout_url st client u d)"

definition portal ::
  "settings \<Rightarrow> crypto \<Rightarrow> core_auth \<Rightarrow> (string \<Rightarrow> stripe_client) \<Rightarrow> timestamp \<Rightarrow> string option \<Rightarrow> db \<Rightarrow>
   string result" where
  "portal st cr ca StripeClient now creds d =
     bind_result (require_role st cr ca now OPERATOR True creds d) (\<lambda>p.
     bind_result (get_stripe_client st StripeClient) (\<lambda>client.
     bind_result (billing_user d p) (\<lambda>u. portal_url st client u)))"

text \<open>
  \<open>verify payload signature secret\<close> stands for \<open>stripe.Webhook.construct_event\<close> not raising, and
  \<open>loads\<close> for \<open>json.loads\<close> and the reading of the event's fields.
\<close>

definition webhook ::
  "settings \<Rightarrow> (string \<Rightarrow> stripe_client) \<Rightarrow> (string \<Rightarrow> string \<Rightarrow> string \<Rightarrow> bool) \<Rightarrow>
   (string \<Rightarrow> stripe_event result) \<Rightarrow> string \<Rightarrow> string \<Rightarrow> db \<Rightarrow> db result" where
  "webhook st StripeClient verify loads payload signature d =
     (if \<not> truthy (stripe_webhook_secret st) then Inl BillingNotConfiguredError
      else if \<not> verify payload signature (the (stripe_webhook_secret st)) then Inl InvalidWebhookError
      else bind_result
        (if billing_enabled st then bind_result (get_stripe_client st StripeClient) (\<lambda>c. Inr (Some c))
         else Inr None) (\<lambda>client.
        bind_result (loads payload) (\<lambda>event. handle_event event client d)))"

section \<open>Specification\<close>

text \<open>An account with a subscription status is on the plan of that status.\<close>

definition plan_synced :: "user \<Rightarrow> bool" where
  "plan_synced u = (case u_subscription_status u of
     None \<Rightarrow> True | Some s \<Rightarrow> u_plan u = plan_for_status (Some s))"

definition billing_ok :: "db \<Rightarrow> bool" where
  "billing_ok d \<longleftrightarrow> db_wf d \<and> (\<forall>u \<in> set (users d). plan_synced u)"

text \<open>One delivery: the event, and the client through which Stripe's current state is read.\<close>

definition billing_step :: "db \<Rightarrow> stripe_event \<times> stripe_client option \<Rightarrow> db" where
  "billing_step d delivery = (case handle_event (fst delivery) (snd delivery) d of
     Inr d' \<Rightarrow> d' | Inl _ \<Rightarrow> d)"

text \<open>Everything of an account but its billing columns.\<close>

definition non_billing :: "user \<Rightarrow> user" where
  "non_billing u = u\<lparr>u_plan := [], u_stripe_customer_id := None, u_stripe_subscription_id := None,
     u_subscription_status := None\<rparr>"

section \<open>Lemmas\<close>

lemma apply_frames [simp]:
  "u_id (apply_checkout obj u) = u_id u" "u_email (apply_checkout obj u) = u_email u"
  "non_billing (apply_checkout obj u) = non_billing u"
  "u_id (apply_subscription obj status u) = u_id u" "u_email (apply_subscription obj status u) = u_email u"
  "non_billing (apply_subscription obj status u) = non_billing u"
  by (simp_all add: apply_checkout_def apply_subscription_def non_billing_def Let_def)

lemma apply_idem:
  "apply_checkout obj (apply_checkout obj u) = apply_checkout obj u"
  "apply_subscription obj status (apply_subscription obj status u) = apply_subscription obj status u"
  by (simp_all add: apply_checkout_def apply_subscription_def Let_def py_or_def)

lemma apply_synced:
  "plan_synced u \<Longrightarrow> plan_synced (apply_checkout obj u)" "plan_synced (apply_subscription obj status u)"
  by (auto simp: plan_synced_def apply_checkout_def apply_subscription_def Let_def plan_for_status_def
      paid_def PAID_STATUSES_def split: option.splits)

lemma update_row_idem:
  "(\<And>r. key (f r) = key r) \<Longrightarrow> (\<And>r. f (f r) = f r) \<Longrightarrow>
   update_row key k f (update_row key k f rows) = update_row key k f rows"
  by (simp add: update_row_def)

lemma commit_user_wf:
  assumes "commit_user uid f d = Inr d'" and "db_wf d" and "\<And>u. u_id (f u) = u_id u" "\<And>u. u_email (f u) = u_email u"
  shows "db_wf d'"
proof -
  have "d' = set_user uid f d" "unique_opt_on u_stripe_customer_id (users (set_user uid f d))"
    using assms(1) by (auto simp: commit_user_def Let_def split: if_split_asm)
  then show ?thesis
    using assms(2-4) by (simp add: db_wf_def keys_wf_def refs_wf_def set_user_def unique_on_update
        image_update_row_same)
qed

lemma commit_user_again:
  assumes "commit_user uid f d = Inr d'" and "\<And>u. u_id (f u) = u_id u" "\<And>u. f (f u) = f u"
  shows "commit_user uid f d' = Inr d'"
proof -
  have d': "d' = set_user uid f d" "unique_opt_on u_stripe_customer_id (users d')"
    using assms(1) by (auto simp: commit_user_def Let_def split: if_split_asm)
  have "set_user uid f d' = d'"
    by (simp add: d'(1) set_user_def update_row_idem assms(2,3))
  then show ?thesis using d'(2) by (simp add: commit_user_def)
qed

text \<open>Every way an event can take effect: not at all, or one of the two updates of one account.\<close>

lemma handle_event_cases:
  assumes "handle_event event client d = Inr d'"
  obtains "d' = d"
    | obj u where "se_type event = ''checkout.session.completed''" "obj = se_object event"
        "find_user d (so_client_reference_id obj) (so_customer obj) = Inr (Some u)"
        "so_mode obj = Some ''subscription''" "commit_user (u_id u) (apply_checkout obj) d = Inr d'"
    | obj u status where "se_type event \<in> set SUBSCRIPTION_EVENTS"
        "find_user d (so_metadata_user_id obj) (so_customer obj) = Inr (Some u)"
        "(if se_type event \<noteq> ''customer.subscription.deleted'' then current_subscription client (se_object event)
          else Inr (se_object event)) = Inr obj"
        "status = (if se_type event = ''customer.subscription.deleted'' then Some ''canceled'' else so_status obj)"
        "\<not> (truthy (u_stripe_subscription_id u) \<and> so_id obj \<noteq> u_stripe_subscription_id u \<and> \<not> paid status)"
        "commit_user (u_id u) (apply_subscription obj status) d = Inr d'"
proof (cases "se_type event = ''checkout.session.completed''")
  case True
  then show ?thesis
    using assms that(1,2) by (auto simp: handle_event_def Let_def result_simps split: option.split_asm if_split_asm)
next
  case False
  show ?thesis
  proof (cases "se_type event \<in> set SUBSCRIPTION_EVENTS")
    case True
    then obtain obj where obj: "(if se_type event \<noteq> ''customer.subscription.deleted''
        then current_subscription client (se_object event) else Inr (se_object event)) = Inr obj"
      using assms False by (auto simp: handle_event_def Let_def result_simps)
    then show ?thesis
      using assms False True that(1) that(3) [OF True _ obj]
      by (auto simp: handle_event_def Let_def result_simps split: option.split_asm if_split_asm)
  next
    case F2: False
    then show ?thesis using assms False that(1) by (simp add: handle_event_def Let_def)
  qed
qed

lemma commit_user_frame:
  assumes "commit_user uid f d = Inr d'" and "\<And>u. non_billing (f u) = non_billing u"
  shows "map non_billing (users d') = map non_billing (users d)" and "agents d' = agents d"
    and "api_keys d' = api_keys d" and "invites d' = invites d" and "access_keys d' = access_keys d"
    and "usage_hours d' = usage_hours d" and "\<forall>v. v \<noteq> uid \<longrightarrow> get_user d' v = get_user d v"
proof -
  have "users d' = update_row u_id uid f (users d)" and "d' = set_user uid f d"
    using assms(1) by (auto simp: commit_user_def Let_def split: if_split_asm)
  moreover have "u_id (f u) = u_id u" for u
    using arg_cong [OF assms(2), of u_id u] by (simp add: non_billing_def)
  ultimately show "map non_billing (users d') = map non_billing (users d)" "agents d' = agents d"
    "api_keys d' = api_keys d" "invites d' = invites d" "access_keys d' = access_keys d"
    "usage_hours d' = usage_hours d" "\<forall>v. v \<noteq> uid \<longrightarrow> get_user d' v = get_user d v"
    using assms(2) by (simp_all add: map_update_row_same) (simp_all add: set_user_def)
qed

lemma commit_user_synced:
  assumes "commit_user uid f d = Inr d'" and "billing_ok d" and "\<And>u. u_id (f u) = u_id u"
    "\<And>u. u_email (f u) = u_email u" "\<And>u. plan_synced u \<Longrightarrow> plan_synced (f u)"
  shows "billing_ok d'"
proof -
  have "users d' = update_row u_id uid f (users d)"
    using assms(1) by (auto simp: commit_user_def Let_def split: if_split_asm)
  then show ?thesis
    using commit_user_wf [OF assms(1)] assms(2-5) by (auto simp: billing_ok_def set_update_row)
qed

lemma billing_step_ok: "billing_ok d \<Longrightarrow> billing_ok (billing_step d delivery)"
proof (cases "handle_event (fst delivery) (snd delivery) d")
  case (Inr d')
  assume ok: "billing_ok d"
  from Inr have "billing_ok d'"
    by (rule handle_event_cases)
      (use ok in \<open>auto intro: commit_user_synced apply_synced\<close>)
  then show ?thesis using Inr by (simp add: billing_step_def)
qed (simp add: billing_step_def)

interpretation bill: step_invariant billing_step billing_ok
  using billing_step_ok by unfold_locales

text \<open>Example objects.\<close>

definition sample_subscription :: "string \<Rightarrow> stripe_object" where
  "sample_subscription status = \<lparr>so_id = Some ''sub_1'', so_customer = Some ''cus_1'',
     so_status = Some status, so_metadata_user_id = Some (uuid_str 1), so_client_reference_id = None,
     so_mode = None, so_subscription = None, so_payment_status = None\<rparr>"

definition sample_checkout :: stripe_object where
  "sample_checkout = \<lparr>so_id = Some ''cs_1'', so_customer = Some ''cus_1'', so_status = Some ''complete'',
     so_metadata_user_id = None, so_client_reference_id = Some (uuid_str 1),
     so_mode = Some ''subscription'', so_subscription = Some ''sub_1'', so_payment_status = Some ''paid''\<rparr>"

definition untouched :: "db \<Rightarrow> db \<Rightarrow> bool" where
  "untouched d d' \<longleftrightarrow> map non_billing (users d') = map non_billing (users d) \<and> agents d' = agents d \<and>
     api_keys d' = api_keys d \<and> invites d' = invites d \<and> access_keys d' = access_keys d \<and>
     usage_hours d' = usage_hours d"

lemma billing_step_untouched: "untouched d (billing_step d delivery)"
proof (cases "handle_event (fst delivery) (snd delivery) d")
  case (Inr d')
  from Inr have "untouched d d'"
    by (rule handle_event_cases) (auto simp: untouched_def dest: commit_user_frame(1-6))
  then show ?thesis using Inr by (simp add: billing_step_def)
qed (simp add: billing_step_def untouched_def)

lemma billing_run_untouched: "untouched d (run_steps billing_step d deliveries)"
proof (induction deliveries rule: rev_induct)
  case (snoc x xs)
  then show ?case
    using billing_step_untouched [of "run_steps billing_step d xs" x] by (simp add: untouched_def)
qed (simp add: untouched_def)

lemma select_one_unique_opt:
  assumes "unique_opt_on c rows" and "r \<in> set rows" and "c r = Some k"
  shows "select_one (\<lambda>r. c r = Some k) rows = Inr (Some r)"
proof -
  have "filter (\<lambda>r. c r = Some k) rows = [r]"
    using assms
  proof (induction rows)
    case (Cons x rows)
    have rec: "unique_opt_on c rows" and new: "c x = Some y \<Longrightarrow> y \<notin> the ` c ` {r \<in> set rows. c r \<noteq> None}" for y
      using Cons.prems(1) by (force simp: unique_opt_on_def split: if_split_asm)+
    show ?case
    proof (cases "c x = Some k")
      case True
      then have "filter (\<lambda>r. c r = Some k) rows = []"
        using new by (force simp: filter_empty_conv)
      moreover have "r = x"
        using Cons.prems(2,3) calculation by (auto simp: filter_empty_conv)
      ultimately show ?thesis using True by simp
    next
      case False
      then show ?thesis using Cons.IH [OF rec] Cons.prems(2,3) by auto
    qed
  qed simp
  then show ?thesis by (simp add: select_one_def one_or_none_def)
qed

text \<open>The account an event names is found again after the event was applied to it.\<close>

lemma find_user_again:
  assumes "find_user d user_id customer = Inr (Some u)" and "commit_user (u_id u) f d = Inr d'"
    and "\<And>v. u_id (f v) = u_id v" and "truthy customer \<Longrightarrow> u_stripe_customer_id (f u) = customer"
    and "db_wf d"
  shows "find_user d' user_id customer = Inr (Some (f u))"
proof -
  have d': "d' = set_user (u_id u) f d" "unique_opt_on u_stripe_customer_id (users d')"
    using assms(2) by (auto simp: commit_user_def Let_def split: if_split_asm)
  have get: "get_user d' v = (if v = u_id u then map_option f (get_user d v) else get_user d v)" for v
    using assms(3) by (simp add: d'(1))
  let ?by = "\<lambda>d. if truthy user_id then
      (case uuid_parse (the user_id) of None \<Rightarrow> None | Some uid \<Rightarrow> get_user d uid) else None"
  show ?thesis
  proof (cases "?by d")
    case (Some v)
    then have v: "v = u" using assms(1) by (simp add: find_user_def Let_def)
    then have "?by d' = Some (f u)"
      using Some get by (auto dest: get_user_Some split: if_split_asm option.split_asm)
    then show ?thesis by (simp add: find_user_def Let_def)
  next
    case None
    then have sel: "truthy customer" "select_one (\<lambda>u. u_stripe_customer_id u = customer) (users d) = Inr (Some u)"
      using assms(1) by (auto simp: find_user_def Let_def split: if_split_asm)
    have by': "?by d' = None" using None get by (auto split: if_split_asm option.split_asm)
    obtain c where c: "customer = Some c" using sel(1) by (cases customer) (auto simp: truthy_def)
    have "u \<in> set (users d)" using select_one_Some [OF sel(2)] by simp
    then have "f u \<in> set (users d')"
      using update_row_member [of u "users d" u_id "u_id u" f] by (simp add: d'(1))
    then have "select_one (\<lambda>u. u_stripe_customer_id u = customer) (users d') = Inr (Some (f u))"
      using select_one_unique_opt [OF d'(2)] assms(4) [OF sel(1)] c by simp
    then show ?thesis using by' sel(1) by (simp add: find_user_def Let_def)
  qed
qed

text \<open>Committing an account's new customer id fails exactly when another account has it.\<close>

lemma unique_opt_on_mid: "unique_opt_on c (xs @ r # ys) \<longleftrightarrow>
    unique_opt_on c (xs @ ys) \<and> (c r = None \<or> (\<forall>v \<in> set xs \<union> set ys. c v \<noteq> c r))"
  by (cases "c r") (auto simp: unique_opt_on_def image_iff)

lemma customer_unique_update:
  assumes "unique_on u_id us" and "unique_opt_on u_stripe_customer_id us" and "u \<in> set us"
  shows "unique_opt_on u_stripe_customer_id (update_row u_id (u_id u) g us) \<longleftrightarrow>
    u_stripe_customer_id (g u) = None \<or>
    (\<forall>v \<in> set us. u_id v \<noteq> u_id u \<longrightarrow> u_stripe_customer_id v \<noteq> u_stripe_customer_id (g u))"
proof -
  obtain xs ys where us: "us = xs @ u # ys" using split_list [OF assms(3)] by blast
  then have new: "u_id u \<notin> u_id ` set xs" "u_id u \<notin> u_id ` set ys"
    using assms(1) by (auto simp: unique_on_def)
  then have split: "\<forall>v \<in> set xs \<union> set ys. u_id v \<noteq> u_id u" by (metis Un_iff imageI)
  have "update_row u_id (u_id u) g us = xs @ g u # ys"
    using new update_row_absent [of "u_id u" u_id xs g] update_row_absent [of "u_id u" u_id ys g]
    by (simp add: us update_row_def)
  then show ?thesis
    using assms(2) split by (simp add: us unique_opt_on_mid)
qed

lemma commit_subscription:
  assumes "db_wf d" and "u \<in> set (users d)"
  shows "commit_user (u_id u) (apply_subscription obj status) d =
    (if truthy (so_customer obj) \<and>
        (\<exists>v \<in> set (users d). u_id v \<noteq> u_id u \<and> u_stripe_customer_id v = so_customer obj)
     then Inl (Unhandled IntegrityError)
     else Inr (d\<lparr>users := map (\<lambda>v. if u_id v = u_id u then u\<lparr>
         u_stripe_customer_id := py_or (so_customer obj) (u_stripe_customer_id u),
         u_stripe_subscription_id := so_id obj, u_subscription_status := status,
         u_plan := plan_for_status status\<rparr> else v) (users d)\<rparr>))"
proof -
  note wf = db_wfD(1) [OF assms(1)]
  have cust: "unique_opt_on u_stripe_customer_id (users d)"
    using assms(1) by (simp add: db_wf_def keys_wf_def)
  have same: "v = u" if "v \<in> set (users d)" "u_id v = u_id u" for v
    using get_row_unique [OF wf assms(2)] get_row_unique [OF wf that(1)] that(2) by simp
  have own: "u_stripe_customer_id u = None \<or>
      (\<forall>v \<in> set (users d). u_id v \<noteq> u_id u \<longrightarrow> u_stripe_customer_id v \<noteq> u_stripe_customer_id u)"
    using customer_unique_update [OF wf cust assms(2), of "\<lambda>v. v"] cust by (simp add: update_row_def)
  have rows: "update_row u_id (u_id u) (apply_subscription obj status) (users d) =
      map (\<lambda>v. if u_id v = u_id u then apply_subscription obj status u else v) (users d)"
    unfolding update_row_def using same by (auto intro!: map_cong)
  have "unique_opt_on u_stripe_customer_id (update_row u_id (u_id u) (apply_subscription obj status) (users d)) \<longleftrightarrow>
      \<not> (truthy (so_customer obj) \<and>
        (\<exists>v \<in> set (users d). u_id v \<noteq> u_id u \<and> u_stripe_customer_id v = so_customer obj))"
    unfolding customer_unique_update [OF wf cust assms(2)]
    using own by (auto simp: apply_subscription_def py_or_def truthy_def split: option.splits)
  then show ?thesis
    by (simp add: commit_user_def set_user_def rows apply_subscription_def Let_def)
qed

section \<open>Properties\<close>

text \<open>
  C3: plans follow subscriptions, and billing touches nothing else. Whatever events Stripe delivers,
  in whatever order and however often, every account that has a subscription status is on the plan
  of that status (pro while active, trialing or past due, free otherwise), the schema's constraints
  hold, and no event changes anything but the billing columns of accounts: no other column of an
  account, and no agent, key, invite or usage row.
\<close>

theorem plan_follows_subscription:
  assumes "billing_ok d"
  shows "billing_ok (run_steps billing_step d deliveries) \<and>
    map non_billing (users (run_steps billing_step d deliveries)) = map non_billing (users d) \<and>
    agents (run_steps billing_step d deliveries) = agents d \<and>
    api_keys (run_steps billing_step d deliveries) = api_keys d \<and>
    access_keys (run_steps billing_step d deliveries) = access_keys d \<and>
    invites (run_steps billing_step d deliveries) = invites d \<and>
    usage_hours (run_steps billing_step d deliveries) = usage_hours d"
  using bill.run_keeps [OF assms] billing_run_untouched [of d deliveries] by (simp add: untouched_def)

theorem plan_follows_subscription_witness:
  "billing_ok (run_steps billing_step sample_db
     [(\<lparr>se_type = ''customer.subscription.updated'', se_object = sample_subscription ''active''\<rparr>, None),
      (\<lparr>se_type = ''customer.subscription.deleted'', se_object = sample_subscription ''canceled''\<rparr>, None)])"
proof -
  have "billing_ok sample_db"
    using sample_db_wf by (simp add: billing_ok_def sample_db_def sample_user_def plan_synced_def)
  then show ?thesis by (rule plan_follows_subscription [THEN conjunct1])
qed

text \<open>
  C26: each subscription event does what it should, and only that. For an event of a known account,
  read through Stripe's current state unless it is a deletion: when the account has another
  subscription and this one is not paid for, nothing changes. Otherwise the account takes over the
  customer (if the event names one), the subscription, its status (canceled for a deletion) and the
  plan of that status: pro while active, trialing or past due, free otherwise. No other column of
  the account, no other account and no other table changes, and the one way it fails is that the
  customer is already another account's.
\<close>

theorem subscription_event_effect:
  assumes "se_type event \<in> set SUBSCRIPTION_EVENTS"
    and "(if se_type event \<noteq> ''customer.subscription.deleted'' then current_subscription client (se_object event)
          else Inr (se_object event)) = Inr obj"
    and "find_user d (so_metadata_user_id obj) (so_customer obj) = Inr (Some u)"
    and "status = (if se_type event = ''customer.subscription.deleted'' then Some ''canceled'' else so_status obj)"
    and "db_wf d"
  shows "handle_event event client d =
    (if truthy (u_stripe_subscription_id u) \<and> so_id obj \<noteq> u_stripe_subscription_id u \<and>
        status \<notin> {Some ''active'', Some ''trialing'', Some ''past_due''} then Inr d
     else if truthy (so_customer obj) \<and>
        (\<exists>v \<in> set (users d). u_id v \<noteq> u_id u \<and> u_stripe_customer_id v = so_customer obj)
     then Inl (Unhandled IntegrityError)
     else Inr (d\<lparr>users := map (\<lambda>v. if u_id v = u_id u then u\<lparr>
         u_stripe_customer_id := (if truthy (so_customer obj) then so_customer obj else u_stripe_customer_id u),
         u_stripe_subscription_id := so_id obj,
         u_subscription_status := status,
         u_plan := (if status \<in> {Some ''active'', Some ''trialing'', Some ''past_due''} then ''pro'' else ''free'')\<rparr>
       else v) (users d)\<rparr>))"
proof -
  have "se_type event \<noteq> ''checkout.session.completed''"
    using assms(1) by (auto simp: SUBSCRIPTION_EVENTS_def)
  then have h: "handle_event event client d =
      (if truthy (u_stripe_subscription_id u) \<and> so_id obj \<noteq> u_stripe_subscription_id u \<and> \<not> paid status
       then Inr d else commit_user (u_id u) (apply_subscription obj status) d)"
    using assms(1-4) by (simp add: handle_event_def Let_def)
  have u: "u \<in> set (users d)"
    using assms(3) by (auto simp: find_user_def Let_def get_user_def dest!: select_one_Some dest: get_row_Some
        split: if_split_asm option.split_asm)
  have paid: "paid status \<longleftrightarrow> status \<in> {Some ''active'', Some ''trialing'', Some ''past_due''}"
    by (auto simp: paid_def PAID_STATUSES_def split: option.split)
  show ?thesis
    unfolding h commit_subscription [OF assms(5) u] paid [symmetric]
    by (simp add: plan_for_status_def PAID_PLAN_def py_or_def)
qed

lemma sample_commit: "commit_user 1 g sample_db = Inr (set_user 1 g sample_db)"
  by (simp add: commit_user_def sample_db_def sample_user_def update_row_def unique_opt_on_def)

lemma sample_updated:
  "handle_event \<lparr>se_type = ''customer.subscription.updated'', se_object = sample_subscription ''active''\<rparr> None sample_db =
   Inr (set_user 1 (apply_subscription (sample_subscription ''active'') (Some ''active'')) sample_db)"
  "find_user sample_db (Some (uuid_str 1)) (Some ''cus_1'') = Inr (Some sample_user)"
proof -
  have f: "find_user sample_db (Some (uuid_str 1)) (Some ''cus_1'') = Inr (Some sample_user)"
    using uuid_parse_str [of 1] sample_values(1)
    by (cases "uuid_str 1") (auto simp: find_user_def Let_def truthy_def uuid_str_def)
  show "find_user sample_db (Some (uuid_str 1)) (Some ''cus_1'') = Inr (Some sample_user)" by (rule f)
  show "handle_event \<lparr>se_type = ''customer.subscription.updated'', se_object = sample_subscription ''active''\<rparr> None sample_db =
      Inr (set_user 1 (apply_subscription (sample_subscription ''active'') (Some ''active'')) sample_db)"
    using f by (simp add: handle_event_def SUBSCRIPTION_EVENTS_def current_subscription_def
        sample_subscription_def Let_def truthy_def) (simp add: sample_user_def sample_commit)
qed

theorem subscription_event_effect_witness:
  "\<exists>d' u'. handle_event \<lparr>se_type = ''customer.subscription.updated'', se_object = sample_subscription ''active''\<rparr>
      None sample_db = Inr d' \<and> get_user d' 1 = Some u' \<and> u_plan u' = ''pro''"
proof -
  have "u_stripe_subscription_id sample_user = None" "u_id sample_user = 1"
    by (simp_all add: sample_user_def)
  then show ?thesis
    using subscription_event_effect [OF _ _ _ refl sample_db_wf,
        of "\<lparr>se_type = ''customer.subscription.updated'', se_object = sample_subscription ''active''\<rparr>" None
          "sample_subscription ''active''" sample_user] sample_updated(2)
    by (auto simp: SUBSCRIPTION_EVENTS_def current_subscription_def truthy_def sample_subscription_def
        sample_db_def get_user_def get_row_Cons)
qed

text \<open>
  C27: redelivered events are harmless. Stripe may deliver an event more than once; applying an event
  that has just been applied (with Stripe's state unchanged) succeeds and changes nothing.
\<close>

theorem event_delivery_idempotent:
  assumes "db_wf d" and "handle_event event client d = Inr d'"
  shows "handle_event event client d' = Inr d'"
  using assms(2)
proof (rule handle_event_cases)
  assume "d' = d" then show ?thesis using assms(2) by simp
next
  fix obj u
  assume h: "se_type event = ''checkout.session.completed''" "obj = se_object event"
    "find_user d (so_client_reference_id obj) (so_customer obj) = Inr (Some u)"
    "so_mode obj = Some ''subscription''" "commit_user (u_id u) (apply_checkout obj) d = Inr d'"
  have "find_user d' (so_client_reference_id obj) (so_customer obj) = Inr (Some (apply_checkout obj u))"
    using h(3,5) by (rule find_user_again) (auto simp: apply_checkout_def Let_def py_or_def assms(1))
  then show ?thesis
    using h commit_user_again [OF h(5)] by (simp add: handle_event_def apply_idem)
next
  fix obj u status
  assume h: "se_type event \<in> set SUBSCRIPTION_EVENTS"
    "find_user d (so_metadata_user_id obj) (so_customer obj) = Inr (Some u)"
    "(if se_type event \<noteq> ''customer.subscription.deleted'' then current_subscription client (se_object event)
      else Inr (se_object event)) = Inr obj"
    "status = (if se_type event = ''customer.subscription.deleted'' then Some ''canceled'' else so_status obj)"
    "commit_user (u_id u) (apply_subscription obj status) d = Inr d'"
  have "find_user d' (so_metadata_user_id obj) (so_customer obj) = Inr (Some (apply_subscription obj status u))"
    using h(2,5) by (rule find_user_again) (auto simp: apply_subscription_def py_or_def assms(1))
  moreover have "u_stripe_subscription_id (apply_subscription obj status u) = so_id obj"
    by (simp add: apply_subscription_def)
  moreover have "se_type event \<noteq> ''checkout.session.completed''"
    using h(1) by (auto simp: SUBSCRIPTION_EVENTS_def)
  ultimately show ?thesis
    using h(1,3,4) commit_user_again [OF h(5)] by (simp add: handle_event_def Let_def apply_idem)
qed

theorem event_delivery_idempotent_witness:
  "handle_event \<lparr>se_type = ''customer.subscription.updated'', se_object = sample_subscription ''active''\<rparr> None
     (set_user 1 (apply_subscription (sample_subscription ''active'') (Some ''active'')) sample_db) =
   Inr (set_user 1 (apply_subscription (sample_subscription ''active'') (Some ''active'')) sample_db)"
  by (rule event_delivery_idempotent [OF sample_db_wf sample_updated(1)])

text \<open>
  C39: a checkout event that arrives after the subscription has ended grants the paid plan again.
  Unlike the subscription events, \<open>checkout.session.completed\<close> is applied from its own snapshot: for
  an account whose subscription was deleted, a paid checkout that is delivered (again) sets the
  status to active and the plan to pro.
\<close>

theorem late_checkout_regrants:
  assumes "handle_event \<lparr>se_type = ''checkout.session.completed'', se_object = obj\<rparr> client d = Inr d'"
    and "find_user d (so_client_reference_id obj) (so_customer obj) = Inr (Some u)" and "db_wf d"
    and "so_mode obj = Some ''subscription''" and "so_payment_status obj = Some ''paid''"
  shows "\<exists>u'. get_user d' (u_id u) = Some u' \<and> u_plan u' = ''pro'' \<and> u_subscription_status u' = Some ''active''"
proof -
  have c: "commit_user (u_id u) (apply_checkout obj) d = Inr d'"
    using assms(1,2,4) by (simp add: handle_event_def)
  have "get_user d (u_id u) = Some u"
    using assms(2) get_row_unique [OF db_wfD(1) [OF assms(3)]]
    by (auto simp: find_user_def Let_def get_user_def dest!: select_one_Some dest: get_row_Some
        split: if_split_asm option.split_asm)
  moreover have "get_user d' (u_id u) = map_option (apply_checkout obj) (get_user d (u_id u))"
    using c by (auto simp: commit_user_def Let_def split: if_split_asm)
  ultimately show ?thesis
    using assms(5) by (simp add: apply_checkout_def PAID_PLAN_def Let_def)
qed

theorem late_checkout_regrants_witness:
  "\<exists>d1 d2 d3 u1 u2. handle_event \<lparr>se_type = ''customer.subscription.deleted'', se_object = sample_subscription ''canceled''\<rparr>
      None sample_db = Inr d1 \<and> get_user d1 1 = Some u1 \<and> u_plan u1 = ''free'' \<and>
    handle_event \<lparr>se_type = ''checkout.session.completed'', se_object = sample_checkout\<rparr> None d1 = Inr d2 \<and>
    get_user d2 1 = Some u2 \<and> u_plan u2 = ''pro''"
proof -
  let ?u1 = "apply_subscription (sample_subscription ''canceled'') (Some ''canceled'') sample_user"
  let ?d1 = "set_user 1 (apply_subscription (sample_subscription ''canceled'') (Some ''canceled'')) sample_db"
  have us: "users (set_user 1 g sample_db) = [g sample_user]" for g
    by (simp add: sample_db_def sample_user_def update_row_def)
  have e1: "handle_event \<lparr>se_type = ''customer.subscription.deleted'', se_object = sample_subscription ''canceled''\<rparr>
      None sample_db = Inr ?d1"
    using sample_updated(2)
    by (simp add: handle_event_def SUBSCRIPTION_EVENTS_def sample_subscription_def Let_def truthy_def)
      (simp add: sample_user_def sample_commit)
  have u1: "get_user ?d1 1 = Some ?u1" "u_plan ?u1 = ''free''" "u_id ?u1 = 1"
    using sample_values(1) by (simp_all add: apply_subscription_def plan_for_status_def paid_def
        PAID_STATUSES_def sample_user_def)
  have wf: "db_wf ?d1"
    by (rule commit_user_wf [OF sample_commit sample_db_wf]) simp_all
  have f: "find_user ?d1 (so_client_reference_id sample_checkout) (so_customer sample_checkout) = Inr (Some ?u1)"
    using uuid_parse_str [of 1] u1(1)
    by (cases "uuid_str 1") (auto simp: find_user_def Let_def truthy_def uuid_str_def sample_checkout_def)
  have e2: "handle_event \<lparr>se_type = ''checkout.session.completed'', se_object = sample_checkout\<rparr> None ?d1 =
      Inr (set_user 1 (apply_checkout sample_checkout) ?d1)"
    using f u1(3) us
    by (simp add: handle_event_def commit_user_def update_row_def unique_opt_on_def)
      (simp add: sample_checkout_def)
  show ?thesis
    using late_checkout_regrants [OF e2 f wf] e1 e2 u1 by (fastforce simp: sample_checkout_def)
qed

text \<open>
  C28: only Stripe can drive billing. A webhook whose signature does not verify, or on a server
  without a webhook secret, raises (400 or 503) and so changes nothing; a database change through
  the webhook comes from a payload verified with the configured secret.
\<close>

theorem webhook_only_verified:
  "(case webhook st StripeClient verify loads payload signature d of
      Inr d' \<Rightarrow> truthy (stripe_webhook_secret st) \<and>
        verify payload signature (the (stripe_webhook_secret st)) \<and>
        (\<exists>event client. loads payload = Inr event \<and> handle_event event client d = Inr d')
    | Inl e \<Rightarrow>
        if \<not> truthy (stripe_webhook_secret st) then er_status (handle_exception rid e) = 503
        else if \<not> verify payload signature (the (stripe_webhook_secret st))
        then er_status (handle_exception rid e) = 400 else True)"
proof (cases "webhook st StripeClient verify loads payload signature d")
  case (Inl e)
  then show ?thesis
    by (auto simp: webhook_def error_defs split: if_split_asm)
next
  case (Inr d')
  then show ?thesis
    by (auto simp: webhook_def result_simps split: if_split_asm)
qed

text \<open>
  An account gets one Stripe customer. Once a customer was created for an account it is stored,
  and every later checkout uses the stored one without asking Stripe for another.
\<close>

theorem customer_created_once:
  assumes "db_wf d" and "get_user d uid = Some u" and "ensure_customer client u d = Inr (d', cid)" and "cid \<noteq> []"
  shows "\<exists>u'. get_user d' uid = Some u' \<and> u_stripe_customer_id u' = Some cid \<and> db_wf d' \<and>
    (\<forall>client2. ensure_customer client2 u' d' = Inr (d', cid))"
proof (cases "truthy (u_stripe_customer_id u)")
  case True
  then show ?thesis
    using assms by (auto simp: ensure_customer_def truthy_def split: option.splits)
next
  case False
  then have c: "commit_user (u_id u) (\<lambda>v. v\<lparr>u_stripe_customer_id := Some cid\<rparr>) d = Inr d'"
    using assms(3) by (auto simp: ensure_customer_def result_simps)
  have "get_user d' uid = Some (u\<lparr>u_stripe_customer_id := Some cid\<rparr>)"
    using c assms(2) get_user_Some [OF assms(2)]
    by (auto simp: commit_user_def Let_def split: if_split_asm)
  then show ?thesis
    using commit_user_wf [OF c assms(1)] assms(4) by (auto simp: ensure_customer_def truthy_def)
qed

theorem customer_created_once_witness:
  "\<exists>d' u'. ensure_customer \<lparr>customers_create = (\<lambda>e n m. Inr ''cus_1''), sessions_create = (\<lambda>r. Inr ''url''),
      portal_create = (\<lambda>c r. Inr ''url''), subscriptions_retrieve = (\<lambda>i. Inl (Unhandled KeyError))\<rparr>
      sample_user sample_db = Inr (d', ''cus_1'') \<and>
    get_user d' 1 = Some u' \<and> u_stripe_customer_id u' = Some ''cus_1''"
  (is "\<exists>d' u'. ensure_customer ?c _ _ = _ \<and> _")
proof -
  have "ensure_customer ?c sample_user sample_db =
      Inr (set_user 1 (\<lambda>v. v\<lparr>u_stripe_customer_id := Some ''cus_1''\<rparr>) sample_db, ''cus_1'')"
    by (simp add: ensure_customer_def commit_user_def sample_user_def truthy_def sample_db_def
        update_row_def unique_opt_on_def)
  with customer_created_once [OF sample_db_wf sample_values(1) this] show ?thesis by auto
qed

end
