(* ===== verification/Ingress_Limits.thy ===== *)
theory Ingress_Limits
  imports Gateway_Prelude
begin

text \<open>
  The in-memory fixed-window rate limiter of \<open>security/ingress_limits.py\<close>. The clock is a
  parameter of each hit (\<open>time.time()\<close> in seconds, a rational). The abstract specification keeps
  the whole history of accepted hits and accepts one when fewer than the limit were accepted in
  the same window for the same key; the limiter, which only remembers the current window, is shown
  to implement it on every run whose clock does not go back.
\<close>

section \<open>FixedWindowLimiter\<close>

record limiter =
  lm_window_seconds :: int
  lm_window :: int
  lm_counts :: "string \<rightharpoonup> int"

definition new_limiter :: "int \<Rightarrow> limiter" where
  "new_limiter window_seconds =
     \<lparr>lm_window_seconds = window_seconds, lm_window = -1, lm_counts = Map.empty\<rparr>"

definition window_of :: "int \<Rightarrow> seconds \<Rightarrow> int" where
  "window_of window_seconds now = floor (now / of_int window_seconds)"

definition enter_window :: "int \<Rightarrow> limiter \<Rightarrow> limiter" where
  "enter_window w s = (if w \<noteq> lm_window s then s\<lparr>lm_window := w, lm_counts := Map.empty\<rparr> else s)"

definition count_of :: "limiter \<Rightarrow> string \<Rightarrow> int" where
  "count_of s key = (case lm_counts s key of None \<Rightarrow> 0 | Some c \<Rightarrow> c)"

definition hit :: "seconds \<Rightarrow> string \<Rightarrow> int \<Rightarrow> limiter \<Rightarrow> int option \<times> limiter" where
  "hit now key limit s0 =
     (let w = window_of (lm_window_seconds s0) now;
          s = enter_window w s0;
          count = count_of s key
      in if limit \<le> count
         then (Some (max 1 (ceiling (of_int ((w + 1) * lm_window_seconds s) - now))), s)
         else (None, s\<lparr>lm_counts := (lm_counts s)(key \<mapsto> count + 1)\<rparr>))"

definition reset :: "limiter \<Rightarrow> limiter" where
  "reset s = s\<lparr>lm_counts := Map.empty\<rparr>"

type_synonym hit_event = "seconds \<times> string \<times> int"

text \<open>A sequence of hits: the answers, in order, and the final state.\<close>

fun run_hits :: "(seconds \<Rightarrow> string \<Rightarrow> int \<Rightarrow> 's \<Rightarrow> int option \<times> 's) \<Rightarrow> 's \<Rightarrow> hit_event list \<Rightarrow> int option list \<times> 's" where
  "run_hits h s [] = ([], s)"
| "run_hits h s ((t, k, l) # es) =
     (let (r, s1) = h t k l s; (rs, s2) = run_hits h s1 es in (r # rs, s2))"

section \<open>The specification\<close>

text \<open>
  Which hits are accepted, given the accepted hits so far as pairs of window and key.
\<close>

fun spec_hits :: "int \<Rightarrow> (int \<times> string) list \<Rightarrow> hit_event list \<Rightarrow> bool list" where
  "spec_hits ws h [] = []"
| "spec_hits ws h ((t, k, l) # es) =
     (let w = window_of ws t; ok = int (count_list h (w, k)) < l
      in ok # spec_hits ws (if ok then (w, k) # h else h) es)"

text \<open>The accepted hits of a run, as pairs of window and key.\<close>

definition accepted_hits :: "int \<Rightarrow> hit_event list \<Rightarrow> bool list \<Rightarrow> (int \<times> string) list" where
  "accepted_hits ws es oks =
     map (\<lambda>((t, k, l), ok). (window_of ws t, k)) (filter snd (zip es oks))"

section \<open>One hit\<close>

lemma hit_simps:
  "fst (hit now key limit s) = None \<longleftrightarrow> count_of (enter_window (window_of (lm_window_seconds s) now) s) key < limit"
  "lm_window_seconds (snd (hit now key limit s)) = lm_window_seconds s"
  "lm_window (snd (hit now key limit s)) = window_of (lm_window_seconds s) now"
  by (auto simp: hit_def Let_def enter_window_def)

lemma count_after_hit:
  "count_of (snd (hit now key limit s)) k =
     count_of (enter_window (window_of (lm_window_seconds s) now) s) k +
     (if k = key \<and> fst (hit now key limit s) = None then 1 else 0)"
  by (auto simp: hit_def Let_def count_of_def)

lemma window_bounds:
  assumes "0 < ws"
  shows "of_int (window_of ws now * ws) \<le> now" and "now < of_int ((window_of ws now + 1) * ws)"
proof -
  have pos: "(0::rat) < of_int ws" using assms by simp
  have "of_int (window_of ws now) \<le> now / of_int ws" and "now / of_int ws < of_int (window_of ws now) + 1"
    unfolding window_of_def by linarith+
  then show "of_int (window_of ws now * ws) \<le> now" and "now < of_int ((window_of ws now + 1) * ws)"
    using pos by (simp_all add: pos_le_divide_eq pos_divide_less_eq)
qed

lemma window_of_mono: "0 < ws \<Longrightarrow> s \<le> t \<Longrightarrow> window_of ws s \<le> window_of ws t"
  unfolding window_of_def by (intro floor_mono divide_right_mono) simp_all

lemma window_of_next:
  assumes "0 < ws" and "of_int ((w + 1) * ws) \<le> t"
  shows "w < window_of ws t"
proof -
  have "of_int (w + 1) \<le> t / (of_int ws :: rat)"
    using assms by (simp add: pos_le_divide_eq)
  then show ?thesis unfolding window_of_def by linarith
qed

lemma refused_retry:
  assumes "0 < lm_window_seconds s" and "hit now key limit s = (Some r, s')"
  shows "1 \<le> r" and "r \<le> lm_window_seconds s"
    and "window_of (lm_window_seconds s) now < window_of (lm_window_seconds s) (now + of_int r)"
proof -
  let ?ws = "lm_window_seconds s" and ?w = "window_of (lm_window_seconds s) now"
  have r: "r = max 1 (ceiling (of_int ((?w + 1) * ?ws) - now))"
    using assms(2) by (auto simp: hit_def Let_def enter_window_def split: if_splits)
  then show "1 \<le> r" by simp
  have "of_int ((?w + 1) * ?ws) - now \<le> of_int ?ws"
    using window_bounds(1) [OF assms(1), of now] by (simp add: algebra_simps)
  then show "r \<le> ?ws" using assms(1) by (simp add: r ceiling_le)
  have "of_int ((?w + 1) * ?ws) - now \<le> of_int r"
    unfolding r by linarith
  then show "?w < window_of ?ws (now + of_int r)"
    by (intro window_of_next assms(1)) linarith
qed

section \<open>The contract a client of a limiter relies on\<close>

text \<open>
  \<open>used t s k\<close> is how many hits of \<open>k\<close> the state has counted in the window of time \<open>t\<close>. A client
  (the ingress route) relies on these laws only.
\<close>

locale rate_limiter =
  fixes hit_op :: "seconds \<Rightarrow> string \<Rightarrow> int \<Rightarrow> 's \<Rightarrow> int option \<times> 's"
    and used :: "seconds \<Rightarrow> 's \<Rightarrow> string \<Rightarrow> int"
    and inv :: "'s \<Rightarrow> bool"
  assumes accept_iff: "inv s \<Longrightarrow> fst (hit_op t k l s) = None \<longleftrightarrow> used t s k < l"
    and used_after: "inv s \<Longrightarrow> used t (snd (hit_op t k l s)) j =
      used t s j + (if j = k \<and> fst (hit_op t k l s) = None then 1 else 0)"
    and inv_hit: "inv s \<Longrightarrow> inv (snd (hit_op t k l s))"
    and retry_pos: "inv s \<Longrightarrow> fst (hit_op t k l s) = Some r \<Longrightarrow> 1 \<le> r"
begin

text \<open>A burst of hits of one key at one time: exactly the remaining allowance is accepted.\<close>

lemma burst:
  assumes "inv s"
  shows "length (filter (\<lambda>r. r = None) (fst (run_hits hit_op s (replicate n (t, k, l))))) =
    min n (nat (l - used t s k))"
  using assms
proof (induction n arbitrary: s)
  case (Suc n)
  let ?s = "snd (hit_op t k l s)"
  have IH: "length (filter (\<lambda>r. r = None) (fst (run_hits hit_op ?s (replicate n (t, k, l))))) =
      min n (nat (l - used t ?s k))"
    using Suc.IH [OF inv_hit [OF Suc.prems]] .
  show ?case
    using IH accept_iff [OF Suc.prems, of t k l] used_after [OF Suc.prems, of t k l k]
    by (auto simp: split_beta Let_def)
qed simp

text \<open>A refused hit changes no allowance, and an accepted one only its own key's.\<close>

lemma other_keys_untouched: "inv s \<Longrightarrow> j \<noteq> k \<Longrightarrow> used t (snd (hit_op t k l s)) j = used t s j"
  by (simp add: used_after)

lemma refused_untouched: "inv s \<Longrightarrow> fst (hit_op t k l s) = Some r \<Longrightarrow> used t (snd (hit_op t k l s)) j = used t s j"
  by (simp add: used_after)

end

definition window_used :: "seconds \<Rightarrow> limiter \<Rightarrow> string \<Rightarrow> int" where
  "window_used t s k = count_of (enter_window (window_of (lm_window_seconds s) t) s) k"

definition limiter_ok :: "limiter \<Rightarrow> bool" where
  "limiter_ok s \<longleftrightarrow> 0 < lm_window_seconds s"

lemma enter_window_hit:
  "enter_window (window_of (lm_window_seconds s) t) (snd (hit t k l s)) = snd (hit t k l s)"
  by (simp add: enter_window_def hit_simps)

interpretation fw: rate_limiter hit window_used limiter_ok
proof unfold_locales
  fix s t k l j
  assume ok: "limiter_ok s"
  show "fst (hit t k l s) = None \<longleftrightarrow> window_used t s k < l"
    by (simp add: hit_simps window_used_def)
  show "window_used t (snd (hit t k l s)) j =
      window_used t s j + (if j = k \<and> fst (hit t k l s) = None then 1 else 0)"
    by (simp add: window_used_def enter_window_hit hit_simps(2) count_after_hit)
  show "limiter_ok (snd (hit t k l s))"
    using ok by (simp add: limiter_ok_def hit_simps)
next
  fix s t k l r
  assume "limiter_ok s" "fst (hit t k l s) = Some r"
  then show "1 \<le> r"
    using refused_retry(1) [of s t k l r "snd (hit t k l s)"]
    by (simp add: limiter_ok_def prod_eq_iff)
qed

section \<open>Refinement of the history specification\<close>

definition history_rel :: "int \<Rightarrow> limiter \<Rightarrow> (int \<times> string) list \<Rightarrow> bool" where
  "history_rel ws s h \<longleftrightarrow> lm_window_seconds s = ws \<and> (\<forall>(w, k) \<in> set h. w \<le> lm_window s) \<and>
     (\<forall>k. count_of s k = int (count_list h (lm_window s, k)))"

lemma count_list_absent: "x \<notin> set xs \<Longrightarrow> count_list xs x = 0"
  by (simp add: count_list_0_iff)

lemma history_rel_enter:
  assumes "history_rel ws s h" and "lm_window s \<le> w"
  shows "history_rel ws (enter_window w s) h"
proof (cases "w = lm_window s")
  case True
  then show ?thesis using assms by (simp add: enter_window_def)
next
  case False
  then have "(w, k) \<notin> set h" for k
    using assms by (fastforce simp: history_rel_def)
  then show ?thesis
    using assms False
    by (auto simp: history_rel_def enter_window_def count_of_def count_list_absent)
qed

lemma history_rel_hit:
  assumes "history_rel ws s h" and "lm_window s \<le> window_of ws t"
  defines "w \<equiv> window_of ws t"
  shows "fst (hit t k l s) = None \<longleftrightarrow> int (count_list h (w, k)) < l"
    and "history_rel ws (snd (hit t k l s)) (if fst (hit t k l s) = None then (w, k) # h else h)"
proof -
  have ws: "lm_window_seconds s = ws" using assms(1) by (simp add: history_rel_def)
  have en: "history_rel ws (enter_window w s) h"
    using assms by (simp add: history_rel_enter)
  have lw: "lm_window (enter_window w s) = w"
    by (simp add: enter_window_def)
  show "fst (hit t k l s) = None \<longleftrightarrow> int (count_list h (w, k)) < l"
    using en lw by (simp add: hit_simps ws w_def history_rel_def)
  have "count_of (snd (hit t k l s)) j =
      int (count_list (if fst (hit t k l s) = None then (w, k) # h else h) (w, j))" for j
    using en lw by (auto simp: count_after_hit ws w_def [symmetric] history_rel_def)
  then show "history_rel ws (snd (hit t k l s)) (if fst (hit t k l s) = None then (w, k) # h else h)"
    using en lw by (auto simp: history_rel_def hit_simps ws w_def)
qed

lemma run_hits_refines:
  assumes "0 < ws" and "history_rel ws s h" and "sorted (map fst es)"
    and "\<And>e. e \<in> set es \<Longrightarrow> lm_window s \<le> window_of ws (fst e)"
  shows "map (\<lambda>r. r = None) (fst (run_hits hit s es)) = spec_hits ws h es"
  using assms(2-)
proof (induction es arbitrary: s h)
  case (Cons e es)
  obtain t k l where e: "e = (t, k, l)" by (cases e)
  let ?s = "snd (hit t k l s)"
  let ?h = "if fst (hit t k l s) = None then (window_of ws t, k) # h else h"
  have rel: "history_rel ws ?s ?h" and ok: "fst (hit t k l s) = None \<longleftrightarrow> int (count_list h (window_of ws t, k)) < l"
    using history_rel_hit [OF Cons.prems(1), of t k l] Cons.prems(3) [of e] e by simp_all
  have "lm_window ?s \<le> window_of ws (fst x)" if "x \<in> set es" for x
  proof -
    have "lm_window ?s = window_of ws t"
      using Cons.prems(1) by (simp add: hit_simps history_rel_def)
    then show ?thesis
      using that Cons.prems(2) e by (auto intro!: window_of_mono [OF assms(1)])
  qed
  then have "map (\<lambda>r. r = None) (fst (run_hits hit ?s es)) = spec_hits ws ?h es"
    using Cons.IH [OF rel] Cons.prems(2) by simp
  then show ?case
    using ok e by (auto simp: split_beta Let_def)
qed simp

lemma new_limiter_rel: "history_rel ws (new_limiter ws) []"
  by (simp add: history_rel_def new_limiter_def count_of_def)

lemma window_of_nonneg: "0 < ws \<Longrightarrow> 0 \<le> t \<Longrightarrow> -1 \<le> window_of ws t"
  using window_of_mono [of ws 0 t] by (simp add: window_of_def del: zero_le_floor)

lemma spec_accepted_bound:
  assumes "\<And>t l. (t, k, l) \<in> set es \<Longrightarrow> window_of ws t = w \<Longrightarrow> l \<le> int n"
    and "count_list h (w, k) \<le> n"
  shows "count_list h (w, k) + count_list (accepted_hits ws es (spec_hits ws h es)) (w, k) \<le> n"
  using assms
proof (induction es arbitrary: h)
  case (Cons e es)
  obtain t k' l where e: "e = (t, k', l)" by (cases e)
  let ?ok = "int (count_list h (window_of ws t, k')) < l"
  let ?h = "if ?ok then (window_of ws t, k') # h else h"
  have "count_list ?h (w, k) \<le> n"
    using Cons.prems(1) [of t l] Cons.prems(2) e by auto
  then have "count_list ?h (w, k) + count_list (accepted_hits ws es (spec_hits ws ?h es)) (w, k) \<le> n"
    using Cons.IH [of ?h] Cons.prems(1) by (metis list.set_intros(2))
  then show ?case
    using e by (auto simp: accepted_hits_def Let_def)
qed (simp add: accepted_hits_def)

section \<open>Properties\<close>

text \<open>
  C9: the limiter implements its specification. On every sequence of hits whose clock does not go
  back, starting from a fresh limiter, a hit is accepted exactly when fewer than its limit were
  accepted so far for the same key in the same wall-clock window, although the code keeps only the
  counts of the current window. Hence no key is ever served more than its limit in one window,
  and no hit within the limit is refused.
\<close>

theorem limiter_implements_windows:
  assumes "0 < ws" and "sorted (map fst es)" and "\<forall>e \<in> set es. 0 \<le> fst e"
  shows "map (\<lambda>r. r = None) (fst (run_hits hit (new_limiter ws) es)) = spec_hits ws [] es"
  using assms
  by (intro run_hits_refines new_limiter_rel) (auto simp: new_limiter_def intro!: window_of_nonneg)

theorem limiter_implements_windows_witness:
  "map (\<lambda>r. r = None) (fst (run_hits hit (new_limiter 60)
      [(120, ''a'', 2), (121, ''a'', 2), (150, ''a'', 2), (180, ''a'', 2)])) =
    spec_hits 60 [] [(120, ''a'', 2), (121, ''a'', 2), (150, ''a'', 2), (180, ''a'', 2)]"
  by (rule limiter_implements_windows) simp_all

text \<open>
  The limit holds. However hits of different keys, times and limits are mixed, the number of
  accepted hits of one key in one window never exceeds \<open>n\<close> when that key's limit in that window
  is at most \<open>n\<close>.
\<close>

theorem limit_never_exceeded:
  assumes "0 < ws" and "sorted (map fst es)" and "\<forall>e \<in> set es. 0 \<le> fst e"
    and "\<forall>(t, k', l) \<in> set es. window_of ws t = w \<and> k' = k \<longrightarrow> l \<le> int n"
  shows "count_list (accepted_hits ws es
    (map (\<lambda>r. r = None) (fst (run_hits hit (new_limiter ws) es)))) (w, k) \<le> n"
proof -
  have "map (\<lambda>r. r = None) (fst (run_hits hit (new_limiter ws) es)) = spec_hits ws [] es"
    using assms(1-3)
    by (intro run_hits_refines new_limiter_rel) (auto simp: new_limiter_def intro!: window_of_nonneg)
  then show ?thesis
    using spec_accepted_bound [of k es ws w n "[]"] assms(4) by fastforce
qed

theorem limit_never_exceeded_witness:
  "count_list (accepted_hits 60 [(120, ''a'', 1), (130, ''a'', 1), (140, ''b'', 5)]
     (map (\<lambda>r. r = None) (fst (run_hits hit (new_limiter 60)
       [(120, ''a'', 1), (130, ''a'', 1), (140, ''b'', 5)])))) (2, ''a'') \<le> 1"
  by (rule limit_never_exceeded) simp_all

text \<open>
  \<open>Retry-After\<close> is right. A refused caller is told a number of seconds between 1 and the
  window length; every repeat before the window ends is refused again, and a repeat after exactly
  that many seconds is accepted (for any positive limit).
\<close>

theorem retry_after_exact:
  assumes "0 < lm_window_seconds s" and "0 < limit" and "hit now key limit s = (Some r, s')"
  shows "1 \<le> r \<and> r \<le> lm_window_seconds s \<and>
    fst (hit (now + of_int r) key limit s') = None \<and>
    (\<forall>t. window_of (lm_window_seconds s) t = window_of (lm_window_seconds s) now \<longrightarrow>
      fst (hit t key limit s') \<noteq> None)"
proof -
  let ?ws = "lm_window_seconds s"
  have s': "s' = snd (hit now key limit s)" and no: "fst (hit now key limit s) \<noteq> None"
    using assms(3) by simp_all
  have w: "lm_window s' = window_of ?ws now" "lm_window_seconds s' = ?ws"
    by (simp_all add: s' hit_simps)
  have "count_of (enter_window (window_of ?ws (now + of_int r)) s') key = 0"
    using refused_retry(3) [OF assms(1,3)] w by (simp add: enter_window_def count_of_def)
  then have "fst (hit (now + of_int r) key limit s') = None"
    using assms(2) w by (simp add: hit_simps)
  moreover have "fst (hit t key limit s') \<noteq> None" if "window_of ?ws t = window_of ?ws now" for t
  proof -
    have "limit \<le> count_of s' key"
      using no by (simp add: hit_simps s' count_after_hit)
    then show ?thesis using that w by (simp add: hit_simps enter_window_def)
  qed
  ultimately show ?thesis
    using refused_retry [OF assms(1,3)] by blast
qed

theorem retry_after_exact_witness:
  "fst (hit (150 + of_int 30) ''a'' 2
     \<lparr>lm_window_seconds = 60, lm_window = 2, lm_counts = [''a'' \<mapsto> 2]\<rparr>) = None"
proof -
  let ?s = "\<lparr>lm_window_seconds = 60, lm_window = 2, lm_counts = [''a'' \<mapsto> 2]\<rparr> :: limiter"
  have w: "window_of 60 150 = 2" by code_simp
  have "hit 150 ''a'' 2 ?s = (Some 30, ?s)"
    by (simp add: hit_def Let_def enter_window_def count_of_def w)
  then show ?thesis
    using retry_after_exact [of ?s 2 150 "''a''" 30 ?s] by simp
qed

end
