(* ===== verification/Ingress_Route.thy ===== *)
theory Ingress_Route
  imports Ingress_Limits Metering
begin

text \<open>
  The internal endpoints the edge proxy calls for every request to an agent's public URL
  (\<open>routers/ingress.py\<close>): which agent a hostname names, who may call it, how often, and where to.
  The state a call can change is the two rate limiters and the pending request counts; the
  database is only read. The containers of an agent come from the container runtime and are an
  argument, as is the random choice among them.
\<close>

section \<open>Hostnames\<close>

definition slug_from_host :: "settings \<Rightarrow> string \<Rightarrow> string option" where
  "slug_from_host st host = (case agent_base_domain st of
       None \<Rightarrow> None
     | Some base \<Rightarrow>
         if base = [] then None
         else
           let h = py_lower (rstrip_by (\<lambda>c. c = CHR ''.'') (before_char (CHR '':'') host));
               suffix = ''.'' @ rstrip_by (\<lambda>c. c = CHR ''.'') (py_lower base)
           in if \<not> ends_with h suffix then None
              else
                let slug = take (length h - length suffix) h in
                if slug = [] \<or> CHR ''.'' \<in> set slug then None else Some slug)"

definition agent_for_host :: "settings \<Rightarrow> db \<Rightarrow> string \<Rightarrow> agent option result" where
  "agent_for_host st d host = (case slug_from_host st host of
     None \<Rightarrow> Inr None | Some slug \<Rightarrow> select_one (\<lambda>a. a_slug a = slug) (agents d))"

text \<open>The join of agents and their owners, and \<open>one_or_none\<close> on its rows.\<close>

definition agent_and_owner :: "settings \<Rightarrow> db \<Rightarrow> string \<Rightarrow> (agent \<times> user) option result" where
  "agent_and_owner st d host = (case slug_from_host st host of
       None \<Rightarrow> Inr None
     | Some slug \<Rightarrow>
         select_one (\<lambda>row. True)
           (concat (map (\<lambda>a. map (Pair a) (filter (\<lambda>u. u_id u = a_user_id a) (users d)))
             (filter (\<lambda>a. a_slug a = slug) (agents d)))))"

definition bearer_token :: "string \<Rightarrow> string" where
  "bearer_token authorization =
     (if py_lower (before_char (CHR '' '') authorization) = ''bearer''
      then py_strip (after_char (CHR '' '') authorization) else [])"

section \<open>Routes\<close>

record response =
  rs_status :: int
  rs_headers :: "(string \<times> string) list"

definition plain :: "int \<Rightarrow> response" where
  "plain status = \<lparr>rs_status = status, rs_headers = []\<rparr>"

definition too_many_requests :: "int \<Rightarrow> response" where
  "too_many_requests retry_after =
     \<lparr>rs_status = 429, rs_headers = [(''Retry-After'', py_str_int retry_after)]\<rparr>"

definition tls_ask :: "settings \<Rightarrow> db \<Rightarrow> string \<Rightarrow> response result" where
  "tls_ask st d domain = bind_result (agent_for_host st d domain)
     (\<lambda>a. Inr (plain (if a \<noteq> None then 200 else 404)))"

record ingress_state =
  in_db :: db
  per_client :: limiter
  per_agent :: limiter
  in_pending :: counter

text \<open>
  One call: its headers, the clock of the limiters (seconds) and of the metering (timestamp), the
  addresses of each agent's containers, and the number drawn by \<open>secrets.choice\<close>.
\<close>

record route_call =
  rc_host :: string
  rc_internal_token :: string
  rc_client_ip :: string
  rc_authorization :: string
  rc_clock :: seconds
  rc_now :: timestamp
  rc_containers :: "string \<Rightarrow> string option list"
  rc_pick :: nat

definition client_key :: "agent \<Rightarrow> string \<Rightarrow> string" where
  "client_key ag ip = a_id ag @ ''|'' @ (if ip = [] then ''unknown'' else ip)"

definition client_limit :: "settings \<Rightarrow> agent \<Rightarrow> int" where
  "client_limit st ag = (case a_rate_limit_rpm ag of
     None \<Rightarrow> ingress_default_rpm_per_ip st
   | Some n \<Rightarrow> if n = 0 then ingress_default_rpm_per_ip st else n)"

text \<open>The part of \<open>route\<close> after the internal token is checked and the agent is found.\<close>

definition route_found ::
  "settings \<Rightarrow> crypto \<Rightarrow> core_auth \<Rightarrow> route_call \<Rightarrow> agent \<Rightarrow> user \<Rightarrow> ingress_state \<Rightarrow>
   ingress_state \<times> response result" where
  "route_found st cr ca c ag owner s =
     (let (retry1, lc) = hit (rc_clock c) (client_key ag (rc_client_ip c)) (client_limit st ag) (per_client s);
          s1 = s\<lparr>per_client := lc\<rparr>
      in case retry1 of
           Some r \<Rightarrow> (s1, Inr (too_many_requests r))
         | None \<Rightarrow>
             if a_access ag = ''private'' \<and>
                \<not> is_valid_access_key cr (a_id ag) (bearer_token (rc_authorization c)) (in_db s)
             then (s1, Inr \<lparr>rs_status = 401,
                     rs_headers = [(''WWW-Authenticate'', ''Bearer realm=\"agent\"'')]\<rparr>)
             else case is_exempt ca owner of
                 Inl e \<Rightarrow> (s1, Inl e)
               | Inr exempt \<Rightarrow>
                   let (retry2, la) = (if exempt then (None, per_agent s1)
                         else hit (rc_clock c) (a_id ag) (max_agent_rpm (limits_for (u_plan owner)))
                                (per_agent s1));
                       s2 = s1\<lparr>per_agent := la\<rparr>
                   in case retry2 of
                        Some r \<Rightarrow> (s2, Inr (too_many_requests r))
                      | None \<Rightarrow>
                          let upstreams = filter truthy (rc_containers c (a_id ag)) in
                          if upstreams = [] then (s2, Inr (plain 503))
                          else
                            (s2\<lparr>in_pending := count_request ag (rc_now c) (in_pending s2)\<rparr>,
                             Inr \<lparr>rs_status = 204,
                                  rs_headers = [(''X-Agnt-Upstream'',
                                    the (upstreams ! (rc_pick c mod length upstreams)) @ '':'' @
                                    py_str_int (a_port ag))]\<rparr>))"

text \<open>\<open>hmac.compare_digest\<close> on two strings: both must be ASCII.\<close>

definition compare_digest :: "string \<Rightarrow> string \<Rightarrow> bool result" where
  "compare_digest x y = (if list_all (\<lambda>c. code_point c < 128) (x @ y) then Inr (x = y)
     else Inl (Unhandled TypeError))"

definition route ::
  "settings \<Rightarrow> crypto \<Rightarrow> core_auth \<Rightarrow> route_call \<Rightarrow> ingress_state \<Rightarrow> ingress_state \<times> response result" where
  "route st cr ca c s =
     (if \<not> truthy (ingress_internal_token st) then (s, Inr (plain 403))
      else case compare_digest (rc_internal_token c) (the (ingress_internal_token st)) of
          Inl e \<Rightarrow> (s, Inl e)
        | Inr False \<Rightarrow> (s, Inr (plain 403))
        | Inr True \<Rightarrow> (case agent_and_owner st (in_db s) (rc_host c) of
              Inl e \<Rightarrow> (s, Inl e)
            | Inr None \<Rightarrow> (s, Inr (plain 404))
            | Inr (Some (ag, owner)) \<Rightarrow> route_found st cr ca c ag owner s))"

definition caddy_call :: "settings \<Rightarrow> route_call \<Rightarrow> bool" where
  "caddy_call st c \<longleftrightarrow> truthy (ingress_internal_token st) \<and>
     compare_digest (rc_internal_token c) (the (ingress_internal_token st)) = Inr True"

definition routed :: "response result \<Rightarrow> bool" where
  "routed r = (case r of Inr x \<Rightarrow> rs_status x = 204 | Inl _ \<Rightarrow> False)"

text \<open>How many calls of a sequence are routed to the agent with a slug.\<close>

fun served :: "settings \<Rightarrow> crypto \<Rightarrow> core_auth \<Rightarrow> string \<Rightarrow> ingress_state \<Rightarrow> route_call list \<Rightarrow> nat" where
  "served st cr ca slug s [] = 0"
| "served st cr ca slug s (c # cs) =
     (if slug_from_host st (rc_host c) = Some slug \<and> routed (snd (route st cr ca c s)) then 1 else 0) +
     served st cr ca slug (fst (route st cr ca c s)) cs"

text \<open>The hostname under which an agent is published.\<close>

definition public_host :: "string \<Rightarrow> string \<Rightarrow> string" where
  "public_host slug base = slug @ ''.'' @ base"

definition dns_label :: "string \<Rightarrow> bool" where
  "dns_label s \<longleftrightarrow> s \<noteq> [] \<and> (\<forall>c \<in> set s. is_lower_alnum c \<or> c = CHR ''-'')"

section \<open>Lemmas\<close>

lemma agent_and_owner_wf:
  assumes "db_wf d"
  shows "agent_and_owner st d host = Inr (case slug_from_host st host of
      None \<Rightarrow> None
    | Some slug \<Rightarrow> (case get_row a_slug slug (agents d) of
          None \<Rightarrow> None
        | Some a \<Rightarrow> Some (a, the (get_user d (a_user_id a)))))"
proof (cases "slug_from_host st host")
  case (Some slug)
  show ?thesis
  proof (cases "get_row a_slug slug (agents d)")
    case None
    then show ?thesis
      using Some db_wfD(8) [OF assms]
      by (simp add: agent_and_owner_def filter_unique select_one_def one_or_none_def)
  next
    case a: (Some a)
    obtain u where "get_user d (a_user_id a) = Some u"
      using db_wf_agent_owner [OF assms] get_row_Some [OF a] by blast
    then show ?thesis
      using Some a db_wfD(1,8) [OF assms]
      by (simp add: agent_and_owner_def filter_unique select_one_def one_or_none_def get_user_def)
  qed
qed (simp add: agent_and_owner_def)

lemma route_found_cases:
  assumes "route_found st cr ca c ag owner s = (s', r)"
  shows "in_db s' = in_db s"
    and "routed r \<Longrightarrow> in_pending s' = count_request ag (rc_now c) (in_pending s) \<and>
      (a_access ag = ''private'' \<longrightarrow>
        is_valid_access_key cr (a_id ag) (bearer_token (rc_authorization c)) (in_db s)) \<and>
      (\<exists>ip. Some ip \<in> set (rc_containers c (a_id ag)) \<and> ip \<noteq> [] \<and>
        r = Inr \<lparr>rs_status = 204, rs_headers = [(''X-Agnt-Upstream'', ip @ '':'' @ py_str_int (a_port ag))]\<rparr>)"
    and "\<not> routed r \<Longrightarrow> in_pending s' = in_pending s"
    and "a_access ag = ''private'' \<Longrightarrow>
      \<not> is_valid_access_key cr (a_id ag) (bearer_token (rc_authorization c)) (in_db s) \<Longrightarrow>
      per_agent s' = per_agent s \<and> in_pending s' = in_pending s \<and>
      (\<exists>x. r = Inr x \<and> (rs_status x = 401 \<or> rs_status x = 429))"
    and "is_exempt ca owner = Inr False \<Longrightarrow>
      per_agent s' = per_agent s \<and> \<not> routed r \<or>
      per_agent s' = snd (hit (rc_clock c) (a_id ag) (max_agent_rpm (limits_for (u_plan owner))) (per_agent s)) \<and>
      (routed r \<longrightarrow>
        fst (hit (rc_clock c) (a_id ag) (max_agent_rpm (limits_for (u_plan owner))) (per_agent s)) = None)"
    and "is_exempt ca owner \<noteq> Inr False \<Longrightarrow> per_agent s' = per_agent s"
proof -
  have pick: "upstreams \<noteq> [] \<Longrightarrow> upstreams ! (rc_pick c mod length upstreams) \<in> set upstreams"
    for upstreams :: "string option list" by simp
  have up: "\<exists>ip. Some ip \<in> set (rc_containers c (a_id ag)) \<and> ip \<noteq> [] \<and>
      the (us ! (rc_pick c mod length us)) = ip"
    if "us = filter truthy (rc_containers c (a_id ag))" "us \<noteq> []" for us
    using pick [OF that(2)] that(1) by (auto simp: truthy_def split: option.splits)
  note d = assms [unfolded route_found_def Let_def split_beta]
  show "in_db s' = in_db s"
    using d by (auto split: option.split_asm if_split_asm sum.split_asm)
  show "routed r \<Longrightarrow> in_pending s' = count_request ag (rc_now c) (in_pending s) \<and>
      (a_access ag = ''private'' \<longrightarrow>
        is_valid_access_key cr (a_id ag) (bearer_token (rc_authorization c)) (in_db s)) \<and>
      (\<exists>ip. Some ip \<in> set (rc_containers c (a_id ag)) \<and> ip \<noteq> [] \<and>
        r = Inr \<lparr>rs_status = 204, rs_headers = [(''X-Agnt-Upstream'', ip @ '':'' @ py_str_int (a_port ag))]\<rparr>)"
    using d up by (auto simp: routed_def too_many_requests_def plain_def
        split: option.split_asm if_split_asm sum.split_asm)
  show "\<not> routed r \<Longrightarrow> in_pending s' = in_pending s"
    using d by (auto simp: routed_def split: option.split_asm if_split_asm sum.split_asm)
  show "a_access ag = ''private'' \<Longrightarrow>
      \<not> is_valid_access_key cr (a_id ag) (bearer_token (rc_authorization c)) (in_db s) \<Longrightarrow>
      per_agent s' = per_agent s \<and> in_pending s' = in_pending s \<and>
      (\<exists>x. r = Inr x \<and> (rs_status x = 401 \<or> rs_status x = 429))"
    using d by (auto simp: too_many_requests_def split: option.split_asm)
  show "is_exempt ca owner = Inr False \<Longrightarrow>
      per_agent s' = per_agent s \<and> \<not> routed r \<or>
      per_agent s' = snd (hit (rc_clock c) (a_id ag) (max_agent_rpm (limits_for (u_plan owner))) (per_agent s)) \<and>
      (routed r \<longrightarrow>
        fst (hit (rc_clock c) (a_id ag) (max_agent_rpm (limits_for (u_plan owner))) (per_agent s)) = None)"
    using d by (auto simp: routed_def too_many_requests_def plain_def
        split: option.split_asm if_split_asm)
  show "is_exempt ca owner \<noteq> Inr False \<Longrightarrow> per_agent s' = per_agent s"
    using d by (auto split: option.split_asm if_split_asm sum.split_asm)
qed

section \<open>Lemmas on hostnames\<close>

lemma code_point_eq: "c = d \<longleftrightarrow> code_point c = code_point d"
  by (simp add: code_point_def)

lemma code_point_lower: "code_point (lower_char c) =
    (if 65 \<le> code_point c \<and> code_point c \<le> 90 \<or>
        (192 \<le> code_point c \<and> code_point c \<le> 222 \<and> code_point c \<noteq> 215)
     then code_point c + 32 else code_point c)"
  by (auto simp: lower_char_def Let_def) (auto simp: code_point_def)

lemma lower_char_fixed:
  assumes "code_point d < 97" and "code_point d < 65 \<or> 90 < code_point d"
  shows "lower_char c = d \<longleftrightarrow> c = d"
proof -
  have "lower_char c = d \<longleftrightarrow> code_point (lower_char c) = code_point d" by (rule code_point_eq)
  also have "\<dots> \<longleftrightarrow> code_point c = code_point d"
    unfolding code_point_lower using assms by (auto split: if_split)
  also have "\<dots> \<longleftrightarrow> c = d" by (rule code_point_eq [symmetric])
  finally show ?thesis .
qed

lemma lower_char_punct:
  "lower_char c = CHR ''.'' \<longleftrightarrow> c = CHR ''.''" "lower_char c = CHR '':'' \<longleftrightarrow> c = CHR '':''"
  by (rule lower_char_fixed; simp add: code_point_def)+

abbreviation is_dot :: "char \<Rightarrow> bool" where
  "is_dot c \<equiv> c = CHR ''.''"

lemma rstrip_lower: "py_lower (rstrip_by is_dot s) = rstrip_by is_dot (py_lower s)"
  by (simp add: rstrip_by_def py_lower_def rev_map dropWhile_map comp_def lower_char_punct)

lemma rstrip_dots: "rstrip_by is_dot (s @ replicate n (CHR ''.'')) = rstrip_by is_dot s"
  by (simp add: rstrip_by_def dropWhile_append)

lemma rstrip_append: "rstrip_by q t \<noteq> [] \<Longrightarrow> rstrip_by q (s @ t) = s @ rstrip_by q t"
  by (auto simp: rstrip_by_def dropWhile_append)

lemma dns_label_lower:
  assumes "dns_label s"
  shows "py_lower s = s" and "CHR ''.'' \<notin> set s"
proof -
  have "lower_char (CHR ''-'') = CHR ''-''" by (simp add: lower_char_def code_point_def Let_def)
  then show "py_lower s = s"
    using assms by (intro py_lower_id) (auto simp: dns_label_def lower_char_lower_alnum)
  have "\<not> is_lower_alnum (CHR ''.'')" by (simp add: is_lower_alnum_def code_point_def)
  then show "CHR ''.'' \<notin> set s" using assms by (auto simp: dns_label_def)
qed

lemma slug_of_public_host:
  assumes "dns_label slug" and "agent_base_domain st = Some base" and "rstrip_by is_dot base \<noteq> []"
    and "CHR '':'' \<notin> set base" and "py_lower host = py_lower (public_host slug base)"
    and "port = [] \<or> hd port = CHR '':''"
  shows "slug_from_host st (host @ replicate n (CHR ''.'') @ port) = Some slug"
proof -
  have "CHR '':'' \<in> set (py_lower x) \<longleftrightarrow> (\<exists>c \<in> set x. lower_char c = CHR '':'')" for x
    by (simp add: py_lower_def image_iff eq_commute)
  then have mem: "CHR '':'' \<in> set x \<longleftrightarrow> CHR '':'' \<in> set (py_lower x)" for x
    by (simp add: lower_char_punct)
  have "\<not> is_lower_alnum (CHR '':'')" by (simp add: is_lower_alnum_def code_point_def)
  then have "CHR '':'' \<notin> set (public_host slug base)"
    using assms(1,4) by (auto simp: public_host_def dns_label_def)
  then have "CHR '':'' \<notin> set host" using mem assms(5) by metis
  then have "before_char (CHR '':'') (host @ replicate n (CHR ''.'') @ port) = host @ replicate n (CHR ''.'')"
    using assms(6) by (cases port) (auto simp: before_char_def takeWhile_append)
  moreover have ne: "rstrip_by is_dot (py_lower base) \<noteq> []"
    using assms(3) rstrip_lower [of base] by (auto simp: py_lower_def)
  have "py_lower (rstrip_by is_dot (host @ replicate n (CHR ''.''))) =
      slug @ ''.'' @ rstrip_by is_dot (py_lower base)"
    using ne dns_label_lower(1) [OF assms(1)] rstrip_append [OF ne, of "slug @ ''.''"]
    by (simp add: rstrip_dots rstrip_lower assms(5) public_host_def py_lower_append)
      (simp add: py_lower_def lower_char_punct(1) [of "CHR ''.''", THEN iffD2])
  ultimately show ?thesis
    using assms(1-3) dns_label_lower(2) [OF assms(1)] ends_with_append [of slug "''.'' @ rstrip_by is_dot (py_lower base)"]
    by (auto simp: slug_from_host_def Let_def dns_label_def rstrip_by_def)
qed

section \<open>Properties\<close>

text \<open>
  An agent is reachable under its own name only. For a valid slug, the published hostname is
  read back as that slug, in any letter case, with trailing dots and with a port; and whatever
  hostname is sent, the slug read from it is one non-empty label.
\<close>

theorem host_roundtrip:
  assumes "dns_label slug" and "agent_base_domain st = Some base" and "rstrip_by is_dot base \<noteq> []"
    and "CHR '':'' \<notin> set base" and "py_lower host = py_lower (public_host slug base)"
    and "port = [] \<or> hd port = CHR '':''"
  shows "slug_from_host st (host @ replicate n (CHR ''.'') @ port) = Some slug \<and>
    (case slug_from_host st any of None \<Rightarrow> True | Some x \<Rightarrow> x \<noteq> [] \<and> CHR ''.'' \<notin> set x)"
  using slug_of_public_host [OF assms]
  by (auto simp: slug_from_host_def Let_def split: option.splits)

theorem host_roundtrip_witness:
  "slug_from_host (default_settings\<lparr>agent_base_domain := Some ''Run.example.com''\<rparr>)
     ''BOT-1.run.EXAMPLE.com.:443'' = Some ''bot-1''"
proof -
  have "dns_label ''bot-1''" by code_simp
  moreover have "rstrip_by is_dot ''Run.example.com'' \<noteq> []" by code_simp
  moreover have "py_lower ''BOT-1.run.EXAMPLE.com'' = py_lower (public_host ''bot-1'' ''Run.example.com'')"
    by code_simp
  ultimately show ?thesis
    using host_roundtrip [of "''bot-1''" "default_settings\<lparr>agent_base_domain := Some ''Run.example.com''\<rparr>"
        "''Run.example.com''" "''BOT-1.run.EXAMPLE.com''" "'':443''" 1]
    by simp
qed

lemma route_refused:
  "\<not> caddy_call st c \<Longrightarrow> route st cr ca c s = (s, Inr (plain 403)) \<or> route st cr ca c s = (s, Inl (Unhandled TypeError))"
  by (auto simp: route_def caddy_call_def compare_digest_def)

lemma route_admitted:
  "caddy_call st c \<Longrightarrow> route st cr ca c s = (case agent_and_owner st (in_db s) (rc_host c) of
     Inl e \<Rightarrow> (s, Inl e)
   | Inr None \<Rightarrow> (s, Inr (plain 404))
   | Inr (Some (ag, owner)) \<Rightarrow> route_found st cr ca c ag owner s)"
  by (simp add: route_def caddy_call_def)

lemma route_cases:
  "route st cr ca c s = (s, Inr (plain 403)) \<or> route st cr ca c s = (s, Inl (Unhandled TypeError)) \<or>
   route st cr ca c s = (case agent_and_owner st (in_db s) (rc_host c) of
     Inl e \<Rightarrow> (s, Inl e)
   | Inr None \<Rightarrow> (s, Inr (plain 404))
   | Inr (Some (ag, owner)) \<Rightarrow> route_found st cr ca c ag owner s)"
  using route_refused route_admitted by blast

text \<open>
  C18: a request is counted for metering exactly when it is routed. A routed call names a running
  container of the agent the hostname stands for and adds one request to that agent's current
  hour; any other outcome (refused, limited, unknown, not running, error) leaves the counts alone.
  The database is never written.
\<close>

theorem counted_iff_routed:
  assumes "db_wf (in_db s)" and "route st cr ca c s = (s', r)"
  shows "in_db s' = in_db s \<and>
    (if routed r
     then \<exists>ag ip. slug_from_host st (rc_host c) = Some (a_slug ag) \<and> ag \<in> set (agents (in_db s)) \<and>
       Some ip \<in> set (rc_containers c (a_id ag)) \<and> ip \<noteq> [] \<and>
       r = Inr \<lparr>rs_status = 204, rs_headers = [(''X-Agnt-Upstream'', ip @ '':'' @ py_str_int (a_port ag))]\<rparr> \<and>
       (\<forall>b. held_requests (in_pending s') b =
          held_requests (in_pending s) b + (if b = (a_id ag, hour_start (rc_now c)) then 1 else 0))
     else in_pending s' = in_pending s)"
proof (cases "\<exists>ag owner. agent_and_owner st (in_db s) (rc_host c) = Inr (Some (ag, owner)) \<and>
    route_found st cr ca c ag owner s = (s', r)")
  case True
  then obtain ag owner where a: "agent_and_owner st (in_db s) (rc_host c) = Inr (Some (ag, owner))"
    and f: "route_found st cr ca c ag owner s = (s', r)" by blast
  have ag: "slug_from_host st (rc_host c) = Some (a_slug ag) \<and> ag \<in> set (agents (in_db s))"
    using a by (auto simp: agent_and_owner_wf [OF assms(1)] split: option.split_asm dest: get_row_Some)
  show ?thesis
    using route_found_cases(1-3) [OF f] ag by (auto simp: held_count)
next
  case False
  then show ?thesis
    using assms(2) route_cases [of st cr ca c s]
    by (auto simp: agent_and_owner_wf [OF assms(1)] routed_def plain_def
        split: if_split_asm option.split_asm)
qed

definition sample_ingress :: ingress_state where
  "sample_ingress = \<lparr>in_db = set_agent ''agent-1'' (\<lambda>a. a\<lparr>a_access := ''public''\<rparr>) sample_db, per_client = new_limiter 60, per_agent = new_limiter 60, in_pending = []\<rparr>"

definition sample_call :: "string \<Rightarrow> route_call" where
  "sample_call host = \<lparr>rc_host = host, rc_internal_token = ''t'', rc_client_ip = [], rc_authorization = [],
     rc_clock = 0, rc_now = 0, rc_containers = (\<lambda>_. [Some ''10.0.0.2'']), rc_pick = 0\<rparr>"

definition sample_ingress_settings :: settings where
  "sample_ingress_settings = default_settings\<lparr>ingress_internal_token := Some ''t'', agent_base_domain := Some ''x''\<rparr>"

lemma sample_ingress_facts:
  shows "db_wf (in_db sample_ingress)" and "in_pending sample_ingress = []"
    and "get_row a_slug ''demo-abc123'' (agents (in_db sample_ingress)) = Some (sample_agent\<lparr>a_access := ''public''\<rparr>)"
    and "set (agents (in_db sample_ingress)) = {sample_agent\<lparr>a_access := ''public''\<rparr>}"
    and "get_user (in_db sample_ingress) (a_user_id sample_agent) = Some sample_user"
    and "is_exempt sample_core_auth sample_user = Inr False"
  using sample_db_wf
  by (simp_all add: sample_ingress_def set_agent_wf)
    (simp_all add: sample_db_def update_row_def get_row_Cons sample_agent_def get_user_def
      sample_user_def is_exempt_def role_enum_def sample_core_auth_def)

lemma first_hit: "0 < limit \<Longrightarrow> \<exists>l. hit now key limit (new_limiter secs) = (None, l)"
  by (simp add: hit_def new_limiter_def enter_window_def count_of_def Let_def)

lemma sample_slugs:
  "slug_from_host sample_ingress_settings ''demo-abc123.x'' = Some ''demo-abc123''"
  "slug_from_host sample_ingress_settings ''x'' = None"
  by code_simp+

lemma sample_routed:
  assumes "in_db s = in_db sample_ingress" and "hit 0 ''agent-1'' 300 (per_agent s) = (None, la)"
    and "hit 0 (client_key (sample_agent\<lparr>a_access := ''public''\<rparr>) []) (client_limit sample_ingress_settings
      (sample_agent\<lparr>a_access := ''public''\<rparr>)) (per_client s) = (None, lc)"
  shows "route sample_ingress_settings sample_crypto sample_core_auth (sample_call ''demo-abc123.x'') s =
    (s\<lparr>per_client := lc, per_agent := la, in_pending := count_request (sample_agent\<lparr>a_access := ''public''\<rparr>) 0 (in_pending s)\<rparr>,
     Inr \<lparr>rs_status = 204, rs_headers = [(''X-Agnt-Upstream'', ''10.0.0.2:'' @ py_str_int 8000)]\<rparr>)"
proof -
  have "agent_and_owner sample_ingress_settings (in_db s) ''demo-abc123.x'' =
      Inr (Some (sample_agent\<lparr>a_access := ''public''\<rparr>, sample_user))"
    using sample_ingress_facts(3,5) by (simp add: agent_and_owner_wf sample_ingress_facts(1) assms(1) sample_slugs)
  moreover have "max_agent_rpm (limits_for (u_plan sample_user)) = 300" "a_id sample_agent = ''agent-1''"
    "a_port sample_agent = 8000"
    by (simp_all add: sample_user_def free_limits_def sample_agent_def)
  ultimately show ?thesis
    using assms(2,3) by (simp add: route_def sample_ingress_settings_def truthy_def compare_digest_def sample_call_def
        code_point_def route_found_def sample_ingress_facts(6))
qed

theorem counted_iff_routed_witness:
  "held_requests (in_pending (fst (route sample_ingress_settings sample_crypto sample_core_auth
     (sample_call ''demo-abc123.x'') sample_ingress))) (''agent-1'', 0) = 1 \<and>
   in_pending (fst (route sample_ingress_settings sample_crypto sample_core_auth
     (sample_call ''x'') sample_ingress)) = []"
proof -
  let ?r = "\<lambda>host. route sample_ingress_settings sample_crypto sample_core_auth (sample_call host) sample_ingress"
  obtain la lc where h: "hit 0 ''agent-1'' 300 (per_agent sample_ingress) = (None, la)"
    "hit 0 (client_key (sample_agent\<lparr>a_access := ''public''\<rparr>) []) (client_limit sample_ingress_settings
      (sample_agent\<lparr>a_access := ''public''\<rparr>)) (per_client sample_ingress) = (None, lc)"
  proof -
    have "client_limit sample_ingress_settings (sample_agent\<lparr>a_access := ''public''\<rparr>) = 120" by code_simp
    then show ?thesis
      using that first_hit [of 300 0 "''agent-1''" 60]
        first_hit [of 120 0 "client_key (sample_agent\<lparr>a_access := ''public''\<rparr>) []" 60]
      by (auto simp: sample_ingress_def)
  qed
  have r: "routed (snd (?r ''demo-abc123.x''))"
    unfolding sample_routed [OF refl h] by (simp add: routed_def)
  have n: "\<not> routed (snd (?r ''x''))"
    by (simp add: route_def sample_ingress_settings_def truthy_def compare_digest_def sample_call_def code_point_def
        agent_and_owner_wf sample_ingress_facts(1) sample_slugs(2) [unfolded sample_ingress_settings_def]
        routed_def plain_def)
  have "hour_start (rc_now (sample_call host)) = 0" for host
    by (simp add: sample_call_def hour_start_def usecs_per_hour_def)
  then show ?thesis
    using counted_iff_routed [OF sample_ingress_facts(1) prod.collapse [symmetric, of "?r ''demo-abc123.x''"]]
      counted_iff_routed [OF sample_ingress_facts(1) prod.collapse [symmetric, of "?r ''x''"]] r n
    by (auto simp: sample_ingress_facts(2,4)) (simp add: sample_agent_def)
qed

text \<open>
  C11: a private agent is closed to strangers, and strangers cannot use it up. Without a valid access
  key of that agent, a call is answered 401 or 429 and spends nothing of the allowance the agent's
  real callers share; without the internal token the call is answered 403 (or fails, when the token
  it presents is not ASCII) and changes nothing.
\<close>

theorem private_agents_closed:
  assumes "db_wf (in_db s)" and "route st cr ca c s = (s', r)"
    and "get_row a_slug slug (agents (in_db s)) = Some ag" and "slug_from_host st (rc_host c) = Some slug"
    and "a_access ag = ''private''"
    and "\<not> is_valid_access_key cr (a_id ag) (bearer_token (rc_authorization c)) (in_db s)"
  shows "per_agent s' = per_agent s \<and> in_pending s' = in_pending s \<and> \<not> routed r \<and>
    (if caddy_call st c
     then \<exists>x. r = Inr x \<and> (rs_status x = 401 \<or> rs_status x = 429)
     else s' = s \<and> r \<in> {Inr (plain 403), Inl (Unhandled TypeError)})"
proof (cases "caddy_call st c")
  case True
  then have "route_found st cr ca c ag (the (get_user (in_db s) (a_user_id ag))) s = (s', r)"
    using assms(2-4) by (auto simp: route_admitted agent_and_owner_wf [OF assms(1)])
  from route_found_cases(4) [OF this assms(5,6)] show ?thesis
    using True by (auto simp: routed_def)
next
  case False
  then have "s' = s" "r \<in> {Inr (plain 403), Inl (Unhandled TypeError)}"
    using assms(2) route_refused [OF False, of cr ca s] by auto
  then show ?thesis using False by (auto simp: routed_def plain_def)
qed

lemma sample_route_parts:
  "slug_from_host (default_settings\<lparr>ingress_internal_token := Some ''t'', agent_base_domain := Some ''x''\<rparr>)
     ''demo-abc123.x'' = Some ''demo-abc123''"
  "\<not> is_valid_access_key cr aid (bearer_token []) d"
proof -
  have "dns_label ''demo-abc123''" "rstrip_by is_dot ''x'' \<noteq> []" "bearer_token [] = []" by code_simp+
  then show "slug_from_host (default_settings\<lparr>ingress_internal_token := Some ''t'', agent_base_domain := Some ''x''\<rparr>)
       ''demo-abc123.x'' = Some ''demo-abc123''" "\<not> is_valid_access_key cr aid (bearer_token []) d"
    using slug_of_public_host [of "''demo-abc123''" "default_settings\<lparr>ingress_internal_token := Some ''t'', agent_base_domain := Some ''x''\<rparr>"
        "''x''" "''demo-abc123.x''" "[]" 0]
    by (simp_all add: public_host_def is_valid_access_key_def KEY_PREFIX_def starts_with_def)
qed

theorem private_agents_closed_witness:
  "\<not> routed (snd (route (default_settings\<lparr>ingress_internal_token := Some ''t'', agent_base_domain := Some ''x''\<rparr>)
      sample_crypto sample_core_auth
      \<lparr>rc_host = ''demo-abc123.x'', rc_internal_token = ''t'', rc_client_ip = [], rc_authorization = [],
       rc_clock = 0, rc_now = 0, rc_containers = (\<lambda>_. [Some ''10.0.0.2'']), rc_pick = 0\<rparr>
      \<lparr>in_db = sample_db, per_client = new_limiter 60, per_agent = new_limiter 60, in_pending = []\<rparr>))"
  (is "\<not> routed (snd (route ?st _ _ ?c ?s))")
proof -
  obtain s' r where r: "route ?st sample_crypto sample_core_auth ?c ?s = (s', r)" by (metis prod.exhaust)
  have g: "get_row a_slug ''demo-abc123'' (agents (in_db ?s)) = Some sample_agent" "a_access sample_agent = ''private''"
    by (simp_all add: sample_db_def get_row_Cons sample_agent_def)
  have wf: "db_wf (in_db ?s)" using sample_db_wf by simp
  show ?thesis
    using private_agents_closed [OF wf r g(1) _ g(2)] sample_route_parts r by simp
qed

section \<open>The shared allowance of an agent\<close>

lemma window_used_cong:
  "window_of (lm_window_seconds l) t = window_of (lm_window_seconds l) t' \<Longrightarrow>
   window_used t l k = window_used t' l k"
  by (simp add: window_used_def)

lemma window_used_new: "window_used t (new_limiter ws) k = 0"
  by (simp add: window_used_def new_limiter_def count_of_def enter_window_def)

lemma hit_used:
  assumes "limiter_ok l"
  shows "window_used t l k \<le> window_used t (snd (hit t j n l)) k"
    and "fst (hit t k n l) = None \<Longrightarrow>
      window_used t (snd (hit t k n l)) k = window_used t l k + 1 \<and> window_used t l k < n"
  using fw.used_after [OF assms] fw.accept_iff [OF assms] by auto

lemma route_allowance:
  assumes "db_wf (in_db s)" and "limiter_ok (per_agent s)" and "route st cr ca c s = (s', r)"
    and "get_row a_slug slug (agents (in_db s)) = Some ag"
    and "get_user (in_db s) (a_user_id ag) = Some owner" and "is_exempt ca owner = Inr False"
  defines "u \<equiv> \<lambda>s. window_used (rc_clock c) (per_agent s) (a_id ag)"
  shows "in_db s' = in_db s" and "limiter_ok (per_agent s')"
    and "lm_window_seconds (per_agent s') = lm_window_seconds (per_agent s)" and "u s \<le> u s'"
    and "slug_from_host st (rc_host c) = Some slug \<Longrightarrow> routed r \<Longrightarrow>
      u s' = u s + 1 \<and> u s < max_agent_rpm (limits_for (u_plan owner))"
proof -
  consider "s' = s" "\<not> routed r"
    | a o' where "route_found st cr ca c a o' s = (s', r)"
        "agent_and_owner st (in_db s) (rc_host c) = Inr (Some (a, o'))"
    using assms(3) route_cases [of st cr ca c s] agent_and_owner_wf [OF assms(1), of st "rc_host c"]
    by (auto simp: routed_def plain_def split: if_split_asm option.split_asm)
  then have "in_db s' = in_db s \<and> limiter_ok (per_agent s') \<and>
      lm_window_seconds (per_agent s') = lm_window_seconds (per_agent s) \<and> u s \<le> u s' \<and>
      (slug_from_host st (rc_host c) = Some slug \<longrightarrow> routed r \<longrightarrow>
        u s' = u s + 1 \<and> u s < max_agent_rpm (limits_for (u_plan owner)))"
  proof cases
    case (2 a o')
    note c = route_found_cases [OF 2(1)]
    have eq: "slug_from_host st (rc_host c) = Some slug \<Longrightarrow> a = ag \<and> o' = owner"
      using 2(2) assms(4,5) by (simp add: agent_and_owner_wf [OF assms(1)])
    have "per_agent s' = per_agent s \<or> per_agent s' = snd (hit (rc_clock c) (a_id a)
        (max_agent_rpm (limits_for (u_plan o'))) (per_agent s))"
      using c(5,6) by blast
    then have "limiter_ok (per_agent s') \<and>
        lm_window_seconds (per_agent s') = lm_window_seconds (per_agent s) \<and> u s \<le> u s'"
      using assms(2) hit_used(1) [OF assms(2)] fw.inv_hit [OF assms(2)] by (auto simp: u_def hit_simps)
    moreover have "u s' = u s + 1 \<and> u s < max_agent_rpm (limits_for (u_plan owner))"
      if "slug_from_host st (rc_host c) = Some slug" "routed r"
      using that eq c(5) assms(6) hit_used(2) [OF assms(2)] by (auto simp: u_def)
    ultimately show ?thesis using c(1) by simp
  qed (use assms(2) in \<open>simp add: u_def\<close>)
  then show "in_db s' = in_db s" "limiter_ok (per_agent s')"
    "lm_window_seconds (per_agent s') = lm_window_seconds (per_agent s)" "u s \<le> u s'"
    "slug_from_host st (rc_host c) = Some slug \<Longrightarrow> routed r \<Longrightarrow>
      u s' = u s + 1 \<and> u s < max_agent_rpm (limits_for (u_plan owner))" by simp_all
qed

text \<open>
  C19: an agent's public URL serves no more than its plan allows. Of any sequence of calls within one
  limiter window, from any callers and for any agents, at most what is left of the owner's
  \<open>max_agent_rpm\<close> is routed to the agent of an account that is not exempt (all of it, 300 on the
  free plan, when the window starts).
\<close>

theorem served_within_plan:
  assumes "db_wf (in_db s)" and "limiter_ok (per_agent s)"
    and "get_row a_slug slug (agents (in_db s)) = Some ag"
    and "get_user (in_db s) (a_user_id ag) = Some owner" and "is_exempt ca owner = Inr False"
    and "\<forall>c \<in> set cs. window_of (lm_window_seconds (per_agent s)) (rc_clock c) =
      window_of (lm_window_seconds (per_agent s)) t"
  shows "int (served st cr ca slug s cs) \<le>
    max 0 (max_agent_rpm (limits_for (u_plan owner)) - window_used t (per_agent s) (a_id ag))"
  using assms
proof (induction cs arbitrary: s)
  case (Cons c cs)
  obtain s' r where r: "route st cr ca c s = (s', r)" by (metis prod.exhaust)
  note a = route_allowance [OF Cons.prems(1,2) r Cons.prems(3-5)]
  have w: "window_used (rc_clock c) (per_agent x) (a_id ag) = window_used t (per_agent x) (a_id ag)"
    if "lm_window_seconds (per_agent x) = lm_window_seconds (per_agent s)" for x
    using that Cons.prems(6) by (intro window_used_cong) simp
  have ih: "int (served st cr ca slug s' cs) \<le>
      max 0 (max_agent_rpm (limits_for (u_plan owner)) - window_used t (per_agent s') (a_id ag))"
    by (rule Cons.IH) (use Cons.prems a(1-3) in simp_all)
  then show ?case
    using a(4,5) w [of s] w [of s'] a(3) r by (auto simp: max_def split: if_split_asm)
qed simp

theorem served_within_plan_witness:
  "int (served sample_ingress_settings sample_crypto sample_core_auth ''demo-abc123'' sample_ingress
      (replicate 1000 (sample_call ''demo-abc123.x''))) \<le> 300"
proof -
  have "limiter_ok (per_agent sample_ingress)" "window_used 0 (per_agent sample_ingress) x = 0" for x
    by (simp_all add: sample_ingress_def window_used_new) (simp add: limiter_ok_def new_limiter_def)
  then show ?thesis
    using served_within_plan [OF sample_ingress_facts(1) _ sample_ingress_facts(3) _ sample_ingress_facts(6),
        of "replicate 1000 (sample_call ''demo-abc123.x'')" 0] sample_ingress_facts(5)
    by (simp add: sample_user_def free_limits_def sample_call_def)
qed

end
