(* ===== verification/Agent_Config.thy ===== *)
theory Agent_Config
  imports Ingress_Route
begin

text \<open>
  The pure part of \<open>services/agent_service.py\<close> and the request and response shapes of
  \<open>schemas/agents.py\<close>: slugs, environment variables and their encryption (\<open>security/secrets.py\<close>),
  deploy configurations and the response built from a stored agent. Random values (slug suffixes,
  encryption nonces) are arguments; which LLM provider serves a model is core's and a parameter.
\<close>

section \<open>Schemas (schemas/agents.py)\<close>

definition AGENT_STATUSES :: "string list" where
  "AGENT_STATUSES = [''pending'', ''building'', ''starting'', ''running'', ''scaling'', ''stopping'',
     ''stopped'', ''failed'', ''crashed'']"

definition RUNTIME_KINDS :: "string list" where
  "RUNTIME_KINDS = [''python3.12'', ''python3.11'', ''python3.10'', ''node20'', ''node22'', ''custom'']"

definition AGENT_ACCESS :: "string list" where
  "AGENT_ACCESS = [''public'', ''private'']"

record env_var =
  ev_key :: string
  ev_value :: string
  ev_secret :: bool

record resource_limits =
  rl_cpu :: rat
  rl_memory_mb :: int
  rl_gpu :: int
  rl_gpu_type :: "string option"
  rl_disk_gb :: int
  rl_ephemeral_storage_gb :: int

record deploy_config =
  dc_replicas :: int
  dc_resources :: resource_limits
  dc_env :: "env_var list"
  dc_image :: "string option"
  dc_build_path :: "string option"
  dc_command :: "string option"
  dc_args :: "string list"
  dc_health_check_path :: "string option"
  dc_auto_scale :: bool
  dc_min_replicas :: int
  dc_max_replicas :: int
  dc_port :: int

text \<open>The constraints of the pydantic fields; constructing a model that breaks one raises.\<close>

definition valid_resources :: "resource_limits \<Rightarrow> bool" where
  "valid_resources r \<longleftrightarrow> 1/10 \<le> rl_cpu r \<and> rl_cpu r \<le> 64 \<and> 128 \<le> rl_memory_mb r \<and> rl_memory_mb r \<le> 65536 \<and>
     0 \<le> rl_gpu r \<and> rl_gpu r \<le> 8 \<and> 1 \<le> rl_disk_gb r \<and> rl_disk_gb r \<le> 1000 \<and>
     1 \<le> rl_ephemeral_storage_gb r \<and> rl_ephemeral_storage_gb r \<le> 500"

definition valid_env_var :: "env_var \<Rightarrow> bool" where
  "valid_env_var e \<longleftrightarrow> 1 \<le> length (ev_key e) \<and> length (ev_key e) \<le> 256 \<and> length (ev_value e) \<le> 4096"

definition valid_deploy :: "deploy_config \<Rightarrow> bool" where
  "valid_deploy c \<longleftrightarrow> 1 \<le> dc_replicas c \<and> dc_replicas c \<le> 100 \<and> valid_resources (dc_resources c) \<and>
     (\<forall>e \<in> set (dc_env c). valid_env_var e) \<and>
     1 \<le> dc_min_replicas c \<and> dc_min_replicas c \<le> 100 \<and>
     1 \<le> dc_max_replicas c \<and> dc_max_replicas c \<le> 100 \<and> dc_min_replicas c \<le> dc_max_replicas c \<and>
     1 \<le> dc_port c \<and> dc_port c \<le> 65535"

definition make_deploy_config :: "deploy_config \<Rightarrow> deploy_config result" where
  "make_deploy_config c = (if valid_deploy c then Inr c else Inl (Unhandled ValidationError))"

record agent_config_in =
  ci_name :: string
  ci_runtime :: string
  ci_framework :: string
  ci_model :: string
  ci_api_key :: "string option"
  ci_system_prompt :: "string option"
  ci_deploy :: "deploy_config option"
  ci_access :: string
  ci_tags :: "string list"
  ci_metadata :: "(string \<times> string) list"

definition valid_agent_config :: "agent_config_in \<Rightarrow> bool" where
  "valid_agent_config c \<longleftrightarrow> 1 \<le> length (ci_name c) \<and> length (ci_name c) \<le> 128 \<and>
     ci_runtime c \<in> set RUNTIME_KINDS \<and>
     (case ci_system_prompt c of None \<Rightarrow> True | Some p \<Rightarrow> length p \<le> 32000) \<and>
     (case ci_deploy c of None \<Rightarrow> True | Some d \<Rightarrow> valid_deploy d) \<and>
     ci_access c \<in> set AGENT_ACCESS \<and> (\<forall>tag \<in> set (ci_tags c). length tag \<le> 64)"

text \<open>
  \<open>AgentUpdate\<close>: the rate limit is \<open>None\<close> when the field was not sent and \<open>Some None\<close> when it
  was sent as null.
\<close>

record agent_update =
  up_access :: "string option"
  up_rate_limit_rpm :: "int option option"

definition valid_agent_update :: "agent_update \<Rightarrow> bool" where
  "valid_agent_update u \<longleftrightarrow>
     (case up_access u of None \<Rightarrow> True | Some x \<Rightarrow> x \<in> set AGENT_ACCESS) \<and>
     (case up_rate_limit_rpm u of Some (Some r) \<Rightarrow> 1 \<le> r \<and> r \<le> 100000 | _ \<Rightarrow> True)"

section \<open>Secrets (secrets.py)\<close>

definition encrypt_secret :: "crypto \<Rightarrow> nat \<Rightarrow> string \<Rightarrow> string" where
  "encrypt_secret cr nonce raw_value = fernet_encrypt cr nonce raw_value"

definition decrypt_secret :: "crypto \<Rightarrow> string \<Rightarrow> string result" where
  "decrypt_secret cr encrypted_value = (case fernet_decrypt cr encrypted_value of
     None \<Rightarrow> Inl SecretDecryptionError | Some x \<Rightarrow> Inr x)"

section \<open>Slugs and URLs\<close>

definition SLUG_SUFFIX_ALPHABET :: string where
  "SLUG_SUFFIX_ALPHABET = ''abcdefghijklmnopqrstuvwxyz0123456789''"

text \<open>\<open>re.sub(r"[^a-z0-9]+", "-", s)\<close>: each maximal run of other characters becomes one dash.\<close>

fun dash_runs :: "bool \<Rightarrow> string \<Rightarrow> string" where
  "dash_runs in_run [] = []"
| "dash_runs in_run (c # s) =
     (if is_lower_alnum c then c # dash_runs False s
      else if in_run then dash_runs True s
      else CHR ''-'' # dash_runs True s)"

abbreviation is_dash :: "char \<Rightarrow> bool" where
  "is_dash c \<equiv> c = CHR ''-''"

definition slug_base :: "string \<Rightarrow> string" where
  "slug_base name =
     (let b = strip_by is_dash (take 40 (strip_by is_dash (dash_runs False (py_lower name))))
      in if b = [] then ''agent'' else b)"

definition new_slug :: "string \<Rightarrow> string \<Rightarrow> string" where
  "new_slug suffix name = slug_base name @ ''-'' @ suffix"

definition new_agent_id :: "string \<Rightarrow> string" where
  "new_agent_id token = ''agt_'' @ token"

definition public_url :: "settings \<Rightarrow> agent \<Rightarrow> string option" where
  "public_url st ag = (case agent_base_domain st of
     None \<Rightarrow> None
   | Some base \<Rightarrow> if base = [] then None else Some (''https://'' @ a_slug ag @ ''.'' @ base))"

section \<open>Environment variables\<close>

definition SECRET_MASK :: string where
  "SECRET_MASK = ''***''"

datatype llm_provider = OPENAI | ANTHROPIC | GOOGLE | OtherProvider nat

definition PROVIDER_KEY_ENV :: "(llm_provider \<times> string) list" where
  "PROVIDER_KEY_ENV = [(OPENAI, ''OPENAI_API_KEY''), (ANTHROPIC, ''ANTHROPIC_API_KEY''),
     (GOOGLE, ''GOOGLE_API_KEY'')]"

fun env_to_storage :: "crypto \<Rightarrow> nat \<Rightarrow> env_var list \<Rightarrow> env_entry list" where
  "env_to_storage cr n [] = []"
| "env_to_storage cr n (e # es) =
     \<lparr>e_key = ev_key e, e_value = (if ev_secret e then encrypt_secret cr n (ev_value e) else ev_value e),
      e_secret = ev_secret e\<rparr> # env_to_storage cr (n + 1) es"

definition env_from_storage_masked :: "env_entry list \<Rightarrow> env_var list" where
  "env_from_storage_masked stored = map (\<lambda>e.
     \<lparr>ev_key = e_key e, ev_value = (if e_secret e then SECRET_MASK else e_value e),
      ev_secret = e_secret e\<rparr>) stored"

text \<open>A Python dict under assignment: an existing key keeps its place.\<close>

fun dict_set :: "string \<Rightarrow> string \<Rightarrow> (string \<times> string) list \<Rightarrow> (string \<times> string) list" where
  "dict_set k v [] = [(k, v)]"
| "dict_set k v ((j, w) # d) = (if j = k then (k, v) # d else (j, w) # dict_set k v d)"

fun env_fill :: "crypto \<Rightarrow> (string \<times> string) list \<Rightarrow> env_entry list \<Rightarrow> (string \<times> string) list result" where
  "env_fill cr d [] = Inr d"
| "env_fill cr d (e # es) =
     bind_result (if e_secret e then decrypt_secret cr (e_value e) else Inr (e_value e))
       (\<lambda>v. env_fill cr (dict_set (e_key e) v d) es)"

definition env_for_container :: "crypto \<Rightarrow> env_entry list \<Rightarrow> (string \<times> string) list result" where
  "env_for_container cr stored = env_fill cr [] stored"

definition with_provider_key ::
  "crypto \<Rightarrow> (string \<Rightarrow> llm_provider) \<Rightarrow> nat \<Rightarrow> env_entry list \<Rightarrow> string \<Rightarrow> string \<Rightarrow> env_entry list result" where
  "with_provider_key cr for_model nonce env model key =
     (case map_of PROVIDER_KEY_ENV (for_model model) of
        None \<Rightarrow> Inl (Unhandled KeyError)
      | Some key_name \<Rightarrow>
          Inr (filter (\<lambda>e. e_key e \<noteq> key_name) env @
            [\<lparr>e_key = key_name, e_value = encrypt_secret cr nonce key, e_secret = True\<rparr>]))"

section \<open>Deploy configurations\<close>

definition kept_env :: "env_entry list \<Rightarrow> env_entry list \<Rightarrow> env_entry list" where
  "kept_env new_env old =
     filter (\<lambda>e. e_key e \<in> snd ` set PROVIDER_KEY_ENV \<and> e_key e \<notin> e_key ` set new_env) old"

definition apply_deploy_config :: "crypto \<Rightarrow> nat \<Rightarrow> deploy_config \<Rightarrow> agent \<Rightarrow> agent" where
  "apply_deploy_config cr nonce c ag =
     (let new_env = env_to_storage cr nonce (dc_env c) in
      ag\<lparr>a_replicas := dc_replicas c,
         a_cpu := rl_cpu (dc_resources c),
         a_memory_mb := rl_memory_mb (dc_resources c),
         a_gpu := rl_gpu (dc_resources c),
         a_gpu_type := rl_gpu_type (dc_resources c),
         a_disk_gb := rl_disk_gb (dc_resources c),
         a_ephemeral_storage_gb := rl_ephemeral_storage_gb (dc_resources c),
         a_env := new_env @ kept_env new_env (a_env ag),
         a_image := dc_image c,
         a_build_path := dc_build_path c,
         a_command := dc_command c,
         a_args := dc_args c,
         a_health_check_path := dc_health_check_path c,
         a_auto_scale := dc_auto_scale c,
         a_min_replicas := dc_min_replicas c,
         a_max_replicas := dc_max_replicas c,
         a_port := dc_port c\<rparr>)"

definition deploy_config_from_agent :: "agent \<Rightarrow> deploy_config result" where
  "deploy_config_from_agent ag = make_deploy_config
     \<lparr>dc_replicas = a_replicas ag,
      dc_resources = \<lparr>rl_cpu = a_cpu ag, rl_memory_mb = a_memory_mb ag, rl_gpu = a_gpu ag,
        rl_gpu_type = a_gpu_type ag, rl_disk_gb = a_disk_gb ag,
        rl_ephemeral_storage_gb = a_ephemeral_storage_gb ag\<rparr>,
      dc_env = env_from_storage_masked (a_env ag),
      dc_image = a_image ag,
      dc_build_path = a_build_path ag,
      dc_command = a_command ag,
      dc_args = a_args ag,
      dc_health_check_path = a_health_check_path ag,
      dc_auto_scale = a_auto_scale ag,
      dc_min_replicas = a_min_replicas ag,
      dc_max_replicas = a_max_replicas ag,
      dc_port = a_port ag\<rparr>"

section \<open>Responses\<close>

record agent_response =
  ar_id :: string
  ar_name :: string
  ar_runtime :: string
  ar_framework :: string
  ar_model :: string
  ar_status :: string
  ar_created_at :: timestamp
  ar_url :: "string option"
  ar_deploy :: "deploy_config option"
  ar_tags :: "string list"
  ar_metadata :: "(string \<times> string) list"
  ar_error :: "string option"
  ar_version :: int
  ar_replicas :: int
  ar_access :: string
  ar_rate_limit_rpm :: "int option"
  ar_access_key :: "string option"

definition has_deploy_config :: "agent \<Rightarrow> bool" where
  "has_deploy_config ag \<longleftrightarrow> a_status ag \<noteq> ''pending'' \<or> a_image ag \<noteq> None \<or> a_build_path ag \<noteq> None"

text \<open>Building the response validates it: an unknown status, runtime or access raises.\<close>

definition make_response :: "agent_response \<Rightarrow> agent_response result" where
  "make_response r = (if ar_status r \<in> set AGENT_STATUSES \<and> ar_runtime r \<in> set RUNTIME_KINDS \<and>
       ar_access r \<in> set AGENT_ACCESS then Inr r else Inl (Unhandled ValidationError))"

definition to_agent_response :: "settings \<Rightarrow> agent \<Rightarrow> agent_response result" where
  "to_agent_response st ag =
     bind_result (if has_deploy_config ag
         then bind_result (deploy_config_from_agent ag) (\<lambda>c. Inr (Some c)) else Inr None) (\<lambda>deploy.
       make_response \<lparr>ar_id = a_id ag, ar_name = a_name ag, ar_runtime = a_runtime ag, ar_framework = a_framework ag,
            ar_model = a_model ag, ar_status = a_status ag, ar_created_at = a_created_at ag,
            ar_url = public_url st ag, ar_deploy = deploy, ar_tags = a_tags ag, ar_metadata = a_metadata ag,
            ar_error = a_error ag, ar_version = a_version ag, ar_replicas = a_replicas ag,
            ar_access = a_access ag, ar_rate_limit_rpm = a_rate_limit_rpm ag, ar_access_key = None\<rparr>)"

text \<open>What a container sees of a list of variables: the last definition of a key.\<close>

definition env_lookup :: "env_var list \<Rightarrow> string \<Rightarrow> string option" where
  "env_lookup env k = map_of (rev (map (\<lambda>e. (ev_key e, ev_value e)) env)) k"

text \<open>Agents that differ in nothing but the values of their secrets.\<close>

definition same_but_secrets :: "agent \<Rightarrow> agent \<Rightarrow> bool" where
  "same_but_secrets a b \<longleftrightarrow> a\<lparr>a_env := []\<rparr> = b\<lparr>a_env := []\<rparr> \<and>
     map (\<lambda>e. (e_key e, e_secret e, if e_secret e then [] else e_value e)) (a_env a) =
     map (\<lambda>e. (e_key e, e_secret e, if e_secret e then [] else e_value e)) (a_env b)"

section \<open>Lemmas on slugs\<close>

lemma set_dash_runs: "\<forall>c \<in> set (dash_runs b s). is_lower_alnum c \<or> c = CHR ''-''"
  by (induction b s rule: dash_runs.induct) auto

lemma slug_base_chars: "\<forall>c \<in> set (slug_base name). is_lower_alnum c \<or> c = CHR ''-''"
proof -
  have "set (strip_by is_dash (take 40 (strip_by is_dash (dash_runs False (py_lower name))))) \<subseteq>
      set (dash_runs False (py_lower name))"
    by (meson order_trans set_strip_by set_take_subset)
  moreover have "\<forall>c \<in> set ''agent''. is_lower_alnum c" by code_simp
  ultimately show ?thesis
    using set_dash_runs [of False "py_lower name"] by (auto simp: slug_base_def Let_def)
qed

lemma slug_base_shape: "slug_base name \<noteq> [] \<and> length (slug_base name) \<le> 40 \<and> hd (slug_base name) \<noteq> CHR ''-''"
proof -
  let ?x = "take 40 (strip_by is_dash (dash_runs False (py_lower name)))"
  have "length (strip_by is_dash ?x) \<le> 40"
    using length_strip_by [of is_dash ?x] by simp
  then show ?thesis
    using strip_by_ends(1) [of is_dash ?x] by (auto simp: slug_base_def Let_def)
qed

section \<open>Lemmas on environment variables\<close>

definition entry_value :: "crypto \<Rightarrow> env_entry \<Rightarrow> string result" where
  "entry_value cr e = (if e_secret e then decrypt_secret cr (e_value e) else Inr (e_value e))"

lemma map_of_dict_set: "map_of (dict_set k v d) = (map_of d)(k \<mapsto> v)"
  by (induction k v d rule: dict_set.induct) auto

lemma env_fill_Cons:
  "env_fill cr d (e # es) = bind_result (entry_value cr e) (\<lambda>v. env_fill cr (dict_set (e_key e) v d) es)"
  by (simp add: entry_value_def)

lemma env_fill_ok: "(\<exists>d'. env_fill cr d es = Inr d') \<longleftrightarrow> (\<forall>e \<in> set es. \<exists>v. entry_value cr e = Inr v)"
proof (induction es arbitrary: d)
  case (Cons e es)
  then show ?case by (cases "entry_value cr e") (simp_all add: env_fill_Cons del: env_fill.simps)
qed simp

lemma env_fill_lookup:
  "env_fill cr d es = Inr d' \<Longrightarrow> (case filter (\<lambda>e. e_key e = k) es of
      [] \<Rightarrow> map_of d' k = map_of d k
    | xs \<Rightarrow> \<exists>v. entry_value cr (last xs) = Inr v \<and> map_of d' k = Some v)"
proof (induction es arbitrary: d)
  case (Cons e es)
  obtain v where v: "entry_value cr e = Inr v" "env_fill cr (dict_set (e_key e) v d) es = Inr d'"
    using Cons.prems by (auto simp: env_fill_Cons result_simps simp del: env_fill.simps)
  show ?case
    using Cons.IH [OF v(2)] v(1) by (auto simp: map_of_dict_set split: list.splits)
qed simp

lemma env_storage_filter:
  "filter (\<lambda>e. e_key e = k) (env_to_storage cr n env) = [] \<longleftrightarrow> filter (\<lambda>e. ev_key e = k) env = []"
  by (induction cr n env rule: env_to_storage.induct) auto

lemma keys_env_to_storage: "e_key ` set (env_to_storage cr n env) = ev_key ` set env"
  by (induction cr n env rule: env_to_storage.induct) auto

lemma stored_values:
  "fernet_law cr \<Longrightarrow> filter (\<lambda>e. ev_key e = k) env \<noteq> [] \<Longrightarrow>
   entry_value cr (last (filter (\<lambda>e. e_key e = k) (env_to_storage cr n env))) =
     Inr (ev_value (last (filter (\<lambda>e. ev_key e = k) env)))"
proof (induction cr n env rule: env_to_storage.induct)
  case (2 cr n e es)
  show ?case
  proof (cases "filter (\<lambda>e. ev_key e = k) es = []")
    case True
    then show ?thesis
      using 2(2,3) env_storage_filter [of k cr "n + 1" es]
      by (auto simp: entry_value_def decrypt_secret_def encrypt_secret_def fernet_law_def split: if_split_asm)
  next
    case False
    then show ?thesis
      using 2(1) [OF 2(2) False] env_storage_filter [of k cr "n + 1" es] by auto
  qed
qed simp

lemma stored_decrypts: "fernet_law cr \<Longrightarrow> e \<in> set (env_to_storage cr n env) \<Longrightarrow> \<exists>v. entry_value cr e = Inr v"
  by (induction cr n env rule: env_to_storage.induct)
    (auto simp: entry_value_def decrypt_secret_def encrypt_secret_def fernet_law_def)

lemma map_of_last:
  "map_of (rev (map (\<lambda>e. (key e, val e)) xs)) k =
    (if filter (\<lambda>e. key e = k) xs = [] then None else Some (val (last (filter (\<lambda>e. key e = k) xs))))"
  by (induction xs) (auto simp: map_add_def split: option.splits)

lemma masked_of_view: "env_from_storage_masked x =
    map (\<lambda>(k, secret, v). \<lparr>ev_key = k, ev_value = (if secret then SECRET_MASK else v), ev_secret = secret\<rparr>)
      (map (\<lambda>e. (e_key e, e_secret e, if e_secret e then [] else e_value e)) x)"
  by (simp add: env_from_storage_masked_def)

lemma masked_storage: "env_from_storage_masked (env_to_storage cr n env) =
    map (\<lambda>e. e\<lparr>ev_value := if ev_secret e then SECRET_MASK else ev_value e\<rparr>) env"
  by (induction cr n env rule: env_to_storage.induct) (auto simp: env_from_storage_masked_def)

definition mask_secret :: "env_var \<Rightarrow> env_var" where
  "mask_secret e = e\<lparr>ev_value := if ev_secret e then SECRET_MASK else ev_value e\<rparr>"

lemma masked_storage_map: "env_from_storage_masked (env_to_storage cr n env) = map mask_secret env"
  by (simp add: masked_storage mask_secret_def)

lemma masked_append: "env_from_storage_masked (xs @ ys) = env_from_storage_masked xs @ env_from_storage_masked ys"
  by (simp add: env_from_storage_masked_def)

lemma masked_valid:
  "\<forall>e \<in> set xs. e_key e \<in> snd ` set PROVIDER_KEY_ENV \<and> (e_secret e \<or> length (e_value e) \<le> 4096) \<Longrightarrow>
   x \<in> set (env_from_storage_masked xs) \<Longrightarrow> valid_env_var x"
  by (auto simp: valid_env_var_def PROVIDER_KEY_ENV_def SECRET_MASK_def env_from_storage_masked_def)

section \<open>Properties\<close>

text \<open>
  Every slug is a valid DNS label. Whatever the agent's name and whichever six characters are
  drawn for the suffix, the slug consists of lower-case letters, digits and dashes, neither starts
  nor ends with a dash, has at most 47 characters, and is read back from the public hostname.
\<close>

theorem slug_is_dns_label:
  assumes "length suffix = 6" and "set suffix \<subseteq> set SLUG_SUFFIX_ALPHABET"
    and "agent_base_domain st = Some base" and "rstrip_by is_dot base \<noteq> []" and "CHR '':'' \<notin> set base"
  shows "dns_label (new_slug suffix name) \<and> length (new_slug suffix name) \<le> 47 \<and>
    hd (new_slug suffix name) \<noteq> CHR ''-'' \<and> last (new_slug suffix name) \<noteq> CHR ''-'' \<and>
    slug_from_host st (public_host (new_slug suffix name) base) = Some (new_slug suffix name)"
proof -
  have alpha: "\<forall>c \<in> set SLUG_SUFFIX_ALPHABET. is_lower_alnum c \<and> c \<noteq> CHR ''-''" by code_simp
  have suf: "\<forall>c \<in> set suffix. is_lower_alnum c \<and> c \<noteq> CHR ''-''" "suffix \<noteq> []"
    using alpha subsetD [OF assms(2)] assms(1) by (blast, force)
  have label: "dns_label (new_slug suffix name)"
    using slug_base_chars [of name] suf by (auto simp: dns_label_def new_slug_def)
  then have "slug_from_host st (public_host (new_slug suffix name) base) = Some (new_slug suffix name)"
    using slug_of_public_host [of "new_slug suffix name" st base _ "[]" 0] assms(3-5) by simp
  then show ?thesis
    using label slug_base_shape [of name] suf assms(1) by (auto simp: new_slug_def)
qed

theorem slug_is_dns_label_witness:
  "dns_label (new_slug ''a1b2c3'' ''My Bot!'') \<and>
   new_slug ''a1b2c3'' ''My Bot!'' = ''my-bot-a1b2c3''"
proof
  have "rstrip_by is_dot ''run.dev'' \<noteq> []" by code_simp
  then show "dns_label (new_slug ''a1b2c3'' ''My Bot!'')"
    using slug_is_dns_label [of "''a1b2c3''" "default_settings\<lparr>agent_base_domain := Some ''run.dev''\<rparr>"
        "''run.dev''" "''My Bot!''"]
    by (simp add: SLUG_SUFFIX_ALPHABET_def)
  show "new_slug ''a1b2c3'' ''My Bot!'' = ''my-bot-a1b2c3''" by code_simp
qed

text \<open>
  C16: secrets reach the container and nobody else. Stored variables, encrypted or not, come back in
  the container's environment with their values (the last definition of a name wins); and the API
  response of an agent does not depend on the values of its secrets at all.
\<close>

theorem secrets_roundtrip_and_hidden:
  assumes "fernet_law cr" and "same_but_secrets ag ag2"
  shows "(\<exists>d. env_for_container cr (env_to_storage cr n env) = Inr d \<and> (\<forall>k. map_of d k = env_lookup env k)) \<and>
    to_agent_response st ag = to_agent_response st ag2"
proof
  obtain d where d: "env_fill cr [] (env_to_storage cr n env) = Inr d"
    using env_fill_ok stored_decrypts [OF assms(1)] by metis
  have "map_of d k = env_lookup env k" for k
    using env_fill_lookup [OF d, of k] stored_values [OF assms(1), of k env n] env_storage_filter [of k cr n env]
    by (auto simp: env_lookup_def map_of_last split: list.split_asm)
  then show "\<exists>d. env_for_container cr (env_to_storage cr n env) = Inr d \<and> (\<forall>k. map_of d k = env_lookup env k)"
    using d by (auto simp: env_for_container_def)
  have env: "env_from_storage_masked (a_env ag) = env_from_storage_masked (a_env ag2)"
    using assms(2) unfolding same_but_secrets_def masked_of_view by (elim conjE) (simp only:)
  have base: "ag2\<lparr>a_env := []\<rparr> = ag\<lparr>a_env := []\<rparr>"
    using assms(2) unfolding same_but_secrets_def by (elim conjE) (rule sym)
  have "ag2\<lparr>a_env := []\<rparr>\<lparr>a_env := a_env ag2\<rparr> = ag\<lparr>a_env := []\<rparr>\<lparr>a_env := a_env ag2\<rparr>"
    by (simp only: base)
  then have "ag2 = ag\<lparr>a_env := a_env ag2\<rparr>" by simp
  then obtain e where e: "ag2 = ag\<lparr>a_env := e\<rparr>" by blast
  have env': "env_from_storage_masked (a_env ag) = env_from_storage_masked e"
    using env e by simp
  have "deploy_config_from_agent ag2 = deploy_config_from_agent ag"
    unfolding deploy_config_from_agent_def e env' by simp
  moreover have "has_deploy_config ag2 = has_deploy_config ag" "public_url st ag2 = public_url st ag"
    by (simp_all add: e has_deploy_config_def public_url_def split: option.split)
  ultimately show "to_agent_response st ag = to_agent_response st ag2"
    unfolding to_agent_response_def by (simp only:) (simp add: e)
qed

theorem secrets_roundtrip_and_hidden_witness:
  "to_agent_response default_settings
     (sample_agent\<lparr>a_env := [\<lparr>e_key = ''K'', e_value = ''x1'', e_secret = True\<rparr>]\<rparr>) =
   to_agent_response default_settings
     (sample_agent\<lparr>a_env := [\<lparr>e_key = ''K'', e_value = ''x2'', e_secret = True\<rparr>]\<rparr>)"
  by (rule conjunct2 [OF secrets_roundtrip_and_hidden [OF sample_fernet_law]]) (simp add: same_but_secrets_def)

text \<open>
  A deploy configuration is stored and shown faithfully. Applied to an agent and read back for
  the API, a valid configuration comes out unchanged, secrets masked, followed by the masked
  provider keys the agent already had and the configuration does not redefine.
\<close>

theorem deploy_config_roundtrip:
  assumes "valid_deploy c" and "\<forall>e \<in> set (a_env ag). e_secret e \<or> length (e_value e) \<le> 4096"
  shows "deploy_config_from_agent (apply_deploy_config cr n c ag) =
    Inr (c\<lparr>dc_env := map mask_secret (dc_env c) @
      env_from_storage_masked
        (filter (\<lambda>e. e_key e \<in> snd ` set PROVIDER_KEY_ENV \<and> e_key e \<notin> ev_key ` set (dc_env c)) (a_env ag))\<rparr>)"
proof -
  let ?kept = "kept_env (env_to_storage cr n (dc_env c)) (a_env ag)"
  have kept: "?kept = filter (\<lambda>e. e_key e \<in> snd ` set PROVIDER_KEY_ENV \<and> e_key e \<notin> ev_key ` set (dc_env c)) (a_env ag)"
    by (simp add: kept_env_def keys_env_to_storage)
  have "\<forall>e \<in> set (env_from_storage_masked ?kept). valid_env_var e"
    by (intro ballI, erule masked_valid [rotated]) (use assms(2) kept in auto)
  moreover have "\<forall>e \<in> set (map mask_secret (dc_env c)). valid_env_var e"
    using assms(1) by (auto simp: valid_deploy_def valid_env_var_def mask_secret_def SECRET_MASK_def)
  ultimately show ?thesis
    using assms(1)
    by (simp add: deploy_config_from_agent_def apply_deploy_config_def Let_def masked_append masked_storage_map
        make_deploy_config_def valid_deploy_def ball_Un valid_resources_def flip: kept)
qed

theorem deploy_config_roundtrip_witness:
  "\<exists>c. valid_deploy c \<and> deploy_config_from_agent (apply_deploy_config sample_crypto 0 c sample_agent) =
     Inr (c\<lparr>dc_env := [\<lparr>ev_key = ''K'', ev_value = SECRET_MASK, ev_secret = True\<rparr>]\<rparr>)"
  (is "\<exists>c. ?P c")
proof
  let ?c = "\<lparr>dc_replicas = 2, dc_resources = \<lparr>rl_cpu = 1, rl_memory_mb = 512, rl_gpu = 0, rl_gpu_type = None,
      rl_disk_gb = 10, rl_ephemeral_storage_gb = 5\<rparr>,
      dc_env = [\<lparr>ev_key = ''K'', ev_value = ''s'', ev_secret = True\<rparr>], dc_image = None, dc_build_path = None,
      dc_command = None, dc_args = [], dc_health_check_path = None, dc_auto_scale = False,
      dc_min_replicas = 1, dc_max_replicas = 10, dc_port = 8080\<rparr>"
  have "valid_deploy ?c"
    by (simp add: valid_deploy_def valid_resources_def valid_env_var_def)
  then show "?P ?c"
    using deploy_config_roundtrip [of ?c sample_agent sample_crypto 0]
    by (simp add: sample_agent_def mask_secret_def env_from_storage_masked_def)
qed

end
