(* ===== verification/Core_Runtime.thy ===== *)
theory Core_Runtime
  imports Agent_Config
begin

text \<open>
  The bridge to the container runtime (\<open>runtime.py\<close>). The runtime itself, \<open>AgentRuntime\<close> of
  agntspark\_core, is not part of the repository: it is a parameter, the record of the operations
  the gateway calls, over a state of any type. An operation may change the runtime's state also
  when it raises. What is the gateway's own, the configuration handed to the runtime, is defined here.
\<close>

section \<open>What the runtime offers\<close>

text \<open>A container, as far as the gateway looks at it: its address.\<close>

type_synonym container = "string option"

text \<open>The dictionary \<open>health_check\<close> returns; a missing key is \<open>None\<close>.\<close>

record health =
  he_containers :: "(rat option \<times> rat option) list option" \<comment> \<open>cpu\_percent and memory\_mb of each\<close>
  he_healthy :: "bool option"
  he_consecutive_failures :: "int option"

record raw_log =
  lg_replica_id :: string
  lg_timestamp :: string
  lg_message :: string

text \<open>\<open>AgentConfig\<close> of agntspark\_core; an amount that is not set keeps the core's default,
  and an amount of CPU is kept as a number where the code passes its text.\<close>

record core_config =
  cc_name :: string
  cc_agent_id :: string
  cc_system_prompt :: string
  cc_provider :: llm_provider
  cc_model :: string
  cc_cpu_limit :: "rat option"
  cc_cpu_request :: "rat option"
  cc_memory_limit :: "string option"
  cc_memory_request :: "string option"

record core_settings =
  cs_docker_socket :: string
  cs_docker_image :: string
  cs_docker_network :: string
  cs_auth_enabled :: bool

text \<open>An operation of the runtime returns or raises an exception that is not the gateway's own.\<close>

type_synonym 'a core_result = "py_exception + 'a"

definition from_core :: "'a core_result \<Rightarrow> 'a result" where
  "from_core r = (case r of Inl x \<Rightarrow> Inl (Unhandled x) | Inr a \<Rightarrow> Inr a)"

record 'r core_runtime =
  core_deploy :: "core_config \<Rightarrow> int \<Rightarrow> (string \<times> string) list \<Rightarrow> string option \<Rightarrow> 'r \<Rightarrow> 'r \<times> container list core_result"
  core_stop :: "string \<Rightarrow> 'r \<Rightarrow> 'r \<times> string list core_result"
  core_remove :: "string \<Rightarrow> bool \<Rightarrow> 'r \<Rightarrow> 'r \<times> string list core_result"
  core_health_check :: "string \<Rightarrow> 'r \<Rightarrow> 'r \<times> health core_result"
  core_get_logs :: "string \<Rightarrow> string option \<Rightarrow> int \<Rightarrow> 'r \<Rightarrow> raw_log list core_result"
  core_scale :: "string \<Rightarrow> string \<Rightarrow> int \<Rightarrow> 'r \<Rightarrow> 'r \<times> unit core_result"
  core_auto_scale :: "string \<Rightarrow> 'r \<Rightarrow> 'r \<times> unit core_result"
  core_get_containers :: "string \<Rightarrow> 'r \<Rightarrow> container list"
  core_list_all :: "'r \<Rightarrow> string list"
  core_reconcile :: "'r \<Rightarrow> 'r \<times> int core_result"

text \<open>
  Everything the services get from outside: the cryptography, the roles, which provider serves a
  model, the text of an exception, the parser of timestamps, and the runtime.
\<close>

record 'r platform =
  pl_crypto :: crypto
  pl_auth :: core_auth
  pl_for_model :: "string \<Rightarrow> llm_provider"
  pl_str_exc :: "gw_error \<Rightarrow> string"
  pl_parse_datetime :: "string \<Rightarrow> timestamp option"
  pl_runtime :: "'r core_runtime"

section \<open>The bridge\<close>

definition build_core_runtime :: "settings \<Rightarrow> core_settings" where
  "build_core_runtime st = \<lparr>cs_docker_socket = docker_socket st, cs_docker_image = docker_image st,
     cs_docker_network = docker_network st, cs_auth_enabled = False\<rparr>"

definition startup_reconcile :: "'r platform \<Rightarrow> 'r \<Rightarrow> 'r" where
  "startup_reconcile pf r = fst (core_reconcile (pl_runtime pf) r)"

definition to_core_config ::
  "'r platform \<Rightarrow> string \<Rightarrow> string \<Rightarrow> string \<Rightarrow> string option \<Rightarrow> (rat option \<times> int option) option \<Rightarrow> core_config" where
  "to_core_config pf agent_id name model system_prompt resources =
     (let model = (if model = [] then ''gpt-4o'' else model);
          cpu = (case resources of None \<Rightarrow> None | Some (cpu, _) \<Rightarrow> cpu);
          memory = (case resources of None \<Rightarrow> None
            | Some (_, memory_mb) \<Rightarrow> map_option (\<lambda>m. py_str_int m @ ''m'') memory_mb)
      in
      \<lparr>cc_name = name, cc_agent_id = agent_id,
       cc_system_prompt = (case system_prompt of None \<Rightarrow> [] | Some p \<Rightarrow> p),
       cc_provider = pl_for_model pf model, cc_model = model,
       cc_cpu_limit = cpu, cc_cpu_request = cpu, cc_memory_limit = memory, cc_memory_request = memory\<rparr>)"

definition rt_deploy_agent ::
  "'r platform \<Rightarrow> string \<Rightarrow> string \<Rightarrow> string \<Rightarrow> string option \<Rightarrow> int \<Rightarrow> (string \<times> string) list \<Rightarrow> string option \<Rightarrow>
   (rat option \<times> int option) option \<Rightarrow> 'r \<Rightarrow> 'r \<times> container list result" where
  "rt_deploy_agent pf agent_id name model system_prompt replicas env img resources r =
     apsnd from_core (core_deploy (pl_runtime pf) (to_core_config pf agent_id name model system_prompt resources)
       replicas env img r)"

definition rt_stop_agent :: "'r platform \<Rightarrow> string \<Rightarrow> 'r \<Rightarrow> 'r \<times> string list result" where
  "rt_stop_agent pf agent_id r = apsnd from_core (core_stop (pl_runtime pf) agent_id r)"

definition rt_remove_agent :: "'r platform \<Rightarrow> string \<Rightarrow> 'r \<Rightarrow> 'r \<times> string list result" where
  "rt_remove_agent pf agent_id r = apsnd from_core (core_remove (pl_runtime pf) agent_id True r)"

definition rt_health_check :: "'r platform \<Rightarrow> string \<Rightarrow> 'r \<Rightarrow> 'r \<times> health result" where
  "rt_health_check pf agent_id r = apsnd from_core (core_health_check (pl_runtime pf) agent_id r)"

definition rt_get_logs :: "'r platform \<Rightarrow> string \<Rightarrow> string option \<Rightarrow> int \<Rightarrow> 'r \<Rightarrow> raw_log list result" where
  "rt_get_logs pf agent_id replica_id n r = from_core (core_get_logs (pl_runtime pf) agent_id replica_id n r)"

definition rt_scale_agent :: "'r platform \<Rightarrow> string \<Rightarrow> string \<Rightarrow> int \<Rightarrow> 'r \<Rightarrow> 'r \<times> unit result" where
  "rt_scale_agent pf agent_id direction n r = apsnd from_core (core_scale (pl_runtime pf) agent_id direction n r)"

definition rt_auto_scale :: "'r platform \<Rightarrow> string \<Rightarrow> 'r \<Rightarrow> 'r \<times> unit result" where
  "rt_auto_scale pf agent_id r = apsnd from_core (core_auto_scale (pl_runtime pf) agent_id r)"

definition rt_get_containers :: "'r platform \<Rightarrow> string \<Rightarrow> 'r \<Rightarrow> container list" where
  "rt_get_containers pf agent_id r = core_get_containers (pl_runtime pf) agent_id r"

definition known_agent_ids :: "'r platform \<Rightarrow> 'r \<Rightarrow> string list" where
  "known_agent_ids pf r = core_list_all (pl_runtime pf) r"

lemma from_core_Inl: "from_core r = Inl e \<Longrightarrow> \<exists>x. e = Unhandled x \<and> r = Inl x"
  by (auto simp: from_core_def split: sum.split_asm)

lemma from_core_Inr: "from_core r = Inr a \<longleftrightarrow> r = Inr a"
  by (auto simp: from_core_def split: sum.split)

lemma apsnd_from_core:
  "apsnd from_core x = (r, Inr a) \<longleftrightarrow> x = (r, Inr a)"
  "apsnd from_core x = (r, Inl e) \<longleftrightarrow> (\<exists>y. e = Unhandled y \<and> x = (r, Inl y))"
  by (cases x; auto simp: from_core_def split: sum.split)+

lemmas bridge_defs = rt_deploy_agent_def rt_stop_agent_def rt_remove_agent_def rt_health_check_def
  rt_get_logs_def rt_scale_agent_def rt_auto_scale_def rt_get_containers_def

section \<open>An example runtime\<close>

text \<open>
  A runtime that keeps the number of replicas of each agent, deploys what it is asked for, and does
  not know an agent it did not deploy. It shows that the hypotheses of the properties can hold.
\<close>

type_synonym sample_state = "(string \<times> nat) list"

definition sample_replicas :: "string \<Rightarrow> sample_state \<Rightarrow> nat" where
  "sample_replicas aid r = (case map_of r aid of None \<Rightarrow> 0 | Some n \<Rightarrow> n)"

definition sample_runtime :: "sample_state core_runtime" where
  "sample_runtime = \<lparr>
     core_deploy = (\<lambda>c n env img r. ((cc_agent_id c, nat n) # r, Inr (replicate (nat n) (Some ''10.0.0.2'')))),
     core_stop = (\<lambda>aid r. ((aid, 0) # r, Inr [])),
     core_remove = (\<lambda>aid force r. (filter (\<lambda>x. fst x \<noteq> aid) r, Inr [])),
     core_health_check = (\<lambda>aid r. (r, Inr \<lparr>he_containers =
         Some (replicate (sample_replicas aid r) (Some 20, Some 128)), he_healthy = Some True,
         he_consecutive_failures = Some 0\<rparr>)),
     core_get_logs = (\<lambda>aid rid n r. if map_of r aid = None then Inl (CoreContainerNotFoundError aid)
         else Inr [\<lparr>lg_replica_id = ''r0'', lg_timestamp = ''0'', lg_message = ''started''\<rparr>]),
     core_scale = (\<lambda>aid direction n r. case map_of r aid of
         None \<Rightarrow> (r, Inl (CoreContainerNotFoundError aid))
       | Some k \<Rightarrow> ((aid, if direction = ''up'' then k + nat n else k - nat n) # r, Inr ())),
     core_auto_scale = (\<lambda>aid r. (r, Inr ())),
     core_get_containers = (\<lambda>aid r. replicate (sample_replicas aid r) (Some ''10.0.0.2'')),
     core_list_all = map fst,
     core_reconcile = (\<lambda>r. (r, Inr 0))\<rparr>"

definition sample_platform :: "sample_state platform" where
  "sample_platform = \<lparr>pl_crypto = sample_crypto, pl_auth = sample_core_auth, pl_for_model = (\<lambda>_. OPENAI),
     pl_str_exc = (\<lambda>_. ''error''), pl_parse_datetime = (\<lambda>_. Some 0), pl_runtime = sample_runtime\<rparr>"

end
