(* ===== verification/Agent_Service.thy ===== *)
theory Agent_Service
  imports Core_Runtime
begin

text \<open>
  The agent service (\<open>services/agent_service.py\<close>): creating, reading, updating, listing, deploying,
  scaling and deleting agents, their logs and metrics. The service works on two stores, the database
  (what an agent should be) and the container runtime (what is running); an operation returns both,
  with its result or the error it raised, so that what an error leaves behind is visible. Each
  operation is one transition: other writers of the same row in the middle of it are not modelled.
\<close>

section \<open>State and helpers\<close>

record 'r service =
  sv_db :: db
  sv_rt :: 'r

text \<open>An operation that raises before it has written anything.\<close>

definition check_then :: "'a result \<Rightarrow> ('a \<Rightarrow> 's \<times> 'b result) \<Rightarrow> 's \<Rightarrow> 's \<times> 'b result" where
  "check_then r k s = (case r of Inl e \<Rightarrow> (s, Inl e) | Inr a \<Rightarrow> k a)"

text \<open>Assigning columns of one agent and committing.\<close>

definition commit_agent :: "string \<Rightarrow> (agent \<Rightarrow> agent) \<Rightarrow> 'r service \<Rightarrow> 'r service" where
  "commit_agent agent_id f s = s\<lparr>sv_db := set_agent agent_id f (sv_db s)\<rparr>"

definition set_status :: "string \<Rightarrow> agent \<Rightarrow> agent" where
  "set_status x a = a\<lparr>a_status := x\<rparr>"

definition failed_with :: "string \<Rightarrow> agent \<Rightarrow> agent" where
  "failed_with text a = a\<lparr>a_status := ''failed'', a_error := Some text\<rparr>"

definition deployed :: "nat \<Rightarrow> agent \<Rightarrow> agent" where
  "deployed n a = a\<lparr>a_status := ''running'', a_replicas := int n, a_error := None,
     a_version := a_version a + 1\<rparr>"

definition scaled :: "nat \<Rightarrow> agent \<Rightarrow> agent" where
  "scaled n a = a\<lparr>a_replicas := (if n = 0 then a_replicas a else int n), a_status := ''running''\<rparr>"

section \<open>Reading and updating\<close>

definition get_owned :: "uuid \<Rightarrow> string \<Rightarrow> db \<Rightarrow> agent result" where
  "get_owned user_id agent_id d =
     bind_result (select_one (\<lambda>a. a_id a = agent_id \<and> a_user_id a = user_id) (agents d)) (\<lambda>found.
       case found of None \<Rightarrow> Inl (AgentNotFoundError agent_id) | Some ag \<Rightarrow> Inr ag)"

definition get_agent :: "uuid \<Rightarrow> string \<Rightarrow> db \<Rightarrow> agent result" where
  "get_agent user_id agent_id d = get_owned user_id agent_id d"

definition apply_agent_update :: "agent_update \<Rightarrow> agent \<Rightarrow> agent" where
  "apply_agent_update b a =
     a\<lparr>a_access := (case up_access b of None \<Rightarrow> a_access a | Some x \<Rightarrow> x),
       a_rate_limit_rpm := (case up_rate_limit_rpm b of None \<Rightarrow> a_rate_limit_rpm a | Some r \<Rightarrow> r)\<rparr>"

definition update_agent :: "uuid \<Rightarrow> string \<Rightarrow> agent_update \<Rightarrow> db \<Rightarrow> (db \<times> agent) result" where
  "update_agent user_id agent_id b d =
     bind_result (get_owned user_id agent_id d) (\<lambda>ag.
       Inr (set_agent (a_id ag) (apply_agent_update b) d, apply_agent_update b ag))"

definition agent_matches :: "uuid \<Rightarrow> string option \<Rightarrow> string option \<Rightarrow> agent \<Rightarrow> bool" where
  "agent_matches user_id status tag a \<longleftrightarrow> a_user_id a = user_id \<and>
     (if truthy status then status = Some (a_status a) else True) \<and>
     (if truthy tag then the tag \<in> set (a_tags a) else True)"

text \<open>
  \<open>arrange\<close> is the order in which the database comes across the rows while it carries out the query:
  any permutation, which it may choose anew for every query, and which decides how the sort leaves rows of the
  same time, since \<open>created_at\<close> is the only sort key.
\<close>

definition list_agents ::
  "(agent list \<Rightarrow> agent list) \<Rightarrow> uuid \<Rightarrow> string option \<Rightarrow> string option \<Rightarrow> int \<Rightarrow> int \<Rightarrow> db \<Rightarrow>
   agent list \<times> int" where
  "list_agents arrange user_id status tag page page_size d =
     (let rows = filter (agent_matches user_id status tag) (agents d) in
      (take (nat page_size) (drop (nat ((page - 1) * page_size)) (order_by_desc a_created_at (arrange rows))),
       int (length rows)))"

section \<open>Deploying\<close>

text \<open>The part of \<open>deploy_agent\<close> from the call of the runtime on; the status is already ``starting''.\<close>

definition launch :: "'r platform \<Rightarrow> agent \<Rightarrow> 'r service \<Rightarrow> 'r service \<times> agent result" where
  "launch pf ag s =
     (let (rt', outcome) = (case env_for_container (pl_crypto pf) (a_env ag) of
            Inl e \<Rightarrow> (sv_rt s, Inl e)
          | Inr env \<Rightarrow> rt_deploy_agent pf (a_id ag) (a_name ag) (a_model ag) (a_system_prompt ag)
              (a_replicas ag) env (a_image ag) (Some (Some (a_cpu ag), Some (a_memory_mb ag))) (sv_rt s));
          s' = s\<lparr>sv_rt := rt'\<rparr>
      in case outcome of
           Inl e \<Rightarrow> (commit_agent (a_id ag) (failed_with (pl_str_exc pf e)) s',
                     Inl (DeploymentFailedError (a_id ag) (pl_str_exc pf e)))
         | Inr cs \<Rightarrow> (commit_agent (a_id ag) (deployed (length cs)) s', Inr (deployed (length cs) ag)))"

definition configured :: "'r platform \<Rightarrow> nat \<Rightarrow> deploy_config option \<Rightarrow> agent \<Rightarrow> agent" where
  "configured pf nonce deploy ag = (case deploy of None \<Rightarrow> ag
     | Some c \<Rightarrow> apply_deploy_config (pl_crypto pf) nonce c ag)"

definition deploy_agent ::
  "'r platform \<Rightarrow> nat \<Rightarrow> uuid \<Rightarrow> string \<Rightarrow> deploy_config option \<Rightarrow> 'r service \<Rightarrow> 'r service \<times> agent result" where
  "deploy_agent pf nonce user_id agent_id deploy s =
     check_then (get_owned user_id agent_id (sv_db s)) (\<lambda>ag.
       check_then (ensure_resources (pl_auth pf) (sv_db s) user_id (Some (a_id ag))
           (case deploy of None \<Rightarrow> a_replicas ag | Some c \<Rightarrow> dc_replicas c)
           (case deploy of None \<Rightarrow> a_cpu ag | Some c \<Rightarrow> rl_cpu (dc_resources c))
           (case deploy of None \<Rightarrow> a_memory_mb ag | Some c \<Rightarrow> rl_memory_mb (dc_resources c))) (\<lambda>_.
         let ag1 = configured pf nonce deploy ag;
             s1 = commit_agent (a_id ag) (configured pf nonce deploy) s
         in if deploy \<noteq> None \<and> \<not> agent_fits ag1 then (s, Inl (Unhandled DataError))
            else if a_image ag1 = None \<and> a_build_path ag1 \<noteq> None then (s1, Inl BuildNotSupportedError)
            else launch pf ag1 (commit_agent (a_id ag) (set_status ''starting'') s1)) s) s"

section \<open>Creating and deleting\<close>

record agent_draw =
  ad_token :: string
  ad_suffix :: string
  ad_nonce :: nat
  ad_now :: timestamp

text \<open>The row a request makes, with the defaults of the table (models/agent.py).\<close>

definition new_agent :: "agent_draw \<Rightarrow> uuid \<Rightarrow> agent_config_in \<Rightarrow> agent" where
  "new_agent dr user_id b =
     \<lparr>a_id = new_agent_id (ad_token dr), a_user_id = user_id, a_slug = new_slug (ad_suffix dr) (ci_name b),
      a_name = ci_name b, a_runtime = ci_runtime b, a_framework = ci_framework b, a_model = ci_model b,
      a_system_prompt = ci_system_prompt b, a_tags = ci_tags b, a_metadata = ci_metadata b,
      a_status = ''pending'', a_error = None, a_version = 1, a_access = ci_access b,
      a_rate_limit_rpm = None, a_replicas = 0, a_cpu = 1, a_memory_mb = 512, a_gpu = 0,
      a_gpu_type = None, a_disk_gb = 10, a_ephemeral_storage_gb = 5, a_env = [], a_image = None,
      a_build_path = None, a_command = None, a_args = [], a_health_check_path = None,
      a_auto_scale = False, a_min_replicas = 1, a_max_replicas = 10, a_port = 8080,
      a_created_at = ad_now dr\<rparr>"

definition prepared_agent :: "'r platform \<Rightarrow> agent_draw \<Rightarrow> uuid \<Rightarrow> agent_config_in \<Rightarrow> agent result" where
  "prepared_agent pf dr user_id b =
     (let ag = configured pf (ad_nonce dr) (ci_deploy b) (new_agent dr user_id b) in
      if truthy (ci_api_key b)
      then bind_result (with_provider_key (pl_crypto pf) (pl_for_model pf) (ad_nonce dr + length (a_env ag))
             (a_env ag) (ci_model b) (the (ci_api_key b))) (\<lambda>env. Inr (ag\<lparr>a_env := env\<rparr>))
      else Inr ag)"

definition create_agent ::
  "'r platform \<Rightarrow> agent_draw \<Rightarrow> uuid \<Rightarrow> agent_config_in \<Rightarrow> 'r service \<Rightarrow> 'r service \<times> agent result" where
  "create_agent pf dr user_id b s =
     check_then (ensure_can_create_agent (pl_auth pf) (sv_db s) user_id) (\<lambda>_.
       check_then (case ci_deploy b of None \<Rightarrow> Inr ()
           | Some c \<Rightarrow> ensure_resources (pl_auth pf) (sv_db s) user_id None (dc_replicas c)
               (rl_cpu (dc_resources c)) (rl_memory_mb (dc_resources c))) (\<lambda>_.
         check_then (prepared_agent pf dr user_id b) (\<lambda>ag.
           check_then (insert_agent ag (sv_db s)) (\<lambda>d'.
             if ci_deploy b = None then (s\<lparr>sv_db := d'\<rparr>, Inr ag)
             else deploy_agent pf 0 user_id (a_id ag) None (s\<lparr>sv_db := d'\<rparr>)) s) s) s) s"

definition delete_agent :: "'r platform \<Rightarrow> uuid \<Rightarrow> string \<Rightarrow> 'r service \<Rightarrow> 'r service \<times> unit result" where
  "delete_agent pf user_id agent_id s =
     check_then (get_owned user_id agent_id (sv_db s)) (\<lambda>ag.
       case rt_remove_agent pf (a_id ag) (sv_rt s) of
         (rt', Inl e) \<Rightarrow> (s\<lparr>sv_rt := rt'\<rparr>, Inl e)
       | (rt', Inr _) \<Rightarrow> (\<lparr>sv_db = remove_agent_row (a_id ag) (sv_db s), sv_rt = rt'\<rparr>, Inr ())) s"

section \<open>Scaling\<close>

fun scaling_error :: "gw_error \<Rightarrow> bool" where
  "scaling_error (Unhandled (CoreScalingError _)) = True"
| "scaling_error (Unhandled (CoreContainerNotFoundError _)) = True"
| "scaling_error _ = False"

definition scale_agent ::
  "'r platform \<Rightarrow> uuid \<Rightarrow> string \<Rightarrow> string \<Rightarrow> int \<Rightarrow> 'r service \<Rightarrow> 'r service \<times> (agent \<times> int) result" where
  "scale_agent pf user_id agent_id direction n s =
     check_then (get_owned user_id agent_id (sv_db s)) (\<lambda>ag.
       check_then (if direction = ''up''
           then ensure_resources (pl_auth pf) (sv_db s) user_id (Some (a_id ag)) (a_replicas ag + n)
             (a_cpu ag) (a_memory_mb ag) else Inr ()) (\<lambda>_.
         let s1 = commit_agent (a_id ag) (set_status ''scaling'') s;
             (rt', outcome) = rt_scale_agent pf (a_id ag) direction n (sv_rt s);
             s2 = s1\<lparr>sv_rt := rt'\<rparr>
         in case outcome of
              Inl e \<Rightarrow> if scaling_error e
                then (commit_agent (a_id ag) (failed_with (pl_str_exc pf e)) s2,
                      Inl (DeploymentFailedError (a_id ag) (pl_str_exc pf e)))
                else (s2, Inl e)
            | Inr _ \<Rightarrow>
                let live = length (rt_get_containers pf (a_id ag) rt') in
                (commit_agent (a_id ag) (scaled live) s2, Inr (scaled live ag, a_replicas ag))) s) s"

section \<open>Logs and metrics\<close>

record agent_log =
  al_agent_id :: string
  al_replica_id :: string
  al_timestamp :: timestamp
  al_level :: string
  al_message :: string
  al_source :: string

text \<open>\<open>str.upper\<close> on ASCII letters (no other character becomes a letter of \<open>INFO\<close>), \<open>x in s\<close>, and \<open>xs[-n:]\<close>.\<close>

definition upper_char :: "char \<Rightarrow> char" where
  "upper_char c = (let n = code_point c in if 97 \<le> n \<and> n \<le> 122 then char_of (n - 32) else c)"

definition py_upper :: "string \<Rightarrow> string" where
  "py_upper s = map upper_char s"

fun py_in :: "string \<Rightarrow> string \<Rightarrow> bool" where
  "py_in x [] = (x = [])"
| "py_in x (c # s) = (starts_with (c # s) x \<or> py_in x s)"

definition py_last :: "int \<Rightarrow> 'a list \<Rightarrow> 'a list" where
  "py_last n xs = (if n > 0 then drop (length xs - nat n) xs else drop (nat (- n)) xs)"

fun make_logs :: "'r platform \<Rightarrow> string \<Rightarrow> raw_log list \<Rightarrow> agent_log list result" where
  "make_logs pf agent_id [] = Inr []"
| "make_logs pf agent_id (e # es) = (case pl_parse_datetime pf (lg_timestamp e) of
     None \<Rightarrow> Inl (Unhandled ValidationError)
   | Some t \<Rightarrow> bind_result (make_logs pf agent_id es) (\<lambda>rest.
       Inr (\<lparr>al_agent_id = agent_id, al_replica_id = lg_replica_id e, al_timestamp = t,
             al_level = ''INFO'', al_message = lg_message e, al_source = ''stdout''\<rparr> # rest)))"

definition level_matches :: "string \<Rightarrow> agent_log \<Rightarrow> bool" where
  "level_matches level l \<longleftrightarrow> py_in (py_lower level) (py_lower (al_message l)) \<or> py_upper level = al_level l"

definition get_logs ::
  "'r platform \<Rightarrow> uuid \<Rightarrow> string \<Rightarrow> string option \<Rightarrow> string option \<Rightarrow> int \<Rightarrow> 'r service \<Rightarrow> agent_log list result" where
  "get_logs pf user_id agent_id level replica_id limit s =
     bind_result (get_owned user_id agent_id (sv_db s)) (\<lambda>ag.
       case rt_get_logs pf (a_id ag) replica_id limit (sv_rt s) of
         Inl (Unhandled (CoreContainerNotFoundError _)) \<Rightarrow> Inr []
       | Inl e \<Rightarrow> Inl e
       | Inr raw \<Rightarrow> bind_result (make_logs pf (a_id ag) raw) (\<lambda>logs.
           Inr (py_last limit (if truthy level then filter (level_matches (the level)) logs else logs))))"

record metrics =
  mt_agent_id :: string
  mt_cpu_percent :: rat
  mt_memory_mb :: int
  mt_memory_percent :: rat
  mt_replicas :: int

definition make_metrics :: "metrics \<Rightarrow> metrics result" where
  "make_metrics m = (if 0 \<le> mt_cpu_percent m \<and> 0 \<le> mt_memory_mb m \<and> 0 \<le> mt_memory_percent m \<and>
      mt_memory_percent m \<le> 100 then Inr m else Inl (Unhandled ValidationError))"

text \<open>\<open>c.get(k, 0.0)\<close>, and \<open>int(x)\<close>, which cuts off towards zero.\<close>

definition or_zero :: "rat option \<Rightarrow> rat" where
  "or_zero x = (case x of None \<Rightarrow> 0 | Some v \<Rightarrow> v)"

definition py_int :: "rat \<Rightarrow> int" where
  "py_int x = (if x < 0 then - floor (- x) else floor x)"

definition metrics_of :: "agent \<Rightarrow> (rat option \<times> rat option) list \<Rightarrow> metrics" where
  "metrics_of ag cs =
     (let n = (if cs = [] then 1 else of_nat (length cs));
          avg_cpu = sum_list (map (or_zero \<circ> fst) cs) / n;
          avg_mem = sum_list (map (or_zero \<circ> snd) cs) / n;
          mem_percent = (if a_memory_mb ag \<noteq> 0
            then min 100 (avg_mem / of_int (a_memory_mb ag) * 100) else 0)
      in \<lparr>mt_agent_id = a_id ag, mt_cpu_percent = py_round 2 avg_cpu, mt_memory_mb = py_int avg_mem,
          mt_memory_percent = py_round 2 mem_percent, mt_replicas = int (length cs)\<rparr>)"

definition get_metrics :: "'r platform \<Rightarrow> uuid \<Rightarrow> string \<Rightarrow> 'r service \<Rightarrow> 'r service \<times> metrics result" where
  "get_metrics pf user_id agent_id s =
     check_then (get_owned user_id agent_id (sv_db s)) (\<lambda>ag.
       case rt_health_check pf (a_id ag) (sv_rt s) of
         (rt', Inl e) \<Rightarrow> (s\<lparr>sv_rt := rt'\<rparr>, Inl e)
       | (rt', Inr h) \<Rightarrow> (s\<lparr>sv_rt := rt'\<rparr>,
           make_metrics (metrics_of ag (case he_containers h of None \<Rightarrow> [] | Some cs \<Rightarrow> cs)))) s"

section \<open>The service as a machine\<close>

datatype svc_event =
    Create agent_draw uuid agent_config_in
  | Update uuid string agent_update
  | Deploy nat uuid string "deploy_config option"
  | Scale uuid string string int
  | Delete uuid string

fun caller :: "svc_event \<Rightarrow> uuid" where
  "caller (Create _ u _) = u"
| "caller (Update u _ _) = u"
| "caller (Deploy _ u _ _) = u"
| "caller (Scale u _ _ _) = u"
| "caller (Delete u _) = u"

text \<open>The committed effect of a request, whatever its result.\<close>

fun svc_step :: "'r platform \<Rightarrow> 'r service \<Rightarrow> svc_event \<Rightarrow> 'r service" where
  "svc_step pf s (Create dr u b) = fst (create_agent pf dr u b s)"
| "svc_step pf s (Update u aid b) = (case update_agent u aid b (sv_db s) of
     Inl _ \<Rightarrow> s | Inr (d', _) \<Rightarrow> s\<lparr>sv_db := d'\<rparr>)"
| "svc_step pf s (Deploy n u aid c) = fst (deploy_agent pf n u aid c s)"
| "svc_step pf s (Scale u aid dir n) = fst (scale_agent pf u aid dir n s)"
| "svc_step pf s (Delete u aid) = fst (delete_agent pf u aid s)"

text \<open>A change of the database that concerns one agent only.\<close>

definition only_agent :: "string \<Rightarrow> db \<Rightarrow> db \<Rightarrow> bool" where
  "only_agent aid d d' \<longleftrightarrow> users d' = users d \<and> api_keys d' = api_keys d \<and> invites d' = invites d \<and>
     usage_hours d' = usage_hours d \<and>
     (\<forall>b. b \<noteq> aid \<longrightarrow> get_row a_id b (agents d') = get_row a_id b (agents d)) \<and>
     filter (\<lambda>k. ak_agent_id k \<noteq> aid) (access_keys d') = filter (\<lambda>k. ak_agent_id k \<noteq> aid) (access_keys d) \<and>
     (db_wf d \<longrightarrow> db_wf d')"

section \<open>Lemmas\<close>

lemma check_then_simps [simp]:
  "check_then (Inl e) k s = (s, Inl e)" "check_then (Inr a) k s = k a"
  by (simp_all add: check_then_def)

lemma check_then_cases:
  assumes "check_then r k s = (s', x)"
  obtains e where "r = Inl e" "s' = s" "x = Inl e" | a where "r = Inr a" "k a = (s', x)"
  using assms by (cases r) auto

lemma get_owned_wf:
  assumes "db_wf d"
  shows "get_owned u aid d = (case get_row a_id aid (agents d) of
    None \<Rightarrow> Inl (AgentNotFoundError aid)
  | Some ag \<Rightarrow> if a_user_id ag = u then Inr ag else Inl (AgentNotFoundError aid))"
proof -
  have "filter (\<lambda>a. a_id a = aid \<and> a_user_id a = u) (agents d) =
      filter (\<lambda>a. a_user_id a = u) (filter (\<lambda>a. a_id a = aid) (agents d))"
    by (simp add: conj_commute)
  then show ?thesis
    using filter_unique [OF db_wfD(7) [OF assms], of aid]
    by (simp add: get_owned_def select_one_def one_or_none_def split: option.split)
qed

lemma get_owned_ok:
  "get_owned u aid d = Inr ag \<Longrightarrow> ag \<in> set (agents d) \<and> a_id ag = aid \<and> a_user_id ag = u"
  by (auto simp: get_owned_def result_simps split: option.split_asm dest: select_one_Some)

lemma agent_changes_keep [simp]:
  "a_id (set_status x a) = a_id a" "a_slug (set_status x a) = a_slug a" "a_user_id (set_status x a) = a_user_id a"
  "a_id (failed_with t a) = a_id a" "a_slug (failed_with t a) = a_slug a" "a_user_id (failed_with t a) = a_user_id a"
  "a_id (deployed n a) = a_id a" "a_slug (deployed n a) = a_slug a" "a_user_id (deployed n a) = a_user_id a"
  "a_id (scaled n a) = a_id a" "a_slug (scaled n a) = a_slug a" "a_user_id (scaled n a) = a_user_id a"
  "a_id (apply_agent_update b a) = a_id a" "a_slug (apply_agent_update b a) = a_slug a"
  "a_user_id (apply_agent_update b a) = a_user_id a"
  "a_id (configured pf n c a) = a_id a" "a_slug (configured pf n c a) = a_slug a"
  "a_user_id (configured pf n c a) = a_user_id a"
  by (simp_all add: set_status_def failed_with_def deployed_def scaled_def apply_agent_update_def
      configured_def apply_deploy_config_def Let_def split: option.split)

lemma only_agent_refl [simp]: "only_agent aid d d"
  by (simp add: only_agent_def)

lemma only_agent_trans: "only_agent aid d d1 \<Longrightarrow> only_agent aid d1 d2 \<Longrightarrow> only_agent aid d d2"
  by (auto simp: only_agent_def)

lemma other_tables [simp]:
  "api_keys (set_agent aid f d) = api_keys d" "invites (set_agent aid f d) = invites d"
  "usage_hours (set_agent aid f d) = usage_hours d"
  by (simp_all add: set_agent_def)

lemma only_agent_set:
  assumes "\<And>a. a_id (f a) = a_id a" "\<And>a. a_slug (f a) = a_slug a" "\<And>a. a_user_id (f a) = a_user_id a"
  shows "only_agent aid d (set_agent aid f d)"
  using assms by (simp add: only_agent_def set_agent_wf get_row_update)

lemma sv_db_commit [simp]:
  "sv_db (commit_agent aid f s) = set_agent aid f (sv_db s)" "sv_rt (commit_agent aid f s) = sv_rt s"
  by (simp_all add: commit_agent_def)

lemma only_agent_commit:
  assumes "only_agent aid d (sv_db s)"
    and "\<And>a. a_id (f a) = a_id a" "\<And>a. a_slug (f a) = a_slug a" "\<And>a. a_user_id (f a) = a_user_id a"
  shows "only_agent aid d (set_agent aid f (sv_db s))"
  using only_agent_trans [OF assms(1)] only_agent_set assms(2-4) by blast

lemma launch_cases:
  assumes "launch pf ag s = (s', r)"
  obtains rt' env cs where "env_for_container (pl_crypto pf) (a_env ag) = Inr env"
      "rt_deploy_agent pf (a_id ag) (a_name ag) (a_model ag) (a_system_prompt ag) (a_replicas ag) env
         (a_image ag) (Some (Some (a_cpu ag), Some (a_memory_mb ag))) (sv_rt s) = (rt', Inr cs)"
      "r = Inr (deployed (length cs) ag)"
      "s' = commit_agent (a_id ag) (deployed (length cs)) (s\<lparr>sv_rt := rt'\<rparr>)"
  | rt' msg where "r = Inl (DeploymentFailedError (a_id ag) msg)"
      "s' = commit_agent (a_id ag) (failed_with msg) (s\<lparr>sv_rt := rt'\<rparr>)"
proof -
  obtain rt' outcome where o: "(case env_for_container (pl_crypto pf) (a_env ag) of
      Inl e \<Rightarrow> (sv_rt s, Inl e)
    | Inr env \<Rightarrow> rt_deploy_agent pf (a_id ag) (a_name ag) (a_model ag) (a_system_prompt ag)
        (a_replicas ag) env (a_image ag) (Some (Some (a_cpu ag), Some (a_memory_mb ag))) (sv_rt s)) = (rt', outcome)"
    by fastforce
  then show ?thesis
    using assms that by (cases outcome) (auto simp: launch_def split: sum.split_asm)
qed

lemma deploy_cases:
  assumes "deploy_agent pf n u aid c s = (s', r)"
  obtains e where "s' = s" "r = Inl e" "e \<noteq> BuildNotSupportedError" "\<forall>i t. e \<noteq> DeploymentFailedError i t"
  | ag where "get_owned u aid (sv_db s) = Inr ag" "r = Inl BuildNotSupportedError"
      "s' = commit_agent aid (configured pf n c) s"
  | ag where "get_owned u aid (sv_db s) = Inr ag"
      "launch pf (configured pf n c ag)
         (commit_agent aid (set_status ''starting'') (commit_agent aid (configured pf n c) s)) = (s', r)"
proof -
  have no: "get_owned u aid (sv_db s) = Inl e \<Longrightarrow> e \<noteq> BuildNotSupportedError \<and> (\<forall>i t. e \<noteq> DeploymentFailedError i t)" for e
    by (auto simp: get_owned_def result_simps select_one_def split: option.split_asm)
  have nq: "ensure_resources ca d u x r' c' m = Inl e \<Longrightarrow> e \<noteq> BuildNotSupportedError \<and> (\<forall>i t. e \<noteq> DeploymentFailedError i t)"
    for ca d x r' c' m e
    by (auto simp: ensure_resources_def result_simps quota_user_def is_exempt_def role_enum_def Let_def
        split: option.split_asm if_split_asm)
  show ?thesis
    using assms no nq get_owned_ok that unfolding deploy_agent_def Let_def
    by (elim check_then_cases) (fastforce split: if_split_asm)+
qed

lemma launch_only:
  assumes "launch pf ag s = (s', r)" and "only_agent (a_id ag) d (sv_db s)"
  shows "only_agent (a_id ag) d (sv_db s')"
  using assms(1) by (rule launch_cases) (use assms(2) in \<open>auto intro!: only_agent_commit\<close>)

lemma deploy_only:
  assumes "deploy_agent pf n u aid c s = (s', r)"
  shows "only_agent aid (sv_db s) (sv_db s')"
  using assms
proof (rule deploy_cases)
  fix ag
  assume o: "get_owned u aid (sv_db s) = Inr ag"
    and l: "launch pf (configured pf n c ag)
       (commit_agent aid (set_status ''starting'') (commit_agent aid (configured pf n c) s)) = (s', r)"
  have "a_id (configured pf n c ag) = aid" using get_owned_ok [OF o] by simp
  moreover have "only_agent aid (sv_db s)
      (sv_db (commit_agent aid (set_status ''starting'') (commit_agent aid (configured pf n c) s)))"
    unfolding sv_db_commit by (rule only_agent_trans [OF only_agent_set only_agent_set]) simp_all
  ultimately show ?thesis
    using launch_only [OF l] by simp
qed (simp_all add: only_agent_set)

lemma scale_cases:
  assumes "scale_agent pf u aid dir n s = (s', r)"
  obtains e where "s' = s" "r = Inl e"
  | ag rt' where "get_owned u aid (sv_db s) = Inr ag"
      "sv_db s' = set_agent aid (set_status ''scaling'') (sv_db s)" "sv_rt s' = rt'"
      "\<exists>x. r = Inl (Unhandled x) \<and> \<not> scaling_error (Unhandled x)"
  | ag msg where "get_owned u aid (sv_db s) = Inr ag" "r = Inl (DeploymentFailedError aid msg)"
      "sv_db s' = set_agent aid (failed_with msg) (set_agent aid (set_status ''scaling'') (sv_db s))"
  | ag where "get_owned u aid (sv_db s) = Inr ag"
      "r = Inr (scaled (length (rt_get_containers pf aid (sv_rt s'))) ag, a_replicas ag)"
      "sv_db s' = set_agent aid (scaled (length (rt_get_containers pf aid (sv_rt s'))))
         (set_agent aid (set_status ''scaling'') (sv_db s))"
  using assms unfolding scale_agent_def
proof (elim check_then_cases)
  fix ag
  assume o: "get_owned u aid (sv_db s) = Inr ag"
  obtain rt' x where x: "rt_scale_agent pf (a_id ag) dir n (sv_rt s) = (rt', x)" by fastforce
  assume "(let s1 = commit_agent (a_id ag) (set_status ''scaling'') s;
       (rt', outcome) = rt_scale_agent pf (a_id ag) dir n (sv_rt s); s2 = s1\<lparr>sv_rt := rt'\<rparr>
     in case outcome of
          Inl e \<Rightarrow> if scaling_error e
            then (commit_agent (a_id ag) (failed_with (pl_str_exc pf e)) s2,
                  Inl (DeploymentFailedError (a_id ag) (pl_str_exc pf e)))
            else (s2, Inl e)
        | Inr _ \<Rightarrow>
            let live = length (rt_get_containers pf (a_id ag) rt') in
            (commit_agent (a_id ag) (scaled live) s2, Inr (scaled live ag, a_replicas ag))) = (s', r)"
  then show ?thesis
    using o that x get_owned_ok [OF o] x [unfolded rt_scale_agent_def]
    by (cases x) (auto simp: Let_def apsnd_from_core split: if_split_asm)
qed (use that in blast)+

lemma scale_only:
  assumes "scale_agent pf u aid dir n s = (s', r)"
  shows "only_agent aid (sv_db s) (sv_db s')"
  using assms
  by (rule scale_cases) (auto intro!: only_agent_set only_agent_trans [OF only_agent_set only_agent_set])

lemma only_agent_remove: "only_agent aid d (remove_agent_row aid d)"
  using remove_agent_row_wf [of d aid] by (simp add: only_agent_def remove_agent_row_def get_row_delete)

lemma delete_cases:
  assumes "delete_agent pf u aid s = (s', r)"
  obtains e where "sv_db s' = sv_db s" "r = Inl e"
  | ag where "get_owned u aid (sv_db s) = Inr ag" "sv_db s' = remove_agent_row aid (sv_db s)" "r = Inr ()"
  using assms unfolding delete_agent_def
proof (elim check_then_cases)
  fix ag
  assume o: "get_owned u aid (sv_db s) = Inr ag"
  obtain rt' x where x: "rt_remove_agent pf (a_id ag) (sv_rt s) = (rt', x)" by fastforce
  assume "(case rt_remove_agent pf (a_id ag) (sv_rt s) of
         (rt', Inl e) \<Rightarrow> (s\<lparr>sv_rt := rt'\<rparr>, Inl e)
       | (rt', Inr _) \<Rightarrow> (\<lparr>sv_db = remove_agent_row (a_id ag) (sv_db s), sv_rt = rt'\<rparr>, Inr ())) = (s', r)"
  then show ?thesis
    using o that x get_owned_ok [OF o] by (cases x) auto
qed (use that in blast)

lemma delete_only:
  assumes "delete_agent pf u aid s = (s', r)"
  shows "only_agent aid (sv_db s) (sv_db s')"
  using assms by (rule delete_cases) (simp_all add: only_agent_remove)

lemma update_only:
  assumes "update_agent u aid b d = Inr (d', ag)"
  shows "only_agent aid d d'"
  using assms by (auto simp: update_agent_def result_simps dest!: get_owned_ok intro!: only_agent_set)

lemma prepared_agent_keeps:
  "prepared_agent pf dr u b = Inr ag \<Longrightarrow> a_id ag = new_agent_id (ad_token dr) \<and> a_user_id ag = u \<and>
     a_status ag = ''pending''"
  by (auto simp: prepared_agent_def Let_def result_simps new_agent_def configured_def apply_deploy_config_def
      split: if_split_asm option.split_asm)

lemma insert_agent_only:
  assumes "insert_agent ag d = Inr d'"
  shows "only_agent (a_id ag) d d'" and "a_id ag \<notin> a_id ` set (agents d)" and "agents d' = agents d @ [ag]"
  using assms insert_agent_wf [OF assms]
  by (auto simp: only_agent_def insert_agent_def get_row_append get_row_Cons split: if_split_asm option.split)

lemma create_cases:
  assumes "create_agent pf dr u b s = (s', r)"
  obtains e where "s' = s" "r = Inl e"
  | ag d' where "prepared_agent pf dr u b = Inr ag" "insert_agent ag (sv_db s) = Inr d'"
      "ci_deploy b = None" "s' = s\<lparr>sv_db := d'\<rparr>" "r = Inr ag"
  | ag d' c where "prepared_agent pf dr u b = Inr ag" "insert_agent ag (sv_db s) = Inr d'"
      "ci_deploy b = Some c" "ensure_resources (pl_auth pf) (sv_db s) u None (dc_replicas c)
         (rl_cpu (dc_resources c)) (rl_memory_mb (dc_resources c)) = Inr ()"
      "deploy_agent pf 0 u (a_id ag) None (s\<lparr>sv_db := d'\<rparr>) = (s', r)"
  using assms that unfolding create_agent_def by (elim check_then_cases) (auto split: if_split_asm option.split_asm)

lemma create_only:
  assumes "create_agent pf dr u b s = (s', r)"
  shows "only_agent (new_agent_id (ad_token dr)) (sv_db s) (sv_db s')" and
    "sv_db s' \<noteq> sv_db s \<Longrightarrow> new_agent_id (ad_token dr) \<notin> a_id ` set (agents (sv_db s))"
proof -
  have "only_agent (new_agent_id (ad_token dr)) (sv_db s) (sv_db s') \<and>
      (s' = s \<or> new_agent_id (ad_token dr) \<notin> a_id ` set (agents (sv_db s)))"
    using assms
  proof (rule create_cases)
    fix ag d' c
    assume p: "prepared_agent pf dr u b = Inr ag" and i: "insert_agent ag (sv_db s) = Inr d'"
      and "deploy_agent pf 0 u (a_id ag) None (s\<lparr>sv_db := d'\<rparr>) = (s', r)"
    then have "only_agent (a_id ag) d' (sv_db s')" using deploy_only by fastforce
    then show ?thesis
      using insert_agent_only [OF i] prepared_agent_keeps [OF p] only_agent_trans by metis
  qed (use insert_agent_only prepared_agent_keeps in fastforce)+
  then show "only_agent (new_agent_id (ad_token dr)) (sv_db s) (sv_db s')"
    "sv_db s' \<noteq> sv_db s \<Longrightarrow> new_agent_id (ad_token dr) \<notin> a_id ` set (agents (sv_db s))"
    by auto
qed

fun target :: "svc_event \<Rightarrow> string" where
  "target (Create dr _ _) = new_agent_id (ad_token dr)"
| "target (Update _ aid _) = aid"
| "target (Deploy _ _ aid _) = aid"
| "target (Scale _ aid _ _) = aid"
| "target (Delete _ aid) = aid"

lemma svc_step_only: "only_agent (target ev) (sv_db s) (sv_db (svc_step pf s ev))"
proof (cases ev)
  case (Create dr u b)
  then show ?thesis using create_only(1) [of pf dr u b s] by (cases "create_agent pf dr u b s") simp
next
  case (Deploy n u aid c)
  then show ?thesis using deploy_only [of pf n u aid c s] by (cases "deploy_agent pf n u aid c s") simp
next
  case (Scale u aid dir n)
  then show ?thesis using scale_only [of pf u aid dir n s] by (cases "scale_agent pf u aid dir n s") simp
next
  case (Delete u aid)
  then show ?thesis using delete_only [of pf u aid s] by (cases "delete_agent pf u aid s") simp
qed (auto simp: update_only split: sum.split)

text \<open>A request on an agent of somebody else, or on none, writes nothing.\<close>

lemma svc_step_foreign:
  assumes "db_wf (sv_db s)" and "get_row a_id (target ev) (agents (sv_db s)) = Some ag"
    and "a_user_id ag \<noteq> caller ev"
  shows "sv_db (svc_step pf s ev) = sv_db s"
proof -
  have no: "get_owned (caller ev) (target ev) (sv_db s) = Inl (AgentNotFoundError (target ev))"
    using assms by (simp add: get_owned_wf)
  show ?thesis
  proof (cases ev)
    case (Create dr u b)
    obtain s' r where c: "create_agent pf dr u b s = (s', r)" by fastforce
    have "new_agent_id (ad_token dr) \<in> a_id ` set (agents (sv_db s))"
      using get_row_Some [OF assms(2)] Create by force
    then show ?thesis using create_only(2) [OF c] c Create by auto
  qed (use no in \<open>simp_all add: update_agent_def deploy_agent_def scale_agent_def delete_agent_def\<close>)
qed

definition service_inv :: "string \<Rightarrow> agent \<Rightarrow> access_key list \<Rightarrow> 'r service \<Rightarrow> bool" where
  "service_inv aid ag ks s \<longleftrightarrow> db_wf (sv_db s) \<and> get_row a_id aid (agents (sv_db s)) = Some ag \<and>
     filter (\<lambda>k. ak_agent_id k = aid) (access_keys (sv_db s)) = ks"

lemma filter_other_agent:
  assumes "filter (\<lambda>k. ak_agent_id k \<noteq> x) ks' = filter (\<lambda>k. ak_agent_id k \<noteq> x) ks" and "aid \<noteq> x"
  shows "filter (\<lambda>k. ak_agent_id k = aid) ks' = filter (\<lambda>k. ak_agent_id k = aid) ks"
proof -
  have "filter (\<lambda>k. ak_agent_id k = aid) (filter (\<lambda>k. ak_agent_id k \<noteq> x) l) = filter (\<lambda>k. ak_agent_id k = aid) l" for l
    using assms(2) by (auto intro: filter_cong)
  then show ?thesis using assms(1) by metis
qed

lemma svc_step_isolation:
  assumes "service_inv aid ag ks s" and "a_user_id ag \<noteq> caller ev"
  shows "service_inv aid ag ks (svc_step pf s ev)"
proof (cases "target ev = aid")
  case True
  then show ?thesis
    using svc_step_foreign [of s ev ag pf] assms by (simp add: service_inv_def)
next
  case False
  have o: "only_agent (target ev) (sv_db s) (sv_db (svc_step pf s ev))" by (rule svc_step_only)
  then have "filter (\<lambda>k. ak_agent_id k = aid) (access_keys (sv_db (svc_step pf s ev))) =
      filter (\<lambda>k. ak_agent_id k = aid) (access_keys (sv_db s))"
    by (intro filter_other_agent [OF _ False [symmetric]]) (simp add: only_agent_def)
  then show ?thesis
    using o assms(1) False [symmetric] by (simp add: only_agent_def service_inv_def)
qed

section \<open>Properties\<close>

text \<open>
  C4: accounts are isolated. Whatever sequence of requests (creating, updating, deploying, scaling,
  deleting, successful or not) other accounts make, also naming an agent that is not theirs, an
  agent keeps its row and its access keys unchanged, and the schema's constraints hold.
\<close>

theorem ownership_isolation:
  assumes "db_wf (sv_db s)" and "get_row a_id aid (agents (sv_db s)) = Some ag"
    and "\<forall>ev \<in> set evs. caller ev \<noteq> a_user_id ag"
  shows "db_wf (sv_db (run_steps (svc_step pf) s evs)) \<and>
    get_row a_id aid (agents (sv_db (run_steps (svc_step pf) s evs))) = Some ag \<and>
    filter (\<lambda>k. ak_agent_id k = aid) (access_keys (sv_db (run_steps (svc_step pf) s evs))) =
      filter (\<lambda>k. ak_agent_id k = aid) (access_keys (sv_db s))"
proof -
  have "service_inv aid ag ks s \<Longrightarrow> service_inv aid ag ks (run_steps (svc_step pf) s evs)" for ks
    using assms(3)
  proof (induction evs arbitrary: s)
    case (Cons ev evs)
    then have "service_inv aid ag ks (svc_step pf s ev)" using svc_step_isolation by force
    then show ?case using Cons by simp
  qed simp
  then show ?thesis using assms(1,2) by (simp add: service_inv_def)
qed

theorem ownership_isolation_witness:
  "get_row a_id ''agent-1'' (agents (sv_db (run_steps (svc_step sample_platform)
     \<lparr>sv_db = sample_db, sv_rt = []\<rparr> [Delete 7 ''agent-1'', Scale 7 ''agent-1'' ''up'' 3]))) = Some sample_agent"
  using ownership_isolation [of "\<lparr>sv_db = sample_db, sv_rt = []\<rparr>" "''agent-1''" sample_agent
      "[Delete 7 ''agent-1'', Scale 7 ''agent-1'' ''up'' 3]" sample_platform] sample_db_wf
  by (simp add: sample_db_def get_row_Cons sample_agent_def)

text \<open>
  C14: what a deployment leaves behind is what it reports. A successful deployment hands the runtime
  the decrypted environment, returns the stored row, which is running without an error, with the
  replicas the runtime started and the next version; a failed one leaves the agent failed with the
  error that is reported; any other refusal does not touch the runtime or the status, and changes
  nothing at all unless the configuration was stored first and needs a build.
\<close>

theorem deploy_outcome:
  assumes "db_wf (sv_db s)" and "get_owned u aid (sv_db s) = Inr ag"
    and "deploy_agent pf n u aid c s = (s', r)"
  shows "\<exists>ag'. get_row a_id aid (agents (sv_db s')) = Some ag' \<and>
    (case r of
       Inr x \<Rightarrow> ag' = x \<and> a_status x = ''running'' \<and> a_error x = None \<and> a_version x = a_version ag + 1 \<and>
         (\<exists>env cs. env_for_container (pl_crypto pf) (a_env (configured pf n c ag)) = Inr env \<and>
            core_deploy (pl_runtime pf) (to_core_config pf aid (a_name ag) (a_model ag) (a_system_prompt ag)
              (Some (Some (a_cpu x), Some (a_memory_mb x)))) (a_replicas (configured pf n c ag)) env
              (a_image x) (sv_rt s) = (sv_rt s', Inr cs) \<and> a_replicas x = int (length cs))
     | Inl (DeploymentFailedError i msg) \<Rightarrow> i = aid \<and> a_status ag' = ''failed'' \<and> a_error ag' = Some msg \<and>
         a_version ag' = a_version ag
     | Inl e \<Rightarrow> a_status ag' = a_status ag \<and> sv_rt s' = sv_rt s \<and>
         (if e = BuildNotSupportedError then ag' = configured pf n c ag else s' = s))"
proof -
  have ag: "get_row a_id aid (agents (sv_db s)) = Some ag" "a_id ag = aid" "a_user_id ag = u"
    using assms(1,2) get_owned_ok [OF assms(2)] by (auto simp: get_owned_wf split: option.split_asm if_split_asm)
  let ?ag1 = "configured pf n c ag"
  have keep: "a_name ?ag1 = a_name ag" "a_model ?ag1 = a_model ag" "a_system_prompt ?ag1 = a_system_prompt ag"
    "a_version ?ag1 = a_version ag" "a_status ?ag1 = a_status ag"
    by (simp_all add: configured_def apply_deploy_config_def Let_def split: option.split)
  show ?thesis
    using assms(3)
  proof (rule deploy_cases)
    fix x
    assume "get_owned u aid (sv_db s) = Inr x"
      and "launch pf (configured pf n c x)
        (commit_agent aid (set_status ''starting'') (commit_agent aid (configured pf n c) s)) = (s', r)"
    then have "launch pf ?ag1
        (commit_agent aid (set_status ''starting'') (commit_agent aid (configured pf n c) s)) = (s', r)"
      using assms(2) by simp
    then show ?thesis
      by (rule launch_cases)
        (auto simp: ag keep get_row_update deployed_def failed_with_def set_status_def rt_deploy_agent_def apsnd_from_core)
  qed (auto simp: ag keep get_row_update split: gw_error.split)
qed

definition sample_service :: "sample_state service" where
  "sample_service = \<lparr>sv_db = sample_db, sv_rt = [(''agent-1'', 1)]\<rparr>"

definition sample_deploy_config :: deploy_config where
  "sample_deploy_config = \<lparr>dc_replicas = 2, dc_resources = \<lparr>rl_cpu = 1, rl_memory_mb = 512,
     rl_gpu = 0, rl_gpu_type = None, rl_disk_gb = 10, rl_ephemeral_storage_gb = 5\<rparr>, dc_env = [],
     dc_image = None, dc_build_path = None, dc_command = None, dc_args = [], dc_health_check_path = None,
     dc_auto_scale = False, dc_min_replicas = 1, dc_max_replicas = 10, dc_port = 8080\<rparr>"

lemma sample_owned: "get_owned 1 ''agent-1'' sample_db = Inr sample_agent"
  by (simp add: get_owned_wf sample_db_wf) (simp add: sample_db_def get_row_Cons sample_agent_def)

lemma sample_deploy: "is_ok (snd (deploy_agent sample_platform 0 1 ''agent-1'' None sample_service))"
  by code_simp

theorem deploy_outcome_witness:
  "\<exists>s' x. deploy_agent sample_platform 0 1 ''agent-1'' None sample_service = (s', Inr x) \<and>
     get_row a_id ''agent-1'' (agents (sv_db s')) = Some x \<and> a_status x = ''running'' \<and> a_version x = 2"
proof -
  obtain s' x where d: "deploy_agent sample_platform 0 1 ''agent-1'' None sample_service = (s', Inr x)"
    using sample_deploy by (cases "deploy_agent sample_platform 0 1 ''agent-1'' None sample_service") (auto simp: is_ok_iff)
  show ?thesis
    using deploy_outcome [of sample_service 1 "''agent-1''" sample_agent, OF _ _ d] d sample_db_wf sample_owned
    by (simp add: sample_service_def) (simp add: sample_agent_def)
qed

section \<open>Quotas around the service\<close>

definition quota_view :: "agent \<Rightarrow> string \<times> uuid \<times> string \<times> int \<times> rat \<times> int" where
  "quota_view a = (a_id a, a_user_id a, a_status a, a_replicas a, a_cpu a, a_memory_mb a)"

lemma active_view:
  "map quota_view (active_agents d u x) =
     filter (\<lambda>(i, w, st, _). w = u \<and> st \<in> set ACTIVE_STATUSES \<and> (case x of None \<Rightarrow> True | Some y \<Rightarrow> i \<noteq> y))
       (map quota_view (agents d))"
  by (simp add: active_agents_def filter_map o_def quota_view_def)

lemma usage_of_view:
  "current_usage d u x = (let v = map quota_view (active_agents d u x) in
     \<lparr>us_agents = int (length (filter (\<lambda>(_, w, _). w = u) (map quota_view (agents d)))),
      us_replicas = sum_list (map (\<lambda>(_, _, _, r, _, _). r) v),
      us_vcpu = py_round 3 (sum_list (map (\<lambda>(_, _, _, r, c, _). of_int r * c) v)),
      us_memory_mb = sum_list (map (\<lambda>(_, _, _, r, _, m). r * m) v)\<rparr>)"
  by (simp add: current_usage_def Let_def filter_map o_def quota_view_def)

lemma current_usage_cong:
  "map quota_view (agents d) = map quota_view (agents d') \<Longrightarrow> current_usage d u x = current_usage d' u x"
  by (simp only: usage_of_view active_view)

text \<open>An agent that is only stored uses nothing.\<close>

lemma ensure_resources_insert:
  assumes "insert_agent ag d = Inr d'" and "a_status ag = ''pending''"
  shows "ensure_resources ca d' u (Some (a_id ag)) r c m = ensure_resources ca d u None r c m"
proof -
  have d': "agents d' = agents d @ [ag]" "users d' = users d" and new: "a_id ag \<notin> a_id ` set (agents d)"
    using insert_agent_only [OF assms(1)] by (auto simp: only_agent_def)
  have "\<forall>a \<in> set (agents d). a_id a \<noteq> a_id ag" using new by (metis image_eqI)
  then have "filter (\<lambda>a. a_user_id a = u \<and> a_status a \<in> set ACTIVE_STATUSES \<and> a_id a \<noteq> a_id ag) (agents d) =
      filter (\<lambda>a. a_user_id a = u \<and> a_status a \<in> set ACTIVE_STATUSES) (agents d)"
    by (intro filter_cong) auto
  then have "active_agents d' u (Some (a_id ag)) = active_agents d u None"
    using assms(2) by (simp add: active_agents_def d' ACTIVE_STATUSES_def)
  then have "us_replicas (current_usage d' u (Some (a_id ag))) = us_replicas (current_usage d u None)"
    "us_vcpu (current_usage d' u (Some (a_id ag))) = us_vcpu (current_usage d u None)"
    "us_memory_mb (current_usage d' u (Some (a_id ag))) = us_memory_mb (current_usage d u None)"
    by (simp_all add: current_usage_def Let_def)
  then show ?thesis
    unfolding ensure_resources_def quota_user_def get_user_def d' Let_def by (simp only:)
qed

lemma prepared_agent_shape:
  assumes "prepared_agent pf dr u b = Inr ag" and "ci_deploy b = Some c"
  shows "a_replicas ag = dc_replicas c" "a_cpu ag = rl_cpu (dc_resources c)"
    "a_memory_mb ag = rl_memory_mb (dc_resources c)"
  using assms
  by (auto simp: prepared_agent_def Let_def result_simps configured_def apply_deploy_config_def split: if_split_asm)

lemma deploy_past_checks:
  assumes "get_owned u aid (sv_db s) = Inr ag"
    and "ensure_resources (pl_auth pf) (sv_db s) u (Some aid)
      (case c of None \<Rightarrow> a_replicas ag | Some c \<Rightarrow> dc_replicas c)
      (case c of None \<Rightarrow> a_cpu ag | Some c \<Rightarrow> rl_cpu (dc_resources c))
      (case c of None \<Rightarrow> a_memory_mb ag | Some c \<Rightarrow> rl_memory_mb (dc_resources c)) = Inr ()"
  shows "snd (deploy_agent pf n u aid c s) \<noteq> Inl (QuotaExceededError x1 x2 x3 x4 x5)"
proof -
  obtain s' r where l: "launch pf (configured pf n c ag)
      (commit_agent aid (set_status ''starting'') (commit_agent aid (configured pf n c) s)) = (s', r)" by fastforce
  then have "r \<noteq> Inl (QuotaExceededError x1 x2 x3 x4 x5)" by (rule launch_cases) auto
  then show ?thesis
    using assms l get_owned_ok [OF assms(1)] by (auto simp: deploy_agent_def Let_def)
qed

lemma deploy_quota_error:
  assumes "deploy_agent pf n u aid c s = (s', Inl (QuotaExceededError x1 x2 x3 x4 x5))"
  shows "s' = s"
  using assms by (rule deploy_cases) (auto elim: launch_cases)

text \<open>
  C21: a request refused for quota leaves nothing behind. When creating, deploying or scaling raises
  a quota error, the database and the runtime are exactly as before: in particular no half-created
  agent stays, because the check before the insertion is at least as strict as the one when the new
  agent is deployed.
\<close>

theorem quota_refusal_leaves_nothing:
  assumes "db_wf (sv_db s)" and "e = QuotaExceededError x1 x2 x3 x4 x5"
    and "(s', Inl e) = create_agent pf dr u b s \<or> (s', Inl e) = deploy_agent pf n u aid c s \<or>
      (s', Inl e) = scale_agent pf u aid dir k s"
  shows "s' = s"
  using assms(3)
proof (elim disjE)
  assume "(s', Inl e) = create_agent pf dr u b s"
  then have cr: "create_agent pf dr u b s = (s', Inl e)" by simp
  then show "s' = s"
  proof (rule create_cases)
    fix ag d' c
    assume p: "prepared_agent pf dr u b = Inr ag" and i: "insert_agent ag (sv_db s) = Inr d'"
      and c: "ci_deploy b = Some c" and q: "ensure_resources (pl_auth pf) (sv_db s) u None (dc_replicas c)
         (rl_cpu (dc_resources c)) (rl_memory_mb (dc_resources c)) = Inr ()"
      and d: "deploy_agent pf 0 u (a_id ag) None (s\<lparr>sv_db := d'\<rparr>) = (s', Inl e)"
    have wf: "db_wf d'" and row: "get_row a_id (a_id ag) (agents d') = Some ag"
      using insert_agent_only [OF i] insert_agent_wf [OF i assms(1)]
      by (auto simp: get_row_append get_row_Cons get_row_None [THEN iffD2])
    have "ensure_resources (pl_auth pf) d' u (Some (a_id ag)) (a_replicas ag) (a_cpu ag) (a_memory_mb ag) = Inr ()"
      using q ensure_resources_insert [OF i] prepared_agent_keeps [OF p] prepared_agent_shape [OF p c] by simp
    moreover have "get_owned u (a_id ag) d' = Inr ag"
      using wf row prepared_agent_keeps [OF p] by (simp add: get_owned_wf)
    ultimately show "s' = s"
      using deploy_past_checks [of u "a_id ag" "s\<lparr>sv_db := d'\<rparr>" ag pf None 0 x1 x2 x3 x4 x5] d assms(2) by simp
  qed auto
next
  assume "(s', Inl e) = deploy_agent pf n u aid c s"
  then show "s' = s" using deploy_quota_error assms(2) by metis
next
  assume "(s', Inl e) = scale_agent pf u aid dir k s"
  from this [symmetric] show "s' = s"
    by (rule scale_cases) (use assms(2) in auto)
qed

theorem quota_refusal_leaves_nothing_witness:
  "\<exists>e. create_agent sample_platform \<lparr>ad_token = ''x'', ad_suffix = ''abcdef'', ad_nonce = 0, ad_now = 0\<rparr> 1
     \<lparr>ci_name = ''big'', ci_runtime = ''custom'', ci_framework = [], ci_model = [], ci_api_key = None,
      ci_system_prompt = None, ci_deploy = Some (sample_deploy_config\<lparr>dc_replicas := 9\<rparr>),
      ci_access = ''public'', ci_tags = [], ci_metadata = []\<rparr> sample_service = (sample_service, Inl e)"
  (is "\<exists>e. ?create = _")
proof -
  have "(case snd ?create of Inl (QuotaExceededError a b c d e) \<Rightarrow> True | _ \<Rightarrow> False)"
    by code_simp
  then obtain s' a b c d e where r: "?create = (s', Inl (QuotaExceededError a b c d e))"
    by (cases ?create) (auto split: sum.split_asm gw_error.split_asm)
  have "db_wf (sv_db sample_service)" using sample_db_wf by (simp add: sample_service_def)
  from quota_refusal_leaves_nothing [OF this refl disjI1 [OF r [symmetric]]] r show ?thesis by blast
qed

lemma view_after_deploy:
  "map quota_view (agents (set_agent aid (deployed k) (set_agent aid (set_status x)
      (set_agent aid (configured pf n (Some c)) d)))) =
   map quota_view (agents (set_agent aid (run_with (int k) (rl_cpu (dc_resources c)) (rl_memory_mb (dc_resources c))) d))"
  by (simp add: update_row_def quota_view_def deployed_def set_status_def run_with_def configured_def
      apply_deploy_config_def Let_def)

lemma deploy_success:
  assumes "deploy_agent pf n u aid (Some c) s = (s', Inr ag')"
  obtains ag cfg env img r' cs where "get_owned u aid (sv_db s) = Inr ag"
    "ensure_resources (pl_auth pf) (sv_db s) u (Some aid) (dc_replicas c) (rl_cpu (dc_resources c))
       (rl_memory_mb (dc_resources c)) = Inr ()"
    "core_deploy (pl_runtime pf) cfg (dc_replicas c) env img (sv_rt s) = (r', Inr cs)"
    "sv_db s' = set_agent aid (deployed (length cs)) (set_agent aid (set_status ''starting'')
       (set_agent aid (configured pf n (Some c)) (sv_db s)))"
proof -
  obtain ag where o: "get_owned u aid (sv_db s) = Inr ag" and l: "launch pf (configured pf n (Some c) ag)
      (commit_agent aid (set_status ''starting'') (commit_agent aid (configured pf n (Some c)) s)) = (s', Inr ag')"
    using assms by (rule deploy_cases) auto
  have "ensure_resources (pl_auth pf) (sv_db s) u (Some aid) (dc_replicas c) (rl_cpu (dc_resources c))
      (rl_memory_mb (dc_resources c)) = Inr ()"
    using assms o get_owned_ok [OF o] by (auto simp: deploy_agent_def elim: check_then_cases)
  moreover have "a_replicas (configured pf n (Some c) ag) = dc_replicas c"
    by (simp add: configured_def apply_deploy_config_def Let_def)
  ultimately show ?thesis
    using l that [OF o] get_owned_ok [OF o] by (elim launch_cases) (auto simp: rt_deploy_agent_def apsnd_from_core)
qed

text \<open>
  C20: what is deployed stays within the plan. After a successful deployment with a valid
  configuration by an account that is not exempt, on a runtime that starts no more replicas than it
  is asked for, everything the account runs is within its plan: replicas and memory exactly, vCPUs
  up to one rounding step of 0.001.
\<close>

theorem deploy_within_plan:
  assumes "db_wf (sv_db s)" and "get_user (sv_db s) u = Some w" and "is_exempt (pl_auth pf) w = Inr False"
    and "valid_deploy c" and "deploy_agent pf n u aid (Some c) s = (s', Inr ag')"
    and "\<forall>cfg k env img r r' cs. core_deploy (pl_runtime pf) cfg k env img r = (r', Inr cs) \<longrightarrow> length cs \<le> nat k"
  shows "us_replicas (current_usage (sv_db s') u None) \<le> max_replicas (limits_for (u_plan w)) \<and>
    us_memory_mb (current_usage (sv_db s') u None) \<le> max_memory_mb (limits_for (u_plan w)) \<and>
    us_vcpu (current_usage (sv_db s') u None) \<le> max_vcpu (limits_for (u_plan w)) + 1/1000"
proof -
  let ?r = "dc_replicas c" and ?c = "rl_cpu (dc_resources c)" and ?m = "rl_memory_mb (dc_resources c)"
  obtain ag cfg env img r' cs where o: "get_owned u aid (sv_db s) = Inr ag"
    and q: "ensure_resources (pl_auth pf) (sv_db s) u (Some aid) ?r ?c ?m = Inr ()"
    and k: "core_deploy (pl_runtime pf) cfg ?r env img (sv_rt s) = (r', Inr cs)"
    and s': "sv_db s' = set_agent aid (deployed (length cs)) (set_agent aid (set_status ''starting'')
       (set_agent aid (configured pf n (Some c)) (sv_db s)))"
    using assms(5) by (rule deploy_success)
  define j where "j = int (length cs)"
  have ag: "get_row a_id aid (agents (sv_db s)) = Some ag" "a_user_id ag = u"
    using assms(1) o get_owned_ok [OF o] by (auto simp: get_owned_wf split: option.split_asm if_split_asm)
  have "length cs \<le> nat ?r" using assms(6) k by blast
  then have j: "j \<le> ?r" using assms(4) by (auto simp: j_def valid_deploy_def le_nat_iff)
  have "of_int j * ?c \<le> of_int ?r * ?c" and "j * ?m \<le> ?r * ?m"
    using j assms(4) by (auto simp: valid_deploy_def valid_resources_def intro!: mult_right_mono)
  moreover have "current_usage (sv_db s') u None = current_usage (set_agent aid (run_with j ?c ?m) (sv_db s)) u None"
    unfolding s' j_def by (rule current_usage_cong [OF view_after_deploy])
  ultimately show ?thesis
    using usage_run_with [OF assms(1) ag, of j ?c ?m] q j ensure_resources_iff [OF assms(2,3)]
      py_round_mono [of "of_int j * ?c" "of_int ?r * ?c" 3] by auto
qed

theorem deploy_within_plan_witness:
  "us_replicas (current_usage (sv_db (fst (deploy_agent sample_platform 0 1 ''agent-1'' (Some sample_deploy_config)
     sample_service))) 1 None) \<le> 3"
proof -
  let ?x = "deploy_agent sample_platform 0 1 ''agent-1'' (Some sample_deploy_config) sample_service"
  have "is_ok (snd ?x)" by code_simp
  then obtain s' ag' where d: "?x = (s', Inr ag')" by (cases ?x) (auto simp: is_ok_iff)
  have v: "valid_deploy sample_deploy_config"
    by (simp add: valid_deploy_def valid_resources_def sample_deploy_config_def)
  have l: "\<forall>cfg k env img r r' cs. core_deploy (pl_runtime sample_platform) cfg k env img r = (r', Inr cs) \<longrightarrow>
      length cs \<le> nat k"
    by (auto simp: sample_platform_def sample_runtime_def)
  have u: "get_user (sv_db sample_service) 1 = Some sample_user"
    "is_exempt (pl_auth sample_platform) sample_user = Inr False" "db_wf (sv_db sample_service)"
    using sample_values sample_db_wf
    by (simp_all add: sample_service_def sample_platform_def is_exempt_def role_enum_def sample_core_auth_def sample_user_def)
  show ?thesis
    using deploy_within_plan [OF u(3,1,2) v d l] d by (simp add: sample_user_def free_limits_def)
qed

end
