(* ===== verification/Agent_Routes.thy ===== *)
theory Agent_Routes
  imports Agent_Service "HOL-Library.Multiset"
begin

text \<open>
  The routes under \<open>/v1/agents\<close> (\<open>routers/agents.py\<close>): authentication and role, the call of the
  service, and the response built from the result. A request body has been validated before
  (\<open>valid_agent_config\<close>, \<open>valid_agent_update\<close>, \<open>valid_deploy\<close>, \<open>valid_scale\<close>). The two event
  streams are functions of the service states met by their successive polls, up to the moment the
  client disconnects.
\<close>

section \<open>Callers\<close>

definition viewer :: "settings \<Rightarrow> 'r platform \<Rightarrow> timestamp \<Rightarrow> string option \<Rightarrow> 'r service \<Rightarrow> principal result" where
  "viewer st pf now creds s = get_current_principal st (pl_crypto pf) (pl_auth pf) now creds (sv_db s)"

definition require_developer ::
  "settings \<Rightarrow> 'r platform \<Rightarrow> timestamp \<Rightarrow> string option \<Rightarrow> 'r service \<Rightarrow> principal result" where
  "require_developer st pf now creds s =
     require_role st (pl_crypto pf) (pl_auth pf) now OPERATOR False creds (sv_db s)"

section \<open>Agents\<close>

definition create_agent_route ::
  "settings \<Rightarrow> 'r platform \<Rightarrow> timestamp \<Rightarrow> string option \<Rightarrow> agent_draw \<Rightarrow> key_draw \<Rightarrow> agent_config_in \<Rightarrow>
   'r service \<Rightarrow> 'r service \<times> agent_response result" where
  "create_agent_route st pf now creds dr kd b s =
     check_then (require_developer st pf now creds s) (\<lambda>p.
       case create_agent pf dr (p_user_id p) b s of
         (s1, Inl e) \<Rightarrow> (s1, Inl e)
       | (s1, Inr ag) \<Rightarrow> check_then (to_agent_response st ag) (\<lambda>resp.
           if a_access ag = ''private''
           then check_then (create_access_key (pl_crypto pf) kd ag ''default'' (sv_db s1)) (\<lambda>(d2, k, raw).
                  (s1\<lparr>sv_db := d2\<rparr>, Inr (resp\<lparr>ar_access_key := Some raw\<rparr>))) s1
           else (s1, Inr resp)) s1) s"

record agent_list =
  li_agents :: "agent_response list"
  li_total :: int
  li_page :: int
  li_page_size :: int
  li_has_next :: bool

definition list_agents_route ::
  "(agent list \<Rightarrow> agent list) \<Rightarrow> settings \<Rightarrow> 'r platform \<Rightarrow> timestamp \<Rightarrow> string option \<Rightarrow> string option \<Rightarrow> string option \<Rightarrow> int \<Rightarrow> int \<Rightarrow>
   'r service \<Rightarrow> agent_list result" where
  "list_agents_route arrange st pf now creds status tag page page_size s =
     bind_result (viewer st pf now creds s) (\<lambda>p.
       let (ags, total) = list_agents arrange (p_user_id p) status tag page page_size (sv_db s) in
       bind_result (traverse (to_agent_response st) ags) (\<lambda>out.
         Inr \<lparr>li_agents = out, li_total = total, li_page = page, li_page_size = page_size,
              li_has_next = page * page_size < total\<rparr>))"

definition get_agent_route ::
  "settings \<Rightarrow> 'r platform \<Rightarrow> timestamp \<Rightarrow> string option \<Rightarrow> string \<Rightarrow> 'r service \<Rightarrow> agent_response result" where
  "get_agent_route st pf now creds agent_id s =
     bind_result (viewer st pf now creds s) (\<lambda>p.
       bind_result (get_agent (p_user_id p) agent_id (sv_db s)) (to_agent_response st))"

definition update_agent_route ::
  "settings \<Rightarrow> 'r platform \<Rightarrow> timestamp \<Rightarrow> string option \<Rightarrow> string \<Rightarrow> agent_update \<Rightarrow> 'r service \<Rightarrow>
   'r service \<times> agent_response result" where
  "update_agent_route st pf now creds agent_id b s =
     check_then (require_developer st pf now creds s) (\<lambda>p.
       check_then (update_agent (p_user_id p) agent_id b (sv_db s)) (\<lambda>(d', ag).
         (s\<lparr>sv_db := d'\<rparr>, to_agent_response st ag)) s) s"

definition delete_agent_route ::
  "settings \<Rightarrow> 'r platform \<Rightarrow> timestamp \<Rightarrow> string option \<Rightarrow> string \<Rightarrow> 'r service \<Rightarrow> 'r service \<times> unit result" where
  "delete_agent_route st pf now creds agent_id s =
     check_then (require_developer st pf now creds s) (\<lambda>p. delete_agent pf (p_user_id p) agent_id s) s"

definition deploy_agent_route ::
  "settings \<Rightarrow> 'r platform \<Rightarrow> timestamp \<Rightarrow> string option \<Rightarrow> nat \<Rightarrow> string \<Rightarrow> deploy_config option \<Rightarrow> 'r service \<Rightarrow>
   'r service \<times> agent_response result" where
  "deploy_agent_route st pf now creds nonce agent_id deploy s =
     check_then (require_developer st pf now creds s) (\<lambda>p.
       case deploy_agent pf nonce (p_user_id p) agent_id deploy s of
         (s1, Inl e) \<Rightarrow> (s1, Inl e)
       | (s1, Inr ag) \<Rightarrow> (s1, to_agent_response st ag)) s"

record scale_request =
  sc_direction :: string
  sc_count :: int

definition valid_scale :: "scale_request \<Rightarrow> bool" where
  "valid_scale b \<longleftrightarrow> sc_direction b \<in> {''up'', ''down''} \<and> 1 \<le> sc_count b \<and> sc_count b \<le> 50"

record scale_response =
  sr_agent_id :: string
  sr_previous_replicas :: int
  sr_current_replicas :: int
  sr_direction :: string
  sr_status :: string

definition scale_agent_route ::
  "settings \<Rightarrow> 'r platform \<Rightarrow> timestamp \<Rightarrow> string option \<Rightarrow> string \<Rightarrow> scale_request \<Rightarrow> 'r service \<Rightarrow>
   'r service \<times> scale_response result" where
  "scale_agent_route st pf now creds agent_id b s =
     check_then (require_developer st pf now creds s) (\<lambda>p.
       case scale_agent pf (p_user_id p) agent_id (sc_direction b) (sc_count b) s of
         (s1, Inl e) \<Rightarrow> (s1, Inl e)
       | (s1, Inr (ag, previous)) \<Rightarrow>
           (s1, if a_status ag \<in> set AGENT_STATUSES
                then Inr \<lparr>sr_agent_id = a_id ag, sr_previous_replicas = previous,
                       sr_current_replicas = a_replicas ag, sr_direction = sc_direction b, sr_status = a_status ag\<rparr>
                else Inl (Unhandled ValidationError))) s"

section \<open>Access keys of an agent\<close>

record AccessKeyOut =
  xo_id :: uuid
  xo_label :: string
  xo_key_preview :: string
  xo_created_at :: timestamp

definition access_key_out :: "access_key \<Rightarrow> AccessKeyOut" where
  "access_key_out k = \<lparr>xo_id = ak_id k, xo_label = ak_label k, xo_key_preview = ak_key_prefix k @ ''...'',
     xo_created_at = ak_created_at k\<rparr>"

definition list_access_keys_route ::
  "settings \<Rightarrow> 'r platform \<Rightarrow> timestamp \<Rightarrow> string option \<Rightarrow> string \<Rightarrow> 'r service \<Rightarrow> AccessKeyOut list result" where
  "list_access_keys_route st pf now creds agent_id s =
     bind_result (viewer st pf now creds s) (\<lambda>p.
       bind_result (get_agent (p_user_id p) agent_id (sv_db s)) (\<lambda>ag.
         Inr (map access_key_out (list_access_keys (a_id ag) (sv_db s)))))"

definition create_access_key_route ::
  "settings \<Rightarrow> 'r platform \<Rightarrow> timestamp \<Rightarrow> string option \<Rightarrow> key_draw \<Rightarrow> string \<Rightarrow> string option \<Rightarrow> 'r service \<Rightarrow>
   'r service \<times> (AccessKeyOut \<times> string) result" where
  "create_access_key_route st pf now creds kd agent_id label s =
     check_then (require_developer st pf now creds s) (\<lambda>p.
       check_then (get_agent (p_user_id p) agent_id (sv_db s)) (\<lambda>ag.
         check_then (create_access_key (pl_crypto pf) kd ag
             (case label of None \<Rightarrow> ''default'' | Some l \<Rightarrow> l) (sv_db s)) (\<lambda>(d', k, raw).
           (s\<lparr>sv_db := d'\<rparr>, Inr (access_key_out k, raw))) s) s) s"

definition delete_access_key_route ::
  "settings \<Rightarrow> 'r platform \<Rightarrow> timestamp \<Rightarrow> string option \<Rightarrow> string \<Rightarrow> uuid \<Rightarrow> 'r service \<Rightarrow> 'r service \<times> unit result" where
  "delete_access_key_route st pf now creds agent_id key_id s =
     check_then (require_developer st pf now creds s) (\<lambda>p.
       check_then (get_agent (p_user_id p) agent_id (sv_db s)) (\<lambda>ag.
         check_then (delete_access_key (a_id ag) key_id (sv_db s)) (\<lambda>d'. (s\<lparr>sv_db := d'\<rparr>, Inr ())) s) s) s"

section \<open>Logs and metrics\<close>

record log_list =
  ll_logs :: "agent_log list"
  ll_total :: int
  ll_has_next :: bool
  ll_next_cursor :: "string option"

definition get_logs_route ::
  "settings \<Rightarrow> 'r platform \<Rightarrow> timestamp \<Rightarrow> string option \<Rightarrow> string \<Rightarrow> string option \<Rightarrow> string option \<Rightarrow> int \<Rightarrow>
   'r service \<Rightarrow> log_list result" where
  "get_logs_route st pf now creds agent_id level replica_id limit s =
     bind_result (viewer st pf now creds s) (\<lambda>p.
       bind_result (get_logs pf (p_user_id p) agent_id level replica_id limit s) (\<lambda>logs.
         Inr \<lparr>ll_logs = logs, ll_total = int (length logs), ll_has_next = False, ll_next_cursor = None\<rparr>))"

definition get_metrics_route ::
  "settings \<Rightarrow> 'r platform \<Rightarrow> timestamp \<Rightarrow> string option \<Rightarrow> string \<Rightarrow> 'r service \<Rightarrow> 'r service \<times> metrics result" where
  "get_metrics_route st pf now creds agent_id s =
     check_then (viewer st pf now creds s) (\<lambda>p. get_metrics pf (p_user_id p) agent_id s) s"

datatype sse_event = LogEvent agent_log | MetricEvent metrics | Heartbeat

text \<open>The lines of one poll that were not sent before; a line is known by its replica and time.\<close>

definition log_key :: "agent_log \<Rightarrow> string \<times> timestamp" where
  "log_key l = (al_replica_id l, al_timestamp l)"

fun emit_new :: "(string \<times> timestamp) list \<Rightarrow> agent_log list \<Rightarrow> (string \<times> timestamp) list \<times> agent_log list" where
  "emit_new seen [] = (seen, [])"
| "emit_new seen (l # ls) =
     (if log_key l \<in> set seen then emit_new seen ls
      else let (seen', out) = emit_new (log_key l # seen) ls in (seen', l # out))"

fun log_polls :: "'r platform \<Rightarrow> uuid \<Rightarrow> string \<Rightarrow> string option \<Rightarrow> (string \<times> timestamp) list \<Rightarrow> 'r service list \<Rightarrow>
    sse_event list" where
  "log_polls pf user_id agent_id level seen [] = []"
| "log_polls pf user_id agent_id level seen (s # polls) =
     (let logs = (case get_logs pf user_id agent_id level None 200 s of Inl _ \<Rightarrow> [] | Inr l \<Rightarrow> l);
          (seen', out) = emit_new seen logs
      in map LogEvent out @ Heartbeat # log_polls pf user_id agent_id level seen' polls)"

definition stream_logs ::
  "settings \<Rightarrow> 'r platform \<Rightarrow> timestamp \<Rightarrow> string option \<Rightarrow> string \<Rightarrow> string option \<Rightarrow> 'r service \<Rightarrow> 'r service list \<Rightarrow>
   sse_event list result" where
  "stream_logs st pf now creds agent_id level s polls =
     bind_result (viewer st pf now creds s) (\<lambda>p.
       bind_result (get_agent (p_user_id p) agent_id (sv_db s)) (\<lambda>_.
         Inr (log_polls pf (p_user_id p) agent_id level [] polls)))"

definition metric_event :: "'r platform \<Rightarrow> uuid \<Rightarrow> string \<Rightarrow> 'r service \<Rightarrow> sse_event" where
  "metric_event pf user_id agent_id s = (case snd (get_metrics pf user_id agent_id s) of
     Inl _ \<Rightarrow> Heartbeat | Inr m \<Rightarrow> MetricEvent m)"

definition stream_metrics ::
  "settings \<Rightarrow> 'r platform \<Rightarrow> timestamp \<Rightarrow> string option \<Rightarrow> string \<Rightarrow> 'r service \<Rightarrow> 'r service list \<Rightarrow>
   sse_event list result" where
  "stream_metrics st pf now creds agent_id s polls =
     bind_result (viewer st pf now creds s) (\<lambda>p.
       bind_result (get_agent (p_user_id p) agent_id (sv_db s)) (\<lambda>_.
         Inr (map (metric_event pf (p_user_id p) agent_id) polls)))"

section \<open>Requests on one agent\<close>

datatype agent_request =
    ReqUpdate string agent_update
  | ReqDelete string
  | ReqDeploy nat string "deploy_config option"
  | ReqScale string scale_request
  | ReqNewKey key_draw string "string option"
  | ReqDropKey string uuid

fun req_agent :: "agent_request \<Rightarrow> string" where
  "req_agent (ReqUpdate aid _) = aid"
| "req_agent (ReqDelete aid) = aid"
| "req_agent (ReqDeploy _ aid _) = aid"
| "req_agent (ReqScale aid _) = aid"
| "req_agent (ReqNewKey _ aid _) = aid"
| "req_agent (ReqDropKey aid _) = aid"

fun handle_request :: "settings \<Rightarrow> 'r platform \<Rightarrow> timestamp \<Rightarrow> string option \<Rightarrow> agent_request \<Rightarrow> 'r service \<Rightarrow> 'r service" where
  "handle_request st pf now creds (ReqUpdate aid b) s = fst (update_agent_route st pf now creds aid b s)"
| "handle_request st pf now creds (ReqDelete aid) s = fst (delete_agent_route st pf now creds aid s)"
| "handle_request st pf now creds (ReqDeploy n aid c) s = fst (deploy_agent_route st pf now creds n aid c s)"
| "handle_request st pf now creds (ReqScale aid b) s = fst (scale_agent_route st pf now creds aid b s)"
| "handle_request st pf now creds (ReqNewKey kd aid l) s = fst (create_access_key_route st pf now creds kd aid l s)"
| "handle_request st pf now creds (ReqDropKey aid k) s = fst (delete_access_key_route st pf now creds aid k s)"

section \<open>Lemmas\<close>

lemma developer_ok:
  "require_developer st pf now creds s = Inr p \<Longrightarrow>
   get_current_principal st (pl_crypto pf) (pl_auth pf) now creds (sv_db s) = Inr p \<and>
   role_can (pl_auth pf) (p_role p) OPERATOR"
  by (auto simp: require_developer_def require_role_def result_simps split: if_split_asm)

lemma request_refused:
  "require_developer st pf now creds s = Inl e \<Longrightarrow> handle_request st pf now creds req s = s"
  by (cases req) (simp_all add: update_agent_route_def delete_agent_route_def deploy_agent_route_def
      scale_agent_route_def create_access_key_route_def delete_access_key_route_def)

lemma request_foreign:
  assumes "require_developer st pf now creds s = Inr p" and "get_owned (p_user_id p) (req_agent req) (sv_db s) = Inl e"
  shows "handle_request st pf now creds req s = s"
  using assms
  by (cases req) (simp_all add: update_agent_route_def delete_agent_route_def deploy_agent_route_def
      scale_agent_route_def create_access_key_route_def delete_access_key_route_def get_agent_def
      update_agent_def deploy_agent_def scale_agent_def delete_agent_def)

lemma launch_access:
  assumes "launch pf ag s = (s', Inr x)"
  shows "a_access x = a_access ag"
  using assms by (rule launch_cases) (auto simp: deployed_def)

lemma created_access:
  assumes "create_agent pf dr u b s = (s', Inr ag)"
  shows "a_access ag = ci_access b"
proof -
  have prep: "prepared_agent pf dr u b = Inr x \<Longrightarrow> a_access x = ci_access b" for x
    by (auto simp: prepared_agent_def Let_def result_simps new_agent_def configured_def apply_deploy_config_def
        split: if_split_asm option.split_asm)
  show ?thesis
    using assms
  proof (rule create_cases)
    fix x d' c
    assume p: "prepared_agent pf dr u b = Inr x" and i: "insert_agent x (sv_db s) = Inr d'"
      and "deploy_agent pf 0 u (a_id x) None (s\<lparr>sv_db := d'\<rparr>) = (s', Inr ag)"
    from this(3) show ?thesis
    proof (rule deploy_cases)
      fix y
      assume y: "get_owned u (a_id x) (sv_db (s\<lparr>sv_db := d'\<rparr>)) = Inr y"
        and "launch pf (configured pf 0 None y) (commit_agent (a_id x) (set_status ''starting'')
          (commit_agent (a_id x) (configured pf 0 None) (s\<lparr>sv_db := d'\<rparr>))) = (s', Inr ag)"
      have "y = x"
        using get_owned_ok [OF y] insert_agent_only(2,3) [OF i] by (auto simp: image_iff)
      then show ?thesis using launch_access prep [OF p] \<open>launch _ _ _ = _\<close> by (fastforce simp: configured_def)
    qed auto
  qed (use prep in auto)
qed

lemma response_id: "to_agent_response st a = Inr x \<Longrightarrow> ar_id x = a_id a \<and> ar_access_key x = None"
  by (auto simp: to_agent_response_def result_simps make_response_def split: if_split_asm)

lemma traverse_ids:
  assumes "traverse (to_agent_response st) ags = Inr out"
  shows "map ar_id out = map a_id ags"
proof -
  have "list_all2 (\<lambda>a x. to_agent_response st a = Inr x) ags out" using traverse_Inr [OF assms] by simp
  then show ?thesis by (induction rule: list_all2_induct) (auto dest: response_id)
qed

text \<open>
  A client that reads the list: pages one after another until one says that there is no next. Nothing
  in the loop bounds it; that it ends is a property of the route.
\<close>

partial_function (option) read_pages :: "(int \<Rightarrow> agent_list result) \<Rightarrow> int \<Rightarrow> agent_response list result option" where
  "read_pages get_page i = (case get_page i of
     Inl e \<Rightarrow> Some (Inl e)
   | Inr x \<Rightarrow>
       if li_has_next x
       then Option.bind (read_pages get_page (i + 1)) (\<lambda>rest. Some (bind_result rest (\<lambda>rs. Inr (li_agents x @ rs))))
       else Some (Inr (li_agents x)))"

lemma list_route_page:
  assumes "list_agents_route arr st pf now creds status tag page page_size s = Inr x"
    and "viewer st pf now creds s = Inr p"
  shows "map ar_id (li_agents x) = map a_id (fst (list_agents arr (p_user_id p) status tag page page_size (sv_db s)))"
    and "li_has_next x \<longleftrightarrow> page * page_size < li_total x"
    and "li_total x = int (length (filter (agent_matches (p_user_id p) status tag) (agents (sv_db s))))"
  using assms
  by (auto simp: list_agents_route_def result_simps Let_def list_agents_def dest!: traverse_ids split: prod.split_asm)

text \<open>Sorting leaves the times and the rows the same whatever order it starts from.\<close>

lemma order_by_desc_mset [simp]: "mset (order_by_desc key xs) = mset xs"
  by (simp add: order_by_desc_def)

lemma order_by_desc_keys:
  assumes "mset ys = mset xs"
  shows "map key (order_by_desc key ys) = map key (order_by_desc key xs)"
proof -
  have "map (\<lambda>r. - key r) (sort_key (\<lambda>r. - key r) zs) = sort (map (\<lambda>r. - key r) zs)" for zs
    by (rule properties_for_sort [symmetric]) simp_all
  moreover have "sort (map (\<lambda>r. - key r) ys) = sort (map (\<lambda>r. - key r) xs)"
    by (rule properties_for_sort) (simp_all add: assms)
  ultimately have "map uminus (map (\<lambda>r. - key r) (order_by_desc key ys)) =
      map uminus (map (\<lambda>r. - key r) (order_by_desc key xs))" by (simp add: order_by_desc_def)
  then show ?thesis by (simp add: o_def)
qed

text \<open>The rows a client is shown: position by position, each from the sort of the query for its page.\<close>

definition shown_rows :: "(int \<Rightarrow> 'r list) \<Rightarrow> nat \<Rightarrow> nat \<Rightarrow> nat \<Rightarrow> 'r list" where
  "shown_rows ys k i n = map (\<lambda>j. ys (int (j div k) + 1) ! j) [i..<n]"

lemma shown_page:
  assumes "0 < k" and "length (ys (int n + 1)) = l"
  shows "take k (drop (n * k) (ys (int n + 1))) = shown_rows ys k (n * k) (min (Suc n * k) l)"
proof (rule nth_equalityI)
  fix i assume "i < length (take k (drop (n * k) (ys (int n + 1))))"
  then have "i < k" "n * k + i < l" using assms(2) by auto
  moreover from this have "(n * k + i) div k = n" by (simp add: div_nat_eqI)
  ultimately show "take k (drop (n * k) (ys (int n + 1))) ! i = shown_rows ys k (n * k) (min (Suc n * k) l) ! i"
    using assms(2) by (simp add: shown_rows_def add.commute)
qed (use assms in \<open>simp add: shown_rows_def\<close>)

lemma read_pages_from:
  assumes "1 \<le> page_size" and "viewer st pf now creds s = Inr p"
    and rows: "rows = filter (agent_matches (p_user_id p) status tag) (agents (sv_db s))"
    and arr: "\<And>i. mset (arr i rows) = mset rows"
    and g: "get_page = (\<lambda>i. list_agents_route (arr i) st pf now creds status tag i page_size s)"
    and ys: "ys = (\<lambda>i. order_by_desc a_created_at (arr i rows))"
  shows "\<exists>r. read_pages get_page (int n + 1) = Some r \<and>
    (case r of Inl e \<Rightarrow> \<exists>a \<in> set rows. \<not> is_ok (to_agent_response st a)
     | Inr rs \<Rightarrow> map ar_id rs = map a_id (shown_rows ys (nat page_size) (n * nat page_size) (length rows)))"
proof (induction "length rows - n * nat page_size" arbitrary: n rule: less_induct)
  case less
  let ?k = "nat page_size" and ?m = "min (Suc n * nat page_size) (length rows)"
  have y: "mset (ys i) = mset rows" for i by (simp add: ys arr)
  have len: "length (ys i) = length rows" for i using y by (rule mset_eq_length)
  have elems: "set (ys i) = set rows" for i using y by (rule mset_eq_setD)
  have "fst (list_agents (arr (int n + 1)) (p_user_id p) status tag (int n + 1) page_size (sv_db s)) =
      take ?k (drop (n * ?k) (ys (int n + 1)))"
    using assms(1) by (simp add: list_agents_def Let_def ys rows [symmetric] nat_mult_distrib)
  note at_page = this
  show ?case
  proof (cases "get_page (int n + 1)")
    case (Inl e)
    then have "\<not> is_ok (traverse (to_agent_response st) (take ?k (drop (n * ?k) (ys (int n + 1)))))"
      using assms(2) at_page
      by (auto simp: g list_agents_route_def list_agents_def Let_def is_ok_iff)
    then have "\<exists>a \<in> set rows. \<not> is_ok (to_agent_response st a)"
      unfolding traverse_ok elems [of "int n + 1", symmetric] by (auto dest: in_set_takeD in_set_dropD)
    then show ?thesis using Inl by (simp add: read_pages.simps [of get_page "int n + 1"])
  next
    case (Inr x)
    note page = list_route_page [OF Inr [unfolded g] assms(2)]
    have ids: "map ar_id (li_agents x) = map a_id (shown_rows ys ?k (n * ?k) ?m)"
    proof -
      have "0 < ?k" using assms(1) by simp
      from shown_page [where ys = ys and n = n, OF this len] show ?thesis using page(1) at_page by simp
    qed
    have "(int n + 1) * page_size = int (Suc n * ?k)" using assms(1) by (simp add: distrib_right)
    then have next_iff: "li_has_next x \<longleftrightarrow> Suc n * ?k < length rows"
      using page(2,3) by (simp add: rows del: of_nat_mult mult_Suc)
    show ?thesis
    proof (cases "li_has_next x")
      case True
      have "length rows - Suc n * ?k < length rows - n * ?k" using True next_iff assms(1) by auto
      from less [OF this] obtain r where r: "read_pages get_page (int n + 1 + 1) = Some r"
        "case r of Inl e \<Rightarrow> \<exists>a \<in> set rows. \<not> is_ok (to_agent_response st a)
         | Inr rs \<Rightarrow> map ar_id rs = map a_id (shown_rows ys ?k (Suc n * ?k) (length rows))"
        by (auto simp: add.commute)
      have "[n * ?k..<?m] @ [Suc n * ?k..<length rows] = [n * ?k..<length rows]"
        using True next_iff upt_add_eq_append [of "n * ?k" "Suc n * ?k" "length rows - Suc n * ?k"] by simp
      then have "map a_id (shown_rows ys ?k (n * ?k) ?m) @ map a_id (shown_rows ys ?k (Suc n * ?k) (length rows)) =
          map a_id (shown_rows ys ?k (n * ?k) (length rows))"
        unfolding shown_rows_def map_append [symmetric] by (rule arg_cong)
      then show ?thesis
        using r True Inr ids by (auto simp: read_pages.simps [of get_page "int n + 1"] split: sum.splits)
    next
      case False
      then have "?m = length rows" using next_iff by simp
      then show ?thesis using False Inr ids by (simp add: read_pages.simps [of get_page "int n + 1"])
    qed
  qed
qed

text \<open>What of the rows is shown, when every page comes from its own sort of the same rows.\<close>

lemma shown_rows_times:
  assumes "\<And>i. mset (arr i rows) = mset rows"
    and sh: "sh = shown_rows (\<lambda>i. order_by_desc key (arr i rows)) k 0 (length rows)"
  shows "map key sh = map key (order_by_desc key rows)" and "set sh \<subseteq> set rows"
    and "(\<And>i. arr i = arr 1) \<Longrightarrow> mset sh = mset rows"
proof -
  let ?ys = "\<lambda>i. order_by_desc key (arr i rows)"
  have y: "mset (?ys i) = mset rows" for i by (simp add: assms(1))
  have len: "length (?ys i) = length rows" for i using y by (rule mset_eq_length)
  have elems: "set (?ys i) = set rows" for i using y by (rule mset_eq_setD)
  show "map key sh = map key (order_by_desc key rows)"
  proof (rule nth_equalityI)
    fix j assume "j < length (map key sh)"
    then have j: "j < length rows" by (simp add: sh shown_rows_def)
    then have "map key sh ! j = map key (?ys (int (j div k) + 1)) ! j"
      using len by (simp add: sh shown_rows_def)
    then show "map key sh ! j = map key (order_by_desc key rows) ! j"
      using order_by_desc_keys [OF assms(1)] by simp
  qed (simp add: sh shown_rows_def order_by_desc_def)
  show "set sh \<subseteq> set rows"
  proof
    fix a assume "a \<in> set sh"
    then obtain j where "j < length rows" "a = ?ys (int (j div k) + 1) ! j"
      by (auto simp: sh shown_rows_def)
    then show "a \<in> set rows" unfolding elems [of "int (j div k) + 1", symmetric] using nth_mem len by metis
  qed
  assume "\<And>i. arr i = arr 1"
  then have "?ys (int (j div k) + 1) = ?ys 1" for j by (metis (no_types))
  then have "sh = map (\<lambda>j. ?ys 1 ! j) [0..<length (?ys 1)]" by (simp add: sh shown_rows_def mset_eq_length [OF assms(1)])
  then have "sh = ?ys 1" unfolding map_nth .
  then show "mset sh = mset rows" using y by simp
qed

lemma once_by_key:
  assumes "map key sh = map key (order_by_desc key rows)" and "set sh \<subseteq> set rows" and "distinct rows"
    and "a \<in> set rows" and "\<And>b. b \<in> set rows \<Longrightarrow> key b = key a \<Longrightarrow> b = a"
  shows "count_list sh a = 1"
proof -
  have only: "count_list (map key xs) (key a) = count_list xs a" if "set xs \<subseteq> set rows" for xs
    using that
  proof (induction xs)
    case (Cons x xs)
    then have "key x = key a \<longleftrightarrow> x = a" using assms(5) [of x] by auto
    then show ?case using Cons by simp
  qed simp
  have "count_list (map key (order_by_desc key rows)) (key a) = count_list (order_by_desc key rows) a"
    by (rule only) (simp add: order_by_desc_def)
  also have "\<dots> = count_list rows a"
    by (metis count_mset order_by_desc_mset)
  finally show ?thesis
    using only [OF assms(2)] assms(1,3,4) by (simp add: distinct_count_atmost_1 count_list_0_iff flip: count_mset)
qed

section \<open>Properties\<close>

text \<open>
  C12: only its owner, as a developer, changes an agent. When a request to update, deploy, scale or
  delete an agent, or to add or remove one of its access keys, changes anything in the database or
  the runtime, then the agent exists, the caller was authenticated as its owner and the caller's
  role allows OPERATOR.
\<close>

theorem changes_are_authorised:
  assumes "db_wf (sv_db s)" and "handle_request st pf now creds req s \<noteq> s"
  shows "\<exists>p ag. get_current_principal st (pl_crypto pf) (pl_auth pf) now creds (sv_db s) = Inr p \<and>
    role_can (pl_auth pf) (p_role p) OPERATOR \<and>
    get_row a_id (req_agent req) (agents (sv_db s)) = Some ag \<and> a_user_id ag = p_user_id p"
proof -
  obtain p where p: "require_developer st pf now creds s = Inr p"
    using assms(2) request_refused [of st pf now creds s] by (cases "require_developer st pf now creds s") auto
  then obtain ag where "get_owned (p_user_id p) (req_agent req) (sv_db s) = Inr ag"
    using assms(2) request_foreign [OF p] by (cases "get_owned (p_user_id p) (req_agent req) (sv_db s)") auto
  then show ?thesis
    using developer_ok [OF p] by (auto simp: get_owned_wf [OF assms(1)] split: option.split_asm if_split_asm)
qed

definition sample_principal :: principal where
  "sample_principal = \<lparr>p_user_id = 1, p_email = ''a'', p_role = OPERATOR, p_auth_method = Jwt, p_api_key_id = None\<rparr>"

definition sample_request :: agent_config_in where
  "sample_request = \<lparr>ci_name = ''My bot'', ci_runtime = ''custom'', ci_framework = [], ci_model = [],
     ci_api_key = None, ci_system_prompt = None, ci_deploy = None, ci_access = ''private'', ci_tags = [], ci_metadata = []\<rparr>"

lemma sample_principal_id [simp]: "p_user_id sample_principal = 1"
  by (simp add: sample_principal_def)

lemma sample_viewer:
  "viewer default_settings sample_platform 5 (Some sample_token) sample_service = Inr sample_principal"
  "require_developer default_settings sample_platform 5 (Some sample_token) sample_service = Inr sample_principal"
  using sample_session sample_token_shape sample_values
  by (simp_all add: viewer_def require_developer_def require_role_def get_current_principal_def sample_platform_def
      sample_service_def sample_principal_def)

theorem changes_are_authorised_witness:
  "\<exists>p. get_current_principal default_settings (pl_crypto sample_platform) (pl_auth sample_platform) 5
       (Some sample_token) (sv_db sample_service) = Inr p \<and> p_user_id p = 1"
proof -
  have d: "sv_db (handle_request default_settings sample_platform 5 (Some sample_token) (ReqDelete ''agent-1'') sample_service) =
      remove_agent_row ''agent-1'' sample_db"
  proof -
    have "handle_request default_settings sample_platform 5 (Some sample_token) (ReqDelete ''agent-1'') sample_service =
        fst (delete_agent sample_platform 1 ''agent-1'' sample_service)"
      by (simp add: delete_agent_route_def sample_viewer)
    then show ?thesis
      by (simp add: delete_agent_def sample_service_def sample_owned rt_remove_agent_def sample_platform_def
          sample_runtime_def from_core_def sample_agent_def)
  qed
  have "remove_agent_row ''agent-1'' sample_db \<noteq> sample_db"
  proof
    assume "remove_agent_row ''agent-1'' sample_db = sample_db"
    then have "agents (remove_agent_row ''agent-1'' sample_db) = agents sample_db" by simp
    then show False by (simp add: remove_agent_row_def delete_row_def sample_db_def sample_agent_def)
  qed
  then have "handle_request default_settings sample_platform 5 (Some sample_token) (ReqDelete ''agent-1'') sample_service \<noteq>
      sample_service"
    using d by (auto simp: sample_service_def)
  then show ?thesis
    using changes_are_authorised [of sample_service default_settings sample_platform 5 "Some sample_token" "ReqDelete ''agent-1''"]
      sample_db_wf
    by (auto simp: sample_service_def sample_db_def get_row_Cons sample_agent_def)
qed

text \<open>Two queries that come across agents of the same time in different orders.\<close>

lemma listing_may_repeat:
  "map a_id (fst (list_agents (\<lambda>xs. xs) 1 None None 1 1
       (sample_db\<lparr>agents := [sample_agent, sample_agent\<lparr>a_id := ''agent-2'', a_slug := ''s2''\<rparr>]\<rparr>)) @
     fst (list_agents rev 1 None None 2 1
       (sample_db\<lparr>agents := [sample_agent, sample_agent\<lparr>a_id := ''agent-2'', a_slug := ''s2''\<rparr>]\<rparr>))) =
   [''agent-1'', ''agent-1'']"
  by code_simp



text \<open>
  C33: a private agent comes with a key that works. The response to a successful creation carries an
  access key exactly when the new agent is private, and that key is valid for that agent; an agent
  asked to be public gets none.
\<close>

theorem private_agent_comes_with_key:
  assumes "create_agent_route st pf now creds dr kd b s = (s', Inr resp)"
  shows "if ci_access b = ''private''
    then \<exists>raw. ar_access_key resp = Some raw \<and> is_valid_access_key (pl_crypto pf) (ar_id resp) raw (sv_db s')
    else ar_access_key resp = None"
proof -
  obtain p :: principal and s1 ag where c: "create_agent pf dr (p_user_id p) b s = (s1, Inr ag)"
    and rest: "check_then (to_agent_response st ag) (\<lambda>resp.
           if a_access ag = ''private''
           then check_then (create_access_key (pl_crypto pf) kd ag ''default'' (sv_db s1)) (\<lambda>(d2, k, raw).
                  (s1\<lparr>sv_db := d2\<rparr>, Inr (resp\<lparr>ar_access_key := Some raw\<rparr>))) s1
           else (s1, Inr resp)) s1 = (s', Inr resp)"
  proof -
    obtain p where p: "require_developer st pf now creds s = Inr p"
      using assms by (cases "require_developer st pf now creds s") (simp_all add: create_agent_route_def)
    obtain s1 x where x: "create_agent pf dr (p_user_id p) b s = (s1, x)" by fastforce
    then show ?thesis
      using assms p that [of p s1] by (cases x) (simp_all add: create_agent_route_def)
  qed
  have key: "create_access_key cr kd ag l d = Inr (d2, k, raw) \<Longrightarrow> is_valid_access_key cr (a_id ag) raw d2" for cr l d d2 k raw
    by (auto simp: create_access_key_def Let_def result_simps insert_access_key_def is_valid_access_key_def
        split: if_split_asm)
  have "a_access ag = ci_access b" using created_access [OF c] .
  then show ?thesis
    using rest key response_id
    by (elim check_then_cases) (fastforce split: if_split_asm prod.split_asm elim!: check_then_cases)+
qed

definition sent_logs :: "sse_event list \<Rightarrow> agent_log list" where
  "sent_logs evs = concat (map (\<lambda>e. case e of LogEvent l \<Rightarrow> [l] | _ \<Rightarrow> []) evs)"

definition polled_logs :: "'r platform \<Rightarrow> uuid \<Rightarrow> string \<Rightarrow> string option \<Rightarrow> 'r service \<Rightarrow> agent_log list" where
  "polled_logs pf user_id agent_id level s =
     (case get_logs pf user_id agent_id level None 200 s of Inl _ \<Rightarrow> [] | Inr l \<Rightarrow> l)"

lemma emit_new_effect:
  "emit_new seen ls = (seen', out) \<Longrightarrow> set seen' = set seen \<union> log_key ` set ls \<and>
     log_key ` set out = log_key ` set ls - set seen \<and> distinct (map log_key out)"
proof (induction seen ls arbitrary: seen' out rule: emit_new.induct)
  case (2 seen l ls)
  show ?case
  proof (cases "log_key l \<in> set seen")
    case True
    then show ?thesis
      using 2(1) [OF True] 2(3) by (simp only: emit_new.simps if_True list.set image_insert) blast
  next
    case False
    obtain s1 o1 where e: "emit_new (log_key l # seen) ls = (s1, o1)" by fastforce
    then have "seen' = s1" "out = l # o1" using 2(3) False by simp_all
    moreover from 2(2) [OF False e]
    have i: "set s1 = insert (log_key l) (set seen) \<union> log_key ` set ls"
      "log_key ` set o1 = log_key ` set ls - insert (log_key l) (set seen)" "distinct (map log_key o1)"
      by (simp_all only: list.set)
    moreover have "log_key l \<notin> log_key ` set o1" unfolding i(2) by blast
    ultimately show ?thesis
      using False by (simp only: list.set image_insert list.map distinct.simps set_map) blast
  qed
qed simp

lemma sent_logs_simps [simp]:
  "sent_logs [] = []" "sent_logs (Heartbeat # evs) = sent_logs evs"
  "sent_logs (map LogEvent ls @ evs) = ls @ sent_logs evs"
proof -
  show "sent_logs (map LogEvent ls @ evs) = ls @ sent_logs evs" by (induction ls) (simp_all add: sent_logs_def)
qed (simp_all add: sent_logs_def)

lemma log_polls_effect:
  "distinct (map log_key (sent_logs (log_polls pf u aid level seen polls))) \<and>
   log_key ` set (sent_logs (log_polls pf u aid level seen polls)) =
     (\<Union>s \<in> set polls. log_key ` set (polled_logs pf u aid level s)) - set seen \<and>
   length (filter (\<lambda>e. e = Heartbeat) (log_polls pf u aid level seen polls)) = length polls"
proof (induction polls arbitrary: seen)
  case (Cons s polls)
  obtain seen' out where e: "emit_new seen (polled_logs pf u aid level s) = (seen', out)" by fastforce
  have step: "log_polls pf u aid level seen (s # polls) =
      map LogEvent out @ Heartbeat # log_polls pf u aid level seen' polls"
    using e by (simp add: polled_logs_def)
  have none: "filter (\<lambda>e. e = Heartbeat) (map LogEvent out) = []" by (simp add: filter_empty_conv)
  let ?rest = "sent_logs (log_polls pf u aid level seen' polls)"
  have ih: "log_key ` set ?rest = (\<Union>s \<in> set polls. log_key ` set (polled_logs pf u aid level s)) - set seen'"
    using Cons.IH [of seen'] by (elim conjE)
  have em: "set seen' = set seen \<union> log_key ` set (polled_logs pf u aid level s)"
    "log_key ` set out = log_key ` set (polled_logs pf u aid level s) - set seen"
    using emit_new_effect [OF e] by (simp_all only:)
  have gen: "S' = S \<union> P \<Longrightarrow> Q = P - S \<Longrightarrow> Q \<inter> (U - S') = {}"
    "S' = S \<union> P \<Longrightarrow> Q = P - S \<Longrightarrow> Q \<union> (U - S') = P \<union> U - S" for S S' P Q U :: "(string \<times> timestamp) set"
    by blast+
  have "log_key ` set out \<inter> log_key ` set ?rest = {}"
    unfolding ih by (rule gen(1) [OF em])
  then have "distinct (map log_key (out @ ?rest))"
    using Cons.IH [of seen'] emit_new_effect [OF e] by simp
  moreover have "log_key ` set (out @ ?rest) =
      (\<Union>s \<in> set (s # polls). log_key ` set (polled_logs pf u aid level s)) - set seen"
    unfolding set_append image_Un ih list.set UN_insert by (rule gen(2) [OF em])
  ultimately show ?case
    unfolding step using Cons.IH [of seen'] none by simp
qed simp

text \<open>
  C31: the log stream shows every line once and stays alive. Over any sequence of polls, failing ones
  included, no two log events have the same replica and time, exactly the lines that some poll saw
  (by replica and time) are sent, and every poll ends with one heartbeat.
\<close>

theorem log_stream_once:
  "distinct (map log_key (sent_logs (log_polls pf user_id agent_id level [] polls))) \<and>
   log_key ` set (sent_logs (log_polls pf user_id agent_id level [] polls)) =
     (\<Union>s \<in> set polls. log_key ` set (polled_logs pf user_id agent_id level s)) \<and>
   length (filter (\<lambda>e. e = Heartbeat) (log_polls pf user_id agent_id level [] polls)) = length polls"
  using log_polls_effect [of pf user_id agent_id level "[]" polls] by simp

theorem private_agent_comes_with_key_witness:
  "\<exists>s' resp. create_agent_route default_settings sample_platform 5 (Some sample_token)
      \<lparr>ad_token = ''x'', ad_suffix = ''abcdef'', ad_nonce = 0, ad_now = 0\<rparr> \<lparr>kd_id = 4, kd_token = ''t'', kd_now = 5\<rparr>
      sample_request sample_service = (s', Inr resp) \<and> ar_access_key resp \<noteq> None"
proof -
  let ?x = "create_agent_route default_settings sample_platform 5 (Some sample_token)
      \<lparr>ad_token = ''x'', ad_suffix = ''abcdef'', ad_nonce = 0, ad_now = 0\<rparr> \<lparr>kd_id = 4, kd_token = ''t'', kd_now = 5\<rparr>
      sample_request sample_service"
  have "is_ok (snd ?x)" by code_simp
  then obtain s' resp where x: "?x = (s', Inr resp)" by (cases ?x) (auto simp: is_ok_iff)
  from private_agent_comes_with_key [OF this] show ?thesis
    using x by (auto simp: sample_request_def)
qed

end
