(* ===== verification/Scheduler.thy ===== *)
theory Scheduler
  imports Agent_Service
begin

text \<open>
  The scheduler (\<open>scheduler.py\<close>): every tick writes the pending request counts, takes over what the
  runtime reports of each active agent, meters running time and lets the runtime auto-scale. The
  loop is a function of the times its ticks start at. Exceptions that the code catches per agent
  are skipped here too; the others end the tick, which the loop survives.
\<close>

definition SCHEDULED_STATUSES :: "string list" where
  "SCHEDULED_STATUSES = [''running'', ''scaling'', ''starting'']"

definition live_replicas :: "health \<Rightarrow> nat" where
  "live_replicas h = (case he_containers h of None \<Rightarrow> 0 | Some cs \<Rightarrow> length cs)"

definition observed_status :: "health \<Rightarrow> string \<Rightarrow> string" where
  "observed_status h status =
     (if live_replicas h = 0 then ''stopped''
      else if he_healthy h \<noteq> Some True \<and>
        (case he_consecutive_failures h of None \<Rightarrow> 0 | Some n \<Rightarrow> n) \<ge> 3 then ''crashed''
      else if status \<noteq> ''scaling'' then ''running''
      else status)"

definition observe :: "health \<Rightarrow> agent \<Rightarrow> agent" where
  "observe h a = a\<lparr>a_replicas := int (live_replicas h), a_status := observed_status h (a_status a)\<rparr>"

text \<open>The body of the loop over the active agents, for one agent.\<close>

definition tick_agent :: "'r platform \<Rightarrow> rat \<Rightarrow> timestamp \<Rightarrow> agent \<Rightarrow> 'r service \<Rightarrow> 'r service \<times> unit result" where
  "tick_agent pf secs now ag s = (case rt_health_check pf (a_id ag) (sv_rt s) of
       (rt', Inl e) \<Rightarrow> (s\<lparr>sv_rt := rt'\<rparr>, Inr ())
     | (rt', Inr h) \<Rightarrow>
         let ag1 = observe h ag;
             live = int (live_replicas h);
             s1 = commit_agent (a_id ag) (observe h) (s\<lparr>sv_rt := rt'\<rparr>)
         in check_then
              (if a_status ag1 \<in> {''running'', ''scaling''} \<and> live > 0
               then record_usage ag1 live secs now (sv_db s1) else Inr (sv_db s1)) (\<lambda>d2.
              let s2 = s1\<lparr>sv_db := d2\<rparr> in
              if a_auto_scale ag1 \<and> a_status ag1 = ''running'' \<and> live > 0
              then check_then (has_headroom_for_replica (pl_auth pf) (sv_db s2) ag1) (\<lambda>headroom.
                if headroom then (s2\<lparr>sv_rt := fst (rt_auto_scale pf (a_id ag) (sv_rt s2))\<rparr>, Inr ())
                else (s2, Inr ())) s2
              else (s2, Inr ())) s1)"

fun tick_agents :: "'r platform \<Rightarrow> rat \<Rightarrow> timestamp \<Rightarrow> agent list \<Rightarrow> 'r service \<Rightarrow> 'r service \<times> unit result" where
  "tick_agents pf secs now [] s = (s, Inr ())"
| "tick_agents pf secs now (ag # ags) s = (case tick_agent pf secs now ag s of
     (s', Inl e) \<Rightarrow> (s', Inl e)
   | (s', Inr _) \<Rightarrow> tick_agents pf secs now ags s')"

record 'r process =
  pr_service :: "'r service"
  pr_pending :: counter

definition tick_seconds :: "settings \<Rightarrow> rat option \<Rightarrow> rat" where
  "tick_seconds st elapsed = (case elapsed of None \<Rightarrow> of_int (scheduler_interval_seconds st) | Some x \<Rightarrow> x)"

text \<open>\<open>fault\<close> is what goes wrong with the database while the counts are flushed, if anything.\<close>

definition tick ::
  "settings \<Rightarrow> 'r platform \<Rightarrow> rat option \<Rightarrow> timestamp \<Rightarrow> flush_fault option \<Rightarrow> 'r process \<Rightarrow> 'r process \<times> unit result" where
  "tick st pf elapsed now fault p =
     (let (d1, pending1, _) = flush_requests fault (sv_db (pr_service p)) (pr_pending p);
          s1 = (pr_service p)\<lparr>sv_db := d1\<rparr>;
          active = filter (\<lambda>a. a_status a \<in> set SCHEDULED_STATUSES) (agents d1);
          (s2, r) = tick_agents pf (tick_seconds st elapsed) now active s1
      in (\<lparr>pr_service = s2, pr_pending = pending1\<rparr>, r))"

text \<open>What a tick meters: the time since the last one, but at most three intervals.\<close>

definition elapsed_since :: "settings \<Rightarrow> rat option \<Rightarrow> rat \<Rightarrow> rat option" where
  "elapsed_since st last_tick started = (case last_tick of None \<Rightarrow> None
     | Some t \<Rightarrow> Some (min (started - t) (3 * of_int (scheduler_interval_seconds st))))"

text \<open>
  The loop, for the ticks up to a moment: the monotonic time each starts at, the wall clock, and the
  fault of its flush. An exception of a tick is logged and the loop goes on.
\<close>

fun run_scheduler_loop ::
  "settings \<Rightarrow> 'r platform \<Rightarrow> rat option \<Rightarrow> (rat \<times> timestamp \<times> flush_fault option) list \<Rightarrow> 'r process \<Rightarrow> 'r process" where
  "run_scheduler_loop st pf last_tick [] p = p"
| "run_scheduler_loop st pf last_tick ((started, now, fault) # ticks) p =
     run_scheduler_loop st pf (Some started) ticks
       (fst (tick st pf (elapsed_since st last_tick started) now fault p))"

text \<open>Shutting down flushes once more.\<close>

definition shutdown_flush :: "flush_fault option \<Rightarrow> 'r process \<Rightarrow> 'r process" where
  "shutdown_flush fault p =
     (let (d1, pending1, _) = flush_requests fault (sv_db (pr_service p)) (pr_pending p) in
      \<lparr>pr_service = (pr_service p)\<lparr>sv_db := d1\<rparr>, pr_pending = pending1\<rparr>)"

section \<open>The states of an agent\<close>

text \<open>
  The transitions of an agent's status: deployment and scaling by its owner, observation by the
  scheduler.
\<close>

inductive status_step :: "string \<Rightarrow> string \<Rightarrow> bool" where
  deploy_begins: "status_step x ''starting''"
| deploy_succeeds: "status_step ''starting'' ''running''"
| deploy_fails: "status_step ''starting'' ''failed''"
| scale_begins: "status_step x ''scaling''"
| scale_succeeds: "status_step ''scaling'' ''running''"
| scale_fails: "status_step ''scaling'' ''failed''"
| seen_running: "x \<in> {''running'', ''starting''} \<Longrightarrow> status_step x ''running''"
| seen_stopped: "x \<in> {''running'', ''scaling'', ''starting''} \<Longrightarrow> status_step x ''stopped''"
| seen_crashed: "x \<in> {''running'', ''scaling'', ''starting''} \<Longrightarrow> status_step x ''crashed''"

inductive_cases status_stepE: "status_step x y"

section \<open>Lemmas\<close>

text \<open>A change of nothing but the metered hours.\<close>

definition usage_only :: "db \<Rightarrow> db \<Rightarrow> bool" where
  "usage_only d d' \<longleftrightarrow> users d' = users d \<and> agents d' = agents d \<and> api_keys d' = api_keys d \<and>
     invites d' = invites d \<and> access_keys d' = access_keys d \<and> (db_wf d \<longrightarrow> db_wf d')"

lemma usage_only_refl [simp]: "usage_only d d"
  by (simp add: usage_only_def)

lemma usage_only_trans: "usage_only d d1 \<Longrightarrow> usage_only d1 d2 \<Longrightarrow> usage_only d d2"
  by (simp add: usage_only_def)

lemma upsert_usage_only: "upsert_usage h d = Inr d' \<Longrightarrow> usage_only d d'"
  using upsert_frame upsert_wf by (simp add: usage_only_def)

lemma record_usage_only: "record_usage ag r x t d = Inr d' \<Longrightarrow> usage_only d d'"
  by (auto simp: record_usage_def upsert_usage_only split: if_split_asm)

lemma write_batch_usage_only: "write_batch ex b (d, w) = Inr (d', w') \<Longrightarrow> usage_only d d'"
proof (induction ex b "(d, w)" arbitrary: d w rule: write_batch.induct)
  case (2 ex aid uid hour n b d w)
  then show ?case
    by (auto simp: result_simps split: if_split_asm intro: usage_only_trans [OF upsert_usage_only])
qed simp

lemma flush_usage_only: "flush_requests fault d c = (d', c', r) \<Longrightarrow> usage_only d d'"
  by (auto simp: flush_requests_def take_batch_def finish_flush_def Let_def
      split: if_split_asm sum.split_asm option.split_asm flush_fault.split_asm intro: write_batch_usage_only)

lemma observe_keeps [simp]:
  "a_id (observe h a) = a_id a" "a_slug (observe h a) = a_slug a" "a_user_id (observe h a) = a_user_id a"
  by (simp_all add: observe_def)

text \<open>What a tick does for one agent.\<close>

definition health_raises :: "'r platform \<Rightarrow> string \<Rightarrow> bool" where
  "health_raises pf aid \<longleftrightarrow> (\<exists>rt rt' e. core_health_check (pl_runtime pf) aid rt = (rt', Inl e))"

lemma tick_agent_cases:
  assumes "tick_agent pf secs now ag s = (s', r)"
  obtains "sv_db s' = sv_db s" "health_raises pf (a_id ag)"
  | rt' h where "core_health_check (pl_runtime pf) (a_id ag) (sv_rt s) = (rt', Inr h)"
      "usage_only (set_agent (a_id ag) (observe h) (sv_db s)) (sv_db s')"
proof -
  obtain rt' x where x: "rt_health_check pf (a_id ag) (sv_rt s) = (rt', x)" by fastforce
  show ?thesis
  proof (cases x)
    case (Inl e)
    then obtain y where "core_health_check (pl_runtime pf) (a_id ag) (sv_rt s) = (rt', Inl y)"
      using x by (auto simp: rt_health_check_def apsnd_from_core)
    then have "health_raises pf (a_id ag)" unfolding health_raises_def by blast
    then show ?thesis using assms x Inl that(1) by (auto simp: tick_agent_def)
  next
    case (Inr h)
    let ?d1 = "set_agent (a_id ag) (observe h) (sv_db s)"
    have "usage_only ?d1 (sv_db s')"
      using assms x Inr unfolding tick_agent_def Let_def
      by (auto elim!: check_then_cases split: if_split_asm) (drule record_usage_only, assumption)+
    then show ?thesis
      using x Inr that(2) by (auto simp: rt_health_check_def apsnd_from_core)
  qed
qed

definition observed_from :: "'r platform \<Rightarrow> agent \<Rightarrow> agent \<Rightarrow> bool" where
  "observed_from pf a a' \<longleftrightarrow>
     (\<exists>rt rt' h. core_health_check (pl_runtime pf) (a_id a) rt = (rt', Inr h) \<and> a' = observe h a)"

lemma tick_agents_row:
  assumes "tick_agents pf secs now ags s = (s', r)" and "distinct (map a_id ags)"
    and "get_row a_id aid (agents (sv_db s)) = Some a"
  shows "\<exists>a'. get_row a_id aid (agents (sv_db s')) = Some a' \<and>
    (a' = a \<and> (aid \<in> a_id ` set ags \<and> r = Inr () \<longrightarrow> health_raises pf aid) \<or>
     aid \<in> a_id ` set ags \<and> observed_from pf a a')"
  using assms
proof (induction ags arbitrary: s a)
  case (Cons ag ags)
  obtain s1 x where t: "tick_agent pf secs now ag s = (s1, x)" by fastforce
  have id: "a_id a = aid" using get_row_Some [OF Cons.prems(3)] by simp
  have "\<exists>a1. get_row a_id aid (agents (sv_db s1)) = Some a1 \<and>
      (a1 = a \<and> (aid = a_id ag \<longrightarrow> health_raises pf aid) \<or> aid = a_id ag \<and> observed_from pf a a1)"
    using t
  proof (rule tick_agent_cases)
    fix rt' h
    assume c: "core_health_check (pl_runtime pf) (a_id ag) (sv_rt s) = (rt', Inr h)"
      and "usage_only (set_agent (a_id ag) (observe h) (sv_db s)) (sv_db s1)"
    then have "get_row a_id aid (agents (sv_db s1)) = Some (if aid = a_id ag then observe h a else a)"
      using Cons.prems(3) by (auto simp: usage_only_def get_row_update)
    moreover have "aid = a_id ag \<Longrightarrow> observed_from pf a (observe h a)"
      using c id unfolding observed_from_def by metis
    ultimately show ?thesis by auto
  qed (use Cons.prems(3) in simp)
  then obtain a1 where a1: "get_row a_id aid (agents (sv_db s1)) = Some a1"
    "a1 = a \<and> (aid = a_id ag \<longrightarrow> health_raises pf aid) \<or> aid = a_id ag \<and> observed_from pf a a1" by blast
  show ?case
  proof (cases x)
    case (Inl e)
    then show ?thesis using Cons.prems(1) t a1 by auto
  next
    case (Inr y)
    then obtain a' where "get_row a_id aid (agents (sv_db s')) = Some a'"
      "a' = a1 \<and> (aid \<in> a_id ` set ags \<and> r = Inr () \<longrightarrow> health_raises pf aid) \<or>
       aid \<in> a_id ` set ags \<and> observed_from pf a1 a'"
      using Cons.IH [of s1 a1] Cons.prems(1,2) t a1(1) by auto
    moreover have "a_id ag \<notin> a_id ` set ags" using Cons.prems(2) by simp
    ultimately show ?thesis using a1(2) by (cases "aid = a_id ag") (simp_all, blast+)
  qed
qed simp

lemma tick_agents_frame:
  assumes "tick_agents pf secs now ags s = (s', r)"
  shows "users (sv_db s') = users (sv_db s) \<and> api_keys (sv_db s') = api_keys (sv_db s) \<and>
    invites (sv_db s') = invites (sv_db s) \<and> access_keys (sv_db s') = access_keys (sv_db s) \<and>
    map a_id (agents (sv_db s')) = map a_id (agents (sv_db s)) \<and> (db_wf (sv_db s) \<longrightarrow> db_wf (sv_db s'))"
  using assms
proof (induction ags arbitrary: s)
  case (Cons ag ags)
  obtain s1 x where t: "tick_agent pf secs now ag s = (s1, x)" by fastforce
  have "users (sv_db s1) = users (sv_db s) \<and> api_keys (sv_db s1) = api_keys (sv_db s) \<and>
      invites (sv_db s1) = invites (sv_db s) \<and> access_keys (sv_db s1) = access_keys (sv_db s) \<and>
      map a_id (agents (sv_db s1)) = map a_id (agents (sv_db s)) \<and> (db_wf (sv_db s) \<longrightarrow> db_wf (sv_db s1))"
    using t by (rule tick_agent_cases) (auto simp: usage_only_def set_agent_wf map_update_row_same)
  then show ?case
    using Cons t by (cases x) auto
qed simp

lemma tick_split:
  assumes "tick st pf elapsed now fault p = (p', r)"
  obtains d1 c' x s2 where "flush_requests fault (sv_db (pr_service p)) (pr_pending p) = (d1, c', x)"
    "tick_agents pf (tick_seconds st elapsed) now
       (filter (\<lambda>a. a_status a \<in> set SCHEDULED_STATUSES) (agents d1)) ((pr_service p)\<lparr>sv_db := d1\<rparr>) = (s2, r)"
    "p' = \<lparr>pr_service = s2, pr_pending = c'\<rparr>"
  using assms by (auto simp: tick_def Let_def split: prod.split_asm)

lemma observed_step:
  assumes "a_status a \<in> set SCHEDULED_STATUSES" and "observed_from pf a a'"
  shows "a_status a' = a_status a \<or> status_step (a_status a) (a_status a')"
proof -
  obtain h where "a_status a' = observed_status h (a_status a)"
    using assms(2) by (auto simp: observed_from_def observe_def)
  moreover have "observed_status h x = ''stopped'' \<or> observed_status h x = ''crashed'' \<or>
      observed_status h x = ''running'' \<and> x \<noteq> ''scaling'' \<or> observed_status h x = x" for x
    by (simp add: observed_status_def)
  ultimately show ?thesis
    using assms(1) by (auto simp: SCHEDULED_STATUSES_def status_step.simps)
qed

lemma tick_rows:
  assumes "db_wf (sv_db (pr_service p))" and "tick st pf elapsed now fault p = (p', r)"
  defines "d \<equiv> sv_db (pr_service p)" and "d' \<equiv> sv_db (pr_service p')"
  shows "db_wf d' \<and> users d' = users d \<and> api_keys d' = api_keys d \<and> invites d' = invites d \<and>
    access_keys d' = access_keys d \<and> map a_id (agents d') = map a_id (agents d) \<and>
    (\<forall>a \<in> set (agents d). \<exists>a'. get_row a_id (a_id a) (agents d') = Some a' \<and>
       (a' = a \<and> (a_status a \<in> set SCHEDULED_STATUSES \<and> r = Inr () \<longrightarrow> health_raises pf (a_id a)) \<or>
        a_status a \<in> set SCHEDULED_STATUSES \<and> observed_from pf a a'))"
proof -
  obtain d1 c' x s2 where f: "flush_requests fault d (pr_pending p) = (d1, c', x)"
    and t: "tick_agents pf (tick_seconds st elapsed) now
       (filter (\<lambda>a. a_status a \<in> set SCHEDULED_STATUSES) (agents d1)) ((pr_service p)\<lparr>sv_db := d1\<rparr>) = (s2, r)"
    and p': "p' = \<lparr>pr_service = s2, pr_pending = c'\<rparr>"
    using assms(2) unfolding d_def by (rule tick_split)
  have u: "usage_only d d1" and wf: "db_wf d1"
    using flush_usage_only [OF f] assms(1) by (auto simp: usage_only_def d_def)
  have dist: "distinct (map a_id (filter (\<lambda>a. a_status a \<in> set SCHEDULED_STATUSES) (agents d1)))"
    using db_wfD(7) [OF wf] by (simp add: unique_on_def distinct_map_filter)
  have row: "\<exists>a'. get_row a_id (a_id a) (agents d') = Some a' \<and>
      (a' = a \<and> (a_status a \<in> set SCHEDULED_STATUSES \<and> r = Inr () \<longrightarrow> health_raises pf (a_id a)) \<or>
       a_status a \<in> set SCHEDULED_STATUSES \<and> observed_from pf a a')" if "a \<in> set (agents d)" for a
  proof -
    have a: "a \<in> set (agents d1)" using that u by (simp add: usage_only_def)
    have "b = a" if "b \<in> set (agents d1)" "a_id a = a_id b" for b
      using get_row_unique [OF db_wfD(7) [OF wf]] a that by (metis option.inject)
    then have "a_id a \<in> a_id ` set (filter (\<lambda>a. a_status a \<in> set SCHEDULED_STATUSES) (agents d1)) \<longleftrightarrow>
        a_status a \<in> set SCHEDULED_STATUSES"
      using a by (auto simp only: image_iff set_filter)
    then show ?thesis
      using tick_agents_row [OF t dist, of "a_id a" a] get_row_unique [OF db_wfD(7) [OF wf] a] p'
      by (auto simp: d'_def)
  qed
  then show ?thesis
    using tick_agents_frame [OF t] u wf p' by (simp add: usage_only_def d'_def)
qed

text \<open>What a health check makes of a row, column by column.\<close>

lemma observed_from_spelled: "observed_from pf a a' \<longleftrightarrow>
    (\<exists>rt rt' h live. core_health_check (pl_runtime pf) (a_id a) rt = (rt', Inr h) \<and>
       live = (case he_containers h of None \<Rightarrow> 0 | Some cs \<Rightarrow> length cs) \<and>
       a' = a\<lparr>a_replicas := int live,
         a_status := (if live = 0 then ''stopped''
           else if he_healthy h \<noteq> Some True \<and> (\<exists>n \<ge> 3. he_consecutive_failures h = Some n) then ''crashed''
           else if a_status a = ''scaling'' then ''scaling'' else ''running'')\<rparr>)"
proof -
  have "observe h a = a\<lparr>a_replicas := int live,
      a_status := (if live = 0 then ''stopped''
        else if he_healthy h \<noteq> Some True \<and> (\<exists>n \<ge> 3. he_consecutive_failures h = Some n) then ''crashed''
        else if a_status a = ''scaling'' then ''scaling'' else ''running'')\<rparr>"
    if "live = (case he_containers h of None \<Rightarrow> 0 | Some cs \<Rightarrow> length cs)" for h live
    by (simp add: that observe_def observed_status_def live_replicas_def split: option.split)
  then show ?thesis unfolding observed_from_def by simp
qed

lemma SCHEDULED_STATUSES_set: "set SCHEDULED_STATUSES = {''running'', ''scaling'', ''starting''}"
  by (simp add: SCHEDULED_STATUSES_def)

section \<open>Properties\<close>

text \<open>
  C22: a tick reports what the runtime sees, and touches nothing else. Whatever the runtime answers
  and wherever a tick breaks off, every agent keeps its row as it is, column by column, except that
  an active one takes over two columns from the answer of a health check of that very agent: its
  replicas are the number of containers reported, and its status is stopped if there are none,
  crashed if it is not healthy after three or more failures in a row, and otherwise scaling if it was
  scaling and running if not. An active agent is left alone only if its health check raises or the
  tick breaks off. The changes follow the transitions of the agent's life; accounts, keys and
  invites stay the same and the constraints hold.
\<close>

theorem tick_observes:
  assumes "db_wf (sv_db (pr_service p))" and "tick st pf elapsed now fault p = (p', r)"
  defines "d \<equiv> sv_db (pr_service p)" and "d' \<equiv> sv_db (pr_service p')"
  shows "db_wf d' \<and> users d' = users d \<and> api_keys d' = api_keys d \<and> invites d' = invites d \<and>
    access_keys d' = access_keys d \<and> map a_id (agents d') = map a_id (agents d) \<and>
    (\<forall>a \<in> set (agents d). \<exists>a'. get_row a_id (a_id a) (agents d') = Some a' \<and>
       (a' = a \<and> (a_status a \<in> {''running'', ''scaling'', ''starting''} \<and> r = Inr () \<longrightarrow>
           (\<exists>rt rt' e. core_health_check (pl_runtime pf) (a_id a) rt = (rt', Inl e))) \<or>
        a_status a \<in> {''running'', ''scaling'', ''starting''} \<and>
        (\<exists>rt rt' h live. core_health_check (pl_runtime pf) (a_id a) rt = (rt', Inr h) \<and>
          live = (case he_containers h of None \<Rightarrow> 0 | Some cs \<Rightarrow> length cs) \<and>
          a' = a\<lparr>a_replicas := int live,
            a_status := (if live = 0 then ''stopped''
              else if he_healthy h \<noteq> Some True \<and> (\<exists>n \<ge> 3. he_consecutive_failures h = Some n) then ''crashed''
              else if a_status a = ''scaling'' then ''scaling'' else ''running'')\<rparr>)) \<and>
       (a_status a' = a_status a \<or> status_step (a_status a) (a_status a')))"
proof -
  have "db_wf d' \<and> users d' = users d \<and> api_keys d' = api_keys d \<and> invites d' = invites d \<and>
    access_keys d' = access_keys d \<and> map a_id (agents d') = map a_id (agents d) \<and>
    (\<forall>a \<in> set (agents d). \<exists>a'. get_row a_id (a_id a) (agents d') = Some a' \<and>
       (a' = a \<and> (a_status a \<in> set SCHEDULED_STATUSES \<and> r = Inr () \<longrightarrow> health_raises pf (a_id a)) \<or>
        a_status a \<in> set SCHEDULED_STATUSES \<and> observed_from pf a a') \<and>
       (a_status a' = a_status a \<or> status_step (a_status a) (a_status a')))"
    using tick_rows [OF assms(1,2), folded d_def d'_def] observed_step by (metis (no_types, lifting))
  then show ?thesis
    unfolding observed_from_spelled health_raises_def SCHEDULED_STATUSES_set .
qed

theorem tick_observes_witness:
  "\<exists>p'. tick default_settings sample_platform None 0 None
       \<lparr>pr_service = sample_service\<lparr>sv_rt := [(''agent-1'', 2)]\<rparr>, pr_pending = []\<rparr> = (p', Inr ()) \<and>
     get_row a_id ''agent-1'' (agents (sv_db (pr_service p'))) =
       Some (sample_agent\<lparr>a_replicas := 2, a_status := ''running''\<rparr>)"
proof -
  let ?p = "\<lparr>pr_service = sample_service\<lparr>sv_rt := [(''agent-1'', 2)]\<rparr>, pr_pending = []\<rparr>"
  have "is_ok (snd (tick default_settings sample_platform None 0 None ?p))" by code_simp
  then obtain p' where t: "tick default_settings sample_platform None 0 None ?p = (p', Inr ())"
    by (cases "tick default_settings sample_platform None 0 None ?p") (auto simp: is_ok_iff)
  have "map_option (\<lambda>a. (a_status a, a_replicas a)) (get_row a_id ''agent-1'' (agents (sv_db (pr_service (fst
      (tick default_settings sample_platform None 0 None ?p)))))) = Some (''running'', 2)" by code_simp
  then have run: "map_option (\<lambda>a. (a_status a, a_replicas a)) (get_row a_id ''agent-1'' (agents (sv_db (pr_service p')))) =
      Some (''running'', 2)" using t by simp
  have wf: "db_wf (sv_db (pr_service ?p))" using sample_db_wf by (simp add: sample_service_def)
  have sample: "sample_agent \<in> set (agents (sv_db (pr_service ?p)))" "a_id sample_agent = ''agent-1''"
    by (simp_all add: sample_service_def sample_db_def sample_agent_def)
  have alive: "\<not> (\<exists>rt rt' e. core_health_check (pl_runtime sample_platform) aid rt = (rt', Inl e))" for aid
    by (simp add: sample_platform_def sample_runtime_def)
  have "a_status sample_agent \<in> {''running'', ''scaling'', ''starting''}" by (simp add: sample_agent_def)
  then obtain x k where "get_row a_id ''agent-1'' (agents (sv_db (pr_service p'))) =
      Some (sample_agent\<lparr>a_replicas := k, a_status := x\<rparr>)"
    using bspec [OF tick_observes [OF wf t, THEN conjunct2, THEN conjunct2, THEN conjunct2, THEN conjunct2,
          THEN conjunct2, THEN conjunct2] sample(1)] alive unfolding sample(2) by blast
  then show ?thesis using t run by simp
qed

section \<open>The metered time of an agent\<close>

definition agent_seconds :: "string \<Rightarrow> db \<Rightarrow> rat" where
  "agent_seconds aid d = sum_list (map uh_replica_seconds (filter (\<lambda>h. uh_agent_id h = aid) (usage_hours d)))"

lemma upsert_agent_seconds:
  assumes "db_wf d" and "upsert_usage h d = Inr d'"
  shows "agent_seconds aid d' = agent_seconds aid d + (if uh_agent_id h = aid then uh_replica_seconds h else 0)"
proof (cases "bucket h \<in> bucket ` set (usage_hours d)")
  case True
  then obtain r where r: "get_row bucket (bucket h) (usage_hours d) = Some r"
    using get_row_None [of bucket "bucket h" "usage_hours d"] by auto
  have "usage_hours d' = update_row bucket (bucket h) (add_usage h) (usage_hours d)"
    using True assms(2) by (auto simp: upsert_usage_def)
  moreover have "uh_agent_id r = uh_agent_id h"
    using get_row_Some [OF r] by (simp add: bucket_def)
  ultimately show ?thesis
    using sum_filter_update [OF db_wf_usage [OF assms(1)] r, of uh_replica_seconds "add_usage h"
        "uh_replica_seconds h" "\<lambda>x. uh_agent_id x = aid"]
    by (simp add: agent_seconds_def add_usage_def)
next
  case False
  then show ?thesis
    using assms(2) by (auto simp: upsert_usage_def agent_seconds_def split: if_split_asm)
qed

lemma record_agent_seconds:
  assumes "db_wf d" and "record_usage ag r x t d = Inr d'"
  shows "agent_seconds aid d' = agent_seconds aid d + (if a_id ag = aid \<and> 0 < r \<and> 0 < x then of_int r * x else 0)"
  using assms upsert_agent_seconds [OF assms(1)] by (auto simp: record_usage_def split: if_split_asm)

lemma write_batch_seconds:
  "db_wf d \<Longrightarrow> write_batch ex b (d, w) = Inr (d', w') \<Longrightarrow> agent_seconds aid d' = agent_seconds aid d"
proof (induction ex b "(d, w)" arbitrary: d w rule: write_batch.induct)
  case (2 ex agent_id user_id hour n b d w)
  show ?case
  proof (cases "user_id \<in> ex")
    case True
    then obtain d1 where d1: "upsert_usage \<lparr>uh_user_id = user_id, uh_agent_id = agent_id, uh_hour_start = hour,
         uh_replica_seconds = 0, uh_vcpu_seconds = 0, uh_memory_mb_seconds = 0, uh_requests = n\<rparr> d = Inr d1"
      and b: "write_batch ex b (d1, w + n) = Inr (d', w')"
      using 2(4) by (auto simp: result_simps)
    show ?thesis
      using 2(2) [OF _ upsert_wf [OF d1 2(3)] b] True upsert_agent_seconds [OF 2(3) d1, of aid] by simp
  next
    case False
    then show ?thesis using 2(1,3,4) by simp
  qed
qed simp

lemma flush_seconds:
  "db_wf d \<Longrightarrow> flush_requests fault d c = (d', c', r) \<Longrightarrow> agent_seconds aid d' = agent_seconds aid d"
  by (auto simp: flush_requests_def take_batch_def finish_flush_def Let_def write_batch_seconds
      split: if_split_asm sum.split_asm option.split_asm flush_fault.split_asm)

lemma agent_seconds_set_agent [simp]: "agent_seconds aid (set_agent x f d) = agent_seconds aid d"
  by (simp add: agent_seconds_def)

lemma tick_agent_seconds:
  assumes "tick_agent pf secs now ag s = (s', r)" and "db_wf (sv_db s)" and "0 \<le> secs"
    and "\<And>rt rt' h. core_health_check (pl_runtime pf) aid rt = (rt', Inr h) \<Longrightarrow> int (live_replicas h) \<le> n"
    and "0 \<le> n"
  shows "agent_seconds aid (sv_db s') \<le> agent_seconds aid (sv_db s) + (if a_id ag = aid then of_int n * secs else 0)"
proof -
  obtain rt' x where x: "rt_health_check pf (a_id ag) (sv_rt s) = (rt', x)" by fastforce
  have n: "0 \<le> of_int n * secs" using assms(3,5) by simp
  show ?thesis
  proof (cases x)
    case (Inl e)
    then show ?thesis using assms(1) x n by (auto simp: tick_agent_def)
  next
    case (Inr h)
    let ?d1 = "set_agent (a_id ag) (observe h) (sv_db s)"
    have wf: "db_wf ?d1" using assms(2) by (simp add: set_agent_wf)
    have le: "a_id ag = aid \<Longrightarrow> of_int (int (live_replicas h)) * secs \<le> of_int n * secs"
      using assms(3,4) x Inr
      by (intro mult_right_mono) (auto simp: rt_health_check_def apsnd_from_core simp del: of_int_of_nat_eq)
    have "sv_db s' = ?d1 \<or> record_usage (observe h ag) (int (live_replicas h)) secs now ?d1 = Inr (sv_db s')"
      using assms(1) x Inr unfolding tick_agent_def Let_def
      by (auto elim!: check_then_cases split: if_split_asm)
    then show ?thesis
      using record_agent_seconds [OF wf, of "observe h ag" _ secs now "sv_db s'" aid] le n by fastforce
  qed
qed

lemma tick_agents_seconds:
  assumes "tick_agents pf secs now ags s = (s', r)" and "db_wf (sv_db s)" and "0 \<le> secs" and "0 \<le> n"
    and "\<And>rt rt' h. core_health_check (pl_runtime pf) aid rt = (rt', Inr h) \<Longrightarrow> int (live_replicas h) \<le> n"
    and "distinct (map a_id ags)"
  shows "agent_seconds aid (sv_db s') \<le>
    agent_seconds aid (sv_db s) + (if aid \<in> a_id ` set ags then of_int n * secs else 0)"
  using assms(1,2,6)
proof (induction ags arbitrary: s)
  case (Cons ag ags)
  obtain s1 x where t: "tick_agent pf secs now ag s = (s1, x)" by fastforce
  have wf: "db_wf (sv_db s1)"
    using t by (rule tick_agent_cases) (use Cons.prems(2) in \<open>auto simp: usage_only_def set_agent_wf\<close>)
  have one: "agent_seconds aid (sv_db s1) \<le> agent_seconds aid (sv_db s) + (if a_id ag = aid then of_int n * secs else 0)"
    using tick_agent_seconds [OF t Cons.prems(2) assms(3) _ assms(4)] assms(5) by blast
  have n: "0 \<le> of_int n * secs" using assms(3,4) by simp
  have new: "a_id ag \<notin> a_id ` set ags" using Cons.prems(3) by simp
  show ?case
  proof (cases x)
    case (Inl e)
    then have "s' = s1" using Cons.prems(1) t by simp
    then show ?thesis using one n by (cases "a_id ag = aid") auto
  next
    case (Inr y)
    then have "agent_seconds aid (sv_db s') \<le>
        agent_seconds aid (sv_db s1) + (if aid \<in> a_id ` set ags then of_int n * secs else 0)"
      using Cons.IH [of s1] Cons.prems(1,3) t wf by simp
    then show ?thesis using one n new by (cases "a_id ag = aid"; cases "aid \<in> a_id ` set ags") simp_all
  qed
qed simp

lemma tick_bill:
  assumes "db_wf (sv_db (pr_service p))" and "0 \<le> tick_seconds st elapsed" and "0 \<le> n"
    and "\<And>rt rt' h. core_health_check (pl_runtime pf) aid rt = (rt', Inr h) \<Longrightarrow> int (live_replicas h) \<le> n"
  shows "agent_seconds aid (sv_db (pr_service (fst (tick st pf elapsed now fault p)))) \<le>
      agent_seconds aid (sv_db (pr_service p)) + of_int n * tick_seconds st elapsed"
    and "db_wf (sv_db (pr_service (fst (tick st pf elapsed now fault p))))"
proof -
  obtain p' r where t: "tick st pf elapsed now fault p = (p', r)" by fastforce
  obtain d1 c' x s2 where f: "flush_requests fault (sv_db (pr_service p)) (pr_pending p) = (d1, c', x)"
    and ta: "tick_agents pf (tick_seconds st elapsed) now
       (filter (\<lambda>a. a_status a \<in> set SCHEDULED_STATUSES) (agents d1)) ((pr_service p)\<lparr>sv_db := d1\<rparr>) = (s2, r)"
    and p': "p' = \<lparr>pr_service = s2, pr_pending = c'\<rparr>"
    using t by (rule tick_split)
  have wf: "db_wf d1" using flush_usage_only [OF f] assms(1) by (auto simp: usage_only_def)
  have dist: "distinct (map a_id (filter (\<lambda>a. a_status a \<in> set SCHEDULED_STATUSES) (agents d1)))"
    using db_wfD(7) [OF wf] by (simp add: unique_on_def distinct_map_filter)
  have "0 \<le> of_int n * tick_seconds st elapsed" using assms(2,3) by simp
  then show "agent_seconds aid (sv_db (pr_service (fst (tick st pf elapsed now fault p)))) \<le>
      agent_seconds aid (sv_db (pr_service p)) + of_int n * tick_seconds st elapsed"
    using tick_agents_seconds [OF ta _ assms(2,3) _ dist, of aid] assms(4) wf p' t flush_seconds [OF assms(1) f, of aid]
    by (auto split: if_split_asm)
  show "db_wf (sv_db (pr_service (fst (tick st pf elapsed now fault p))))"
    using tick_agents_frame [OF ta] wf p' t by simp
qed

lemma loop_bill:
  assumes "db_wf (sv_db (pr_service p))" and "0 \<le> scheduler_interval_seconds st" and "0 \<le> n"
    and "\<And>rt rt' h. core_health_check (pl_runtime pf) aid rt = (rt', Inr h) \<Longrightarrow> int (live_replicas h) \<le> n"
    and "sorted (t0 # map fst ticks)"
  shows "agent_seconds aid (sv_db (pr_service (run_scheduler_loop st pf (Some t0) ticks p))) \<le>
    agent_seconds aid (sv_db (pr_service p)) + of_int n * (last (t0 # map fst ticks) - t0)"
  using assms(1,5)
proof (induction ticks arbitrary: t0 p)
  case (Cons x ticks)
  obtain started now fault where x: "x = (started, now, fault)" by (metis prod.exhaust)
  let ?e = "elapsed_since st (Some t0) started"
  let ?q = "fst (tick st pf ?e now fault p)"
  have e: "0 \<le> tick_seconds st ?e" "tick_seconds st ?e \<le> started - t0"
    using Cons.prems(2) assms(2) by (auto simp: tick_seconds_def elapsed_since_def x)
  have "agent_seconds aid (sv_db (pr_service ?q)) \<le> agent_seconds aid (sv_db (pr_service p)) + of_int n * (started - t0)"
    using tick_bill(1) [OF Cons.prems(1) e(1) assms(3,4)] mult_left_mono [OF e(2), of "of_int n"] assms(3)
    by (force intro: order_trans)
  moreover have "agent_seconds aid (sv_db (pr_service (run_scheduler_loop st pf (Some started) ticks ?q))) \<le>
      agent_seconds aid (sv_db (pr_service ?q)) + of_int n * (last (started # map fst ticks) - started)"
    using Cons.IH [of ?q started] tick_bill(2) [OF Cons.prems(1) e(1) assms(3,4)] Cons.prems(2) by (simp add: x)
  ultimately show ?case by (simp add: x algebra_simps)
qed simp

text \<open>
  C13: nobody pays for more time than has passed. However the scheduler's ticks are delayed, stalled
  or broken off, over any number of ticks an agent that never has more than \<open>n\<close> live replicas is
  metered for at most \<open>n\<close> times the time between the first and the last tick, plus the one interval
  that stands for the time before the first.
\<close>

theorem never_overbilled:
  assumes "db_wf (sv_db (pr_service p))" and "0 \<le> scheduler_interval_seconds st" and "0 \<le> n"
    and "\<forall>rt rt' h. core_health_check (pl_runtime pf) aid rt = (rt', Inr h) \<longrightarrow> int (live_replicas h) \<le> n"
    and "sorted (map fst ticks)" and "ticks \<noteq> []"
  shows "agent_seconds aid (sv_db (pr_service (run_scheduler_loop st pf None ticks p))) \<le>
    agent_seconds aid (sv_db (pr_service p)) +
    of_int n * (of_int (scheduler_interval_seconds st) + (last (map fst ticks) - hd (map fst ticks)))"
proof -
  obtain started now fault rest where x: "ticks = (started, now, fault) # rest"
    using assms(6) by (metis list.exhaust prod.exhaust)
  let ?q = "fst (tick st pf None now fault p)"
  have law: "\<And>rt rt' h. core_health_check (pl_runtime pf) aid rt = (rt', Inr h) \<Longrightarrow> int (live_replicas h) \<le> n"
    using assms(4) by blast
  have e: "0 \<le> tick_seconds st None" using assms(2) by (simp add: tick_seconds_def)
  have "agent_seconds aid (sv_db (pr_service (run_scheduler_loop st pf (Some started) rest ?q))) \<le>
      agent_seconds aid (sv_db (pr_service ?q)) + of_int n * (last (started # map fst rest) - started)"
    using assms(5) by (intro loop_bill [OF tick_bill(2) [OF assms(1) e assms(3) law] assms(2,3) law]) (auto simp: x)
  then show ?thesis
    using tick_bill(1) [where now = now and fault = fault and pf = pf and aid = aid, OF assms(1) e assms(3)] law
    by (cases "rest = []") (auto simp: x elapsed_since_def tick_seconds_def algebra_simps)
qed

theorem never_overbilled_witness:
  "agent_seconds ''agent-1'' (sv_db (pr_service (run_scheduler_loop default_settings
      (sample_platform\<lparr>pl_runtime := sample_runtime\<lparr>core_health_check := (\<lambda>aid r. (r, Inr \<lparr>he_containers = Some [(None, None)],
        he_healthy = None, he_consecutive_failures = None\<rparr>))\<rparr>\<rparr>)
      None [(0, 0, None), (500, 500000000, None)] \<lparr>pr_service = sample_service, pr_pending = []\<rparr>))) \<le> 530"
  (is "agent_seconds _ (sv_db (pr_service (run_scheduler_loop _ ?pf _ ?ticks ?p))) \<le> _")
proof -
  have wf: "db_wf (sv_db (pr_service ?p))" using sample_db_wf by (simp add: sample_service_def)
  have "agent_seconds ''agent-1'' (sv_db (pr_service ?p)) = 0"
    by (simp add: agent_seconds_def sample_service_def sample_db_def empty_db_def)
  then show ?thesis
    using never_overbilled [OF wf, of default_settings 1 ?pf "''agent-1''" ?ticks]
    by (simp add: default_settings_def live_replicas_def)
qed

text \<open>
  Auto-scaling never takes an account past its plan. The scheduler asks the runtime to
  auto-scale an agent only when it is seen running, its owner switched that on, and the quota allows
  one more replica than are live; otherwise the runtime is left as the health check left it.
\<close>

theorem autoscale_needs_headroom:
  assumes "core_health_check (pl_runtime pf) (a_id ag) (sv_rt s) = (rt', Inr h)"
    and "tick_agent pf secs now ag s = (s', r)" and "sv_rt s' \<noteq> rt'"
  shows "a_auto_scale ag \<and> a_status (observe h ag) = ''running'' \<and> 0 < live_replicas h \<and>
    sv_rt s' = fst (core_auto_scale (pl_runtime pf) (a_id ag) rt') \<and>
    ensure_resources (pl_auth pf) (sv_db s') (a_user_id ag) (Some (a_id ag)) (int (live_replicas h) + 1)
      (a_cpu ag) (a_memory_mb ag) = Inr ()"
proof -
  have x: "rt_health_check pf (a_id ag) (sv_rt s) = (rt', Inr h)"
    unfolding rt_health_check_def apsnd_from_core by (rule assms(1))
  have room: "has_headroom_for_replica ca d a = Inr True \<Longrightarrow>
      ensure_resources ca d (a_user_id a) (Some (a_id a)) (a_replicas a + 1) (a_cpu a) (a_memory_mb a) = Inr ()" for ca d a
    by (auto simp: has_headroom_for_replica_def split: sum.split_asm gw_error.split_asm)
  have keep: "a_replicas (observe h ag) = int (live_replicas h)" "a_cpu (observe h ag) = a_cpu ag"
    "a_memory_mb (observe h ag) = a_memory_mb ag" "a_auto_scale (observe h ag) = a_auto_scale ag"
    by (simp_all add: observe_def)
  show ?thesis
    using assms(2,3) x unfolding tick_agent_def Let_def
    by (auto elim!: check_then_cases split: if_split_asm dest!: room simp: keep rt_auto_scale_def)
qed

theorem autoscale_needs_headroom_witness:
  "\<exists>s' r. tick_agent (sample_platform\<lparr>pl_runtime := sample_runtime\<lparr>core_auto_scale := (\<lambda>aid r. ((aid, 9) # r, Inr ()))\<rparr>\<rparr>)
      30 0 (sample_agent\<lparr>a_auto_scale := True\<rparr>) sample_service = (s', r) \<and>
    sv_rt s' = [(''agent-1'', 9), (''agent-1'', 1)]"
proof -
  let ?pf = "sample_platform\<lparr>pl_runtime := sample_runtime\<lparr>core_auto_scale := (\<lambda>aid r. ((aid, 9) # r, Inr ()))\<rparr>\<rparr>"
  let ?ag = "sample_agent\<lparr>a_auto_scale := True\<rparr>"
  obtain s' r where t: "tick_agent ?pf 30 0 ?ag sample_service = (s', r)" by fastforce
  have "sv_rt (fst (tick_agent ?pf 30 0 ?ag sample_service)) \<noteq> [(''agent-1'', 1)]" by code_simp
  then show ?thesis
    using autoscale_needs_headroom [OF _ t, of "[(''agent-1'', 1)]"] t
    by (auto simp: sample_platform_def sample_runtime_def sample_service_def sample_agent_def)
qed

end
