(* ===== verification/Agent_Records.thy ===== *)
theory Agent_Records
  imports Scheduler
begin

text \<open>
  The rows of the agents table as data: which values the service and the scheduler can store, and
  when a stored row can be shown by the API. The machine of this theory interleaves the requests of
  all callers with the scheduler's ticks.
\<close>

section \<open>Well-formed rows\<close>

definition stored_config :: "agent \<Rightarrow> deploy_config" where
  "stored_config ag =
     \<lparr>dc_replicas = a_replicas ag,
      dc_resources = \<lparr>rl_cpu = a_cpu ag, rl_memory_mb = a_memory_mb ag, rl_gpu = a_gpu ag,
        rl_gpu_type = a_gpu_type ag, rl_disk_gb = a_disk_gb ag,
        rl_ephemeral_storage_gb = a_ephemeral_storage_gb ag\<rparr>,
      dc_env = env_from_storage_masked (a_env ag), dc_image = a_image ag, dc_build_path = a_build_path ag,
      dc_command = a_command ag, dc_args = a_args ag, dc_health_check_path = a_health_check_path ag,
      dc_auto_scale = a_auto_scale ag, dc_min_replicas = a_min_replicas ag,
      dc_max_replicas = a_max_replicas ag, dc_port = a_port ag\<rparr>"

text \<open>Everything about the row is valid, except that nothing is said of the number of replicas.\<close>

definition row_ok :: "agent \<Rightarrow> bool" where
  "row_ok a \<longleftrightarrow> a_status a \<in> set AGENT_STATUSES \<and> a_runtime a \<in> set RUNTIME_KINDS \<and>
     a_access a \<in> set AGENT_ACCESS \<and> valid_deploy ((stored_config a)\<lparr>dc_replicas := 1\<rparr>)"

definition rows_ok :: "db \<Rightarrow> bool" where
  "rows_ok d \<longleftrightarrow> (\<forall>a \<in> set (agents d). row_ok a)"

section \<open>Requests and ticks interleaved\<close>

datatype gw_event =
    Request svc_event
  | Tick "rat option" timestamp "flush_fault option"

fun gw_step :: "settings \<Rightarrow> 'r platform \<Rightarrow> 'r process \<Rightarrow> gw_event \<Rightarrow> 'r process" where
  "gw_step st pf p (Request ev) = p\<lparr>pr_service := svc_step pf (pr_service p) ev\<rparr>"
| "gw_step st pf p (Tick elapsed now fault) = fst (tick st pf elapsed now fault p)"

text \<open>A request whose body passed validation.\<close>

fun valid_event :: "gw_event \<Rightarrow> bool" where
  "valid_event (Request (Create _ _ b)) = valid_agent_config b"
| "valid_event (Request (Update _ _ b)) = valid_agent_update b"
| "valid_event (Request (Deploy _ _ _ c)) = (case c of None \<Rightarrow> True | Some x \<Rightarrow> valid_deploy x)"
| "valid_event _ = True"

section \<open>Lemmas\<close>

lemma deploy_config_stored: "deploy_config_from_agent ag = make_deploy_config (stored_config ag)"
  by (simp add: deploy_config_from_agent_def stored_config_def)

lemma row_ok_replicas:
  assumes "row_ok a"
  shows "valid_deploy (stored_config a) \<longleftrightarrow> 1 \<le> a_replicas a \<and> a_replicas a \<le> 100"
  using assms by (simp add: row_ok_def valid_deploy_def stored_config_def)

lemma row_ok_steps:
  assumes "row_ok a"
  shows "x \<in> set AGENT_STATUSES \<Longrightarrow> row_ok (set_status x a)" and "row_ok (failed_with msg a)"
    and "row_ok (deployed n a)" and "row_ok (scaled n a)"
  using assms
  by (auto simp: row_ok_def stored_config_def set_status_def failed_with_def deployed_def scaled_def AGENT_STATUSES_def)

lemma row_ok_observe:
  assumes "row_ok a"
  shows "row_ok (observe h a)"
proof -
  have "observed_status h x \<in> set AGENT_STATUSES" if "x \<in> set AGENT_STATUSES" for x
    using that by (auto simp: observed_status_def AGENT_STATUSES_def)
  then show ?thesis using assms by (simp add: row_ok_def stored_config_def observe_def)
qed

lemma row_ok_update: "row_ok a \<Longrightarrow> valid_agent_update b \<Longrightarrow> row_ok (apply_agent_update b a)"
  by (auto simp: row_ok_def stored_config_def apply_agent_update_def valid_agent_update_def split: option.split)

lemma masked_new_env_valid:
  assumes "\<forall>e \<in> set env. valid_env_var e"
  shows "\<forall>e \<in> set (env_from_storage_masked (env_to_storage cr n env)). valid_env_var e"
  using assms by (auto simp: masked_storage_map mask_secret_def valid_env_var_def SECRET_MASK_def)

lemma masked_kept_valid:
  assumes "\<forall>e \<in> set (env_from_storage_masked old). valid_env_var e"
  shows "\<forall>e \<in> set (env_from_storage_masked (kept_env new old)). valid_env_var e"
  using assms by (auto simp: env_from_storage_masked_def kept_env_def)

lemma row_ok_configured:
  assumes "row_ok a" and "case c of None \<Rightarrow> True | Some x \<Rightarrow> valid_deploy x"
  shows "row_ok (configured pf n c a)"
proof (cases c)
  case None
  then show ?thesis using assms(1) by (simp add: configured_def)
next
  case (Some x)
  let ?new = "env_to_storage (pl_crypto pf) n (dc_env x)"
  have "\<forall>e \<in> set (env_from_storage_masked (?new @ kept_env ?new (a_env a))). valid_env_var e"
    using assms Some masked_new_env_valid [of "dc_env x" "pl_crypto pf" n] masked_kept_valid [of "a_env a" ?new]
    by (auto simp: masked_append row_ok_def valid_deploy_def stored_config_def)
  then show ?thesis
    using assms Some
    by (simp add: row_ok_def configured_def apply_deploy_config_def Let_def stored_config_def valid_deploy_def
        valid_resources_def)
qed

lemma row_ok_new: "valid_agent_config b \<Longrightarrow> row_ok (new_agent dr u b)"
  by (simp add: row_ok_def new_agent_def stored_config_def valid_deploy_def valid_resources_def
      env_from_storage_masked_def AGENT_STATUSES_def valid_agent_config_def)

lemma row_ok_prepared:
  assumes "valid_agent_config b" and "prepared_agent pf dr u b = Inr ag"
  shows "row_ok ag"
proof -
  let ?a = "configured pf (ad_nonce dr) (ci_deploy b) (new_agent dr u b)"
  have a: "row_ok ?a"
    using assms(1) by (intro row_ok_configured row_ok_new) (auto simp: valid_agent_config_def)
  show ?thesis
  proof (cases "truthy (ci_api_key b)")
    case False
    then show ?thesis using assms(2) a by (simp add: prepared_agent_def Let_def)
  next
    case True
    then obtain env where ag: "ag = ?a\<lparr>a_env := env\<rparr>"
      and env: "with_provider_key (pl_crypto pf) (pl_for_model pf) (ad_nonce dr + length (a_env ?a))
         (a_env ?a) (ci_model b) (the (ci_api_key b)) = Inr env"
      using assms(2) by (auto simp: prepared_agent_def Let_def result_simps)
    have "\<forall>e \<in> set (env_from_storage_masked env). valid_env_var e"
      using a env
      by (auto simp: with_provider_key_def row_ok_def valid_deploy_def stored_config_def env_from_storage_masked_def
          PROVIDER_KEY_ENV_def valid_env_var_def SECRET_MASK_def split: option.split_asm if_split_asm)
    then show ?thesis using a by (simp add: ag row_ok_def stored_config_def valid_deploy_def)
  qed
qed

lemma rows_ok_set: "rows_ok d \<Longrightarrow> (\<And>a. row_ok a \<Longrightarrow> row_ok (f a)) \<Longrightarrow> rows_ok (set_agent aid f d)"
  by (auto simp: rows_ok_def set_update_row)
lemma starting_status: "''starting'' \<in> set AGENT_STATUSES" "''scaling'' \<in> set AGENT_STATUSES"
  by (simp_all add: AGENT_STATUSES_def)

lemma rows_ok_deploy:
  assumes "deploy_agent pf n u aid c s = (s', r)" and "rows_ok (sv_db s)"
    and "case c of None \<Rightarrow> True | Some x \<Rightarrow> valid_deploy x"
  shows "rows_ok (sv_db s')"
  using assms(1)
proof (rule deploy_cases)
  fix ag
  assume "launch pf (configured pf n c ag)
       (commit_agent aid (set_status ''starting'') (commit_agent aid (configured pf n c) s)) = (s', r)"
  then show ?thesis
    by (rule launch_cases)
      (use assms(2,3) starting_status in \<open>auto intro!: rows_ok_set row_ok_steps row_ok_configured\<close>)
qed (use assms(2,3) in \<open>auto intro!: rows_ok_set row_ok_configured\<close>)

lemma rows_ok_create:
  assumes "create_agent pf dr u b s = (s', r)" and "rows_ok (sv_db s)" and "valid_agent_config b"
  shows "rows_ok (sv_db s')"
proof -
  have ins: "rows_ok d'" if "prepared_agent pf dr u b = Inr ag" "insert_agent ag (sv_db s) = Inr d'" for ag d'
    using row_ok_prepared [OF assms(3) that(1)] insert_agent_only(3) [OF that(2)] assms(2) by (auto simp: rows_ok_def)
  show ?thesis
    using assms(1) by (rule create_cases) (use assms(2) ins rows_ok_deploy in fastforce)+
qed

lemma rows_ok_request:
  assumes "rows_ok (sv_db s)" and "valid_event (Request ev)"
  shows "rows_ok (sv_db (svc_step pf s ev))"
proof (cases ev)
  case (Create dr u b)
  then show ?thesis using rows_ok_create [of pf dr u b s] assms by (cases "create_agent pf dr u b s") simp
next
  case (Update u aid b)
  then show ?thesis
    using assms by (auto simp: update_agent_def result_simps intro!: rows_ok_set row_ok_update split: sum.split)
next
  case (Deploy n u aid c)
  then show ?thesis using rows_ok_deploy [of pf n u aid c s] assms by (cases "deploy_agent pf n u aid c s") simp
next
  case (Scale u aid dir n)
  obtain s' r where sc: "scale_agent pf u aid dir n s = (s', r)" by fastforce
  then have "rows_ok (sv_db s')"
    by (rule scale_cases) (use assms(1) starting_status in \<open>auto intro!: rows_ok_set row_ok_steps\<close>)
  then show ?thesis using Scale sc by simp
next
  case (Delete u aid)
  obtain s' r where del: "delete_agent pf u aid s = (s', r)" by fastforce
  then have "rows_ok (sv_db s')"
    by (rule delete_cases) (use assms(1) in \<open>auto simp: rows_ok_def remove_agent_row_def delete_row_def\<close>)
  then show ?thesis using Delete del by simp
qed

lemma rows_ok_tick:
  assumes "db_wf (sv_db (pr_service p))" and "rows_ok (sv_db (pr_service p))"
  shows "rows_ok (sv_db (pr_service (fst (tick st pf elapsed now fault p))))"
proof -
  obtain p' r where t: "tick st pf elapsed now fault p = (p', r)" by fastforce
  let ?d = "sv_db (pr_service p)" and ?d' = "sv_db (pr_service p')"
  have r: "db_wf ?d'" "map a_id (agents ?d') = map a_id (agents ?d)" and rows:
    "\<And>a. a \<in> set (agents ?d) \<Longrightarrow> \<exists>a'. get_row a_id (a_id a) (agents ?d') = Some a' \<and> (a' = a \<or> observed_from pf a a')"
    using tick_rows [OF assms(1) t] by blast+
  have "row_ok b" if "b \<in> set (agents ?d')" for b
  proof -
    have "a_id b \<in> a_id ` set (agents ?d)" using that r(2) by (metis image_eqI set_map)
    then obtain a where "a \<in> set (agents ?d)" "a_id a = a_id b" by auto
    then show ?thesis
      using rows [of a] get_row_unique [OF db_wfD(7) [OF r(1)] that] assms(2) row_ok_observe
      by (auto simp: rows_ok_def observed_from_def)
  qed
  then show ?thesis using t by (simp add: rows_ok_def)
qed

definition process_ok :: "'r process \<Rightarrow> bool" where
  "process_ok p \<longleftrightarrow> db_wf (sv_db (pr_service p)) \<and> rows_ok (sv_db (pr_service p))"

lemma process_ok_step:
  assumes "process_ok p" and "valid_event ev"
  shows "process_ok (gw_step st pf p ev)"
proof (cases ev)
  case (Request x)
  then show ?thesis
    using assms rows_ok_request [of "pr_service p" x pf] svc_step_only [of x "pr_service p" pf]
    by (simp add: process_ok_def only_agent_def)
next
  case (Tick e now fault)
  obtain p' r where t: "tick st pf e now fault p = (p', r)" by fastforce
  have wf: "db_wf (sv_db (pr_service p))" using assms(1) by (simp add: process_ok_def)
  show ?thesis
    using assms(1) rows_ok_tick [OF wf, of st pf e now fault] tick_rows [OF wf t] t Tick
    by (simp add: process_ok_def)
qed

text \<open>Requests that are refused by validation never reach the service.\<close>

definition admitted_step :: "settings \<Rightarrow> 'r platform \<Rightarrow> 'r process \<Rightarrow> gw_event \<Rightarrow> 'r process" where
  "admitted_step st pf p ev = (if valid_event ev then gw_step st pf p ev else p)"

interpretation gw: step_invariant "admitted_step st pf" process_ok for st pf
  by unfold_locales (simp add: admitted_step_def process_ok_step)

section \<open>Properties\<close>

text \<open>
  C15: stored agents are well-typed, and can be shown exactly while they have a valid number of
  replicas. Over any interleaving of requests and scheduler ticks, every row keeps a known status,
  runtime and access and a valid deploy configuration; building its API response therefore succeeds
  if it was never configured or has between 1 and 100 replicas, and raises a validation error (an
  internal error, 500) otherwise.
\<close>

theorem agents_well_typed:
  assumes "db_wf (sv_db (pr_service p))" and "rows_ok (sv_db (pr_service p))"
    and "a \<in> set (agents (sv_db (pr_service (run_steps (admitted_step st pf) p evs))))"
  shows "row_ok a \<and> (case to_agent_response st a of
      Inr x \<Rightarrow> \<not> (has_deploy_config a \<and> (a_replicas a < 1 \<or> 100 < a_replicas a)) \<and>
        ar_id x = a_id a \<and> ar_status x = a_status a \<and> ar_replicas x = a_replicas a
    | Inl e \<Rightarrow> has_deploy_config a \<and> (a_replicas a < 1 \<or> 100 < a_replicas a) \<and>
        er_status (handle_exception rid e) = 500)"
proof -
  have "row_ok a"
    using gw.run_keeps [of p st pf evs] assms by (simp add: process_ok_def rows_ok_def)
  then show ?thesis
    using row_ok_replicas [of a]
    by (auto simp: to_agent_response_def deploy_config_stored make_deploy_config_def make_response_def row_ok_def error_defs)
qed

lemma sample_rows_ok: "rows_ok sample_db"
  by (simp add: rows_ok_def sample_db_def sample_agent_def row_ok_def AGENT_STATUSES_def RUNTIME_KINDS_def
      AGENT_ACCESS_def stored_config_def valid_deploy_def valid_resources_def env_from_storage_masked_def)

theorem agents_well_typed_witness:
  "\<exists>a. agents (sv_db (pr_service (run_steps (admitted_step default_settings sample_platform)
       \<lparr>pr_service = sample_service, pr_pending = []\<rparr>
       [Tick None 0 None, Request (Scale 1 ''agent-1'' ''up'' 1), Tick None 0 None]))) = [a] \<and>
     row_ok a \<and> is_ok (to_agent_response default_settings a)"
proof -
  let ?p = "\<lparr>pr_service = sample_service, pr_pending = []\<rparr>"
  let ?as = "agents (sv_db (pr_service (run_steps (admitted_step default_settings sample_platform) ?p
    [Tick None 0 None, Request (Scale 1 ''agent-1'' ''up'' 1), Tick None 0 None])))"
  have "db_wf (sv_db (pr_service ?p))" "rows_ok (sv_db (pr_service ?p))"
    using sample_db_wf sample_rows_ok by (simp_all add: sample_service_def)
  note typed = agents_well_typed [OF this, where st = default_settings and pf = sample_platform and
      evs = "[Tick None 0 None, Request (Scale 1 ''agent-1'' ''up'' 1), Tick None 0 None]"]
  have "map a_replicas ?as = [2]" by code_simp
  then obtain a where a: "?as = [a]" "a_replicas a = 2" by auto
  have "row_ok a \<and> is_ok (to_agent_response default_settings a)"
    using typed [of a] a by (cases "to_agent_response default_settings a") auto
  then show ?thesis using a(1) by blast
qed

text \<open>
  C36: an agent whose containers are gone cannot be shown any more. When a completed tick finds no
  live container of an active agent, the agent is stored as stopped with zero replicas, and from
  then on building its API response, and so every listing that contains it, raises a validation
  error: the response insists on at least one replica.
\<close>

theorem stopped_agents_unreadable:
  assumes "db_wf (sv_db (pr_service p))" and "tick st pf elapsed now fault p = (p', Inr ())"
    and "get_row a_id aid (agents (sv_db (pr_service p))) = Some a" and "a_status a \<in> set SCHEDULED_STATUSES"
    and "\<forall>rt. \<exists>rt' h. core_health_check (pl_runtime pf) aid rt = (rt', Inr h) \<and> live_replicas h = 0"
  shows "\<exists>a'. get_row a_id aid (agents (sv_db (pr_service p'))) = Some a' \<and> a_status a' = ''stopped'' \<and>
    a_replicas a' = 0 \<and> (\<forall>st'. to_agent_response st' a' = Inl (Unhandled ValidationError))"
proof -
  have a: "a \<in> set (agents (sv_db (pr_service p)))" "a_id a = aid" using get_row_Some [OF assms(3)] by auto
  have "\<not> health_raises pf aid"
    using assms(5) unfolding health_raises_def by (metis prod.inject sum.distinct(1))
  then obtain a' where a': "get_row a_id aid (agents (sv_db (pr_service p'))) = Some a'" "observed_from pf a a'"
    using tick_rows [OF assms(1,2)] a assms(4) by blast
  then obtain h where h: "a' = observe h a" "live_replicas h = 0"
    using assms(5) a(2) unfolding observed_from_def by (metis prod.inject sum.inject(2))
  then have "to_agent_response st' a' = Inl (Unhandled ValidationError)" for st'
    by (simp add: to_agent_response_def has_deploy_config_def deploy_config_stored make_deploy_config_def
        valid_deploy_def stored_config_def observe_def observed_status_def)
  then show ?thesis using a' h by (simp add: observe_def observed_status_def)
qed

definition dead_platform :: "sample_state platform" where
  "dead_platform = sample_platform\<lparr>pl_runtime := sample_runtime\<lparr>core_health_check :=
     (\<lambda>aid r. (r, Inr \<lparr>he_containers = Some [], he_healthy = Some False, he_consecutive_failures = Some 1\<rparr>))\<rparr>\<rparr>"

theorem stopped_agents_unreadable_witness:
  "\<exists>p' a'. tick default_settings dead_platform None 0 None \<lparr>pr_service = sample_service, pr_pending = []\<rparr> = (p', Inr ()) \<and>
     get_row a_id ''agent-1'' (agents (sv_db (pr_service p'))) = Some a' \<and> a_status a' = ''stopped''"
proof -
  let ?p = "\<lparr>pr_service = sample_service, pr_pending = []\<rparr>"
  have "is_ok (snd (tick default_settings dead_platform None 0 None ?p))" by code_simp
  then obtain p' where t: "tick default_settings dead_platform None 0 None ?p = (p', Inr ())"
    by (cases "tick default_settings dead_platform None 0 None ?p") (auto simp: is_ok_iff)
  have "db_wf (sv_db (pr_service ?p))" using sample_db_wf by (simp add: sample_service_def)
  moreover have "get_row a_id ''agent-1'' (agents (sv_db (pr_service ?p))) = Some sample_agent"
    "a_status sample_agent \<in> set SCHEDULED_STATUSES"
    by (simp_all add: sample_service_def sample_db_def get_row_Cons sample_agent_def SCHEDULED_STATUSES_def)
  moreover have "\<forall>rt. \<exists>rt' h. core_health_check (pl_runtime dead_platform) ''agent-1'' rt = (rt', Inr h) \<and> live_replicas h = 0"
    by (simp add: dead_platform_def live_replicas_def)
  ultimately show ?thesis
    using stopped_agents_unreadable [OF _ t, of "''agent-1''" sample_agent] t by blast
qed

lemma tick_keeps_scaling:
  assumes "db_wf (sv_db (pr_service p))" and "get_row a_id aid (agents (sv_db (pr_service p))) = Some a"
    and "a_status a \<in> {''scaling'', ''stopped'', ''crashed''}"
  shows "db_wf (sv_db (pr_service (fst (tick st pf elapsed now fault p))))" and "\<exists>a'. get_row a_id aid (agents (sv_db (pr_service (fst (tick st pf elapsed now fault p))))) = Some a' \<and>
    a_status a' \<in> {''scaling'', ''stopped'', ''crashed''}"
proof -
  obtain p' r where t: "tick st pf elapsed now fault p = (p', r)" by fastforce
  have a: "a \<in> set (agents (sv_db (pr_service p)))" "a_id a = aid" using get_row_Some [OF assms(2)] by auto
  have "a_status (observe h a) \<in> {''scaling'', ''stopped'', ''crashed''}" if "a_status a \<in> set SCHEDULED_STATUSES" for h
    using assms(3) that by (auto simp: observe_def observed_status_def SCHEDULED_STATUSES_def)
  then show "\<exists>a'. get_row a_id aid (agents (sv_db (pr_service (fst (tick st pf elapsed now fault p))))) = Some a' \<and>
      a_status a' \<in> {''scaling'', ''stopped'', ''crashed''}"
    using tick_rows [OF assms(1) t] a assms(3) t unfolding observed_from_def by fastforce
  show "db_wf (sv_db (pr_service (fst (tick st pf elapsed now fault p))))" using tick_rows [OF assms(1) t] t by simp
qed

lemma loop_keeps_scaling:
  assumes "db_wf (sv_db (pr_service p))" and "get_row a_id aid (agents (sv_db (pr_service p))) = Some a"
    and "a_status a \<in> {''scaling'', ''stopped'', ''crashed''}"
  shows "\<exists>a'. get_row a_id aid (agents (sv_db (pr_service (run_scheduler_loop st pf t ticks p)))) = Some a' \<and>
    a_status a' \<in> {''scaling'', ''stopped'', ''crashed''}"
  using assms
proof (induction ticks arbitrary: t p a)
  case (Cons x ticks)
  obtain started now fault where x: "x = (started, now, fault)" by (metis prod.exhaust)
  obtain a' where a': "get_row a_id aid (agents (sv_db (pr_service
        (fst (tick st pf (elapsed_since st t started) now fault p))))) = Some a'"
      "a_status a' \<in> {''scaling'', ''stopped'', ''crashed''}"
    using tick_keeps_scaling(2) [OF Cons.prems] by blast
  show ?case
    unfolding x run_scheduler_loop.simps by (rule Cons.IH [OF tick_keeps_scaling(1) [OF Cons.prems] a'])
qed simp

text \<open>
  An agent can be stuck while scaling. When the runtime fails to scale with an exception other
  than its scaling and container errors, the request fails but the agent stays stored as scaling,
  and no number of scheduler ticks, however healthy the agent is, makes it running again (a new
  deployment or scaling request does).
\<close>

theorem scaling_can_stick:
  assumes "db_wf (sv_db s)" and "get_owned u aid (sv_db s) = Inr ag"
    and "core_scale (pl_runtime pf) aid ''down'' n (sv_rt s) = (rt', Inl x)" and "\<not> scaling_error (Unhandled x)"
    and "scale_agent pf u aid ''down'' n s = (s', r)"
  shows "r = Inl (Unhandled x) \<and> (\<exists>a'. get_row a_id aid (agents (sv_db (pr_service
      (run_scheduler_loop st pf t ticks \<lparr>pr_service = s', pr_pending = c\<rparr>)))) = Some a' \<and>
    a_status a' \<in> {''scaling'', ''stopped'', ''crashed''})"
proof -
  have o: "a_id ag = aid" "get_row a_id aid (agents (sv_db s)) = Some ag"
    using assms(1,2) get_owned_ok [OF assms(2)] by (auto simp: get_owned_wf split: option.split_asm if_split_asm)
  have "rt_scale_agent pf aid ''down'' n (sv_rt s) = (rt', Inl (Unhandled x))"
    using assms(3) by (simp add: rt_scale_agent_def from_core_def)
  then have r: "r = Inl (Unhandled x)" "sv_db s' = set_agent aid (set_status ''scaling'') (sv_db s)"
    using assms(2,4,5) o(1) by (auto simp: scale_agent_def)
  have "db_wf (sv_db s')" "get_row a_id aid (agents (sv_db s')) = Some (set_status ''scaling'' ag)"
    using assms(1) o(2) by (simp_all add: r(2) set_agent_wf get_row_update)
  then show ?thesis
    using r(1) loop_keeps_scaling [of "\<lparr>pr_service = s', pr_pending = c\<rparr>" aid "set_status ''scaling'' ag" st pf t ticks]
    by (simp add: set_status_def)
qed

theorem scaling_can_stick_witness:
  "snd (scale_agent (sample_platform\<lparr>pl_runtime := sample_runtime\<lparr>core_scale :=
      (\<lambda>aid dir n r. (r, Inl (OtherException ''docker'')))\<rparr>\<rparr>) 1 ''agent-1'' ''down'' 1 sample_service) =
     Inl (Unhandled (OtherException ''docker''))"
  (is "snd (scale_agent ?pf _ _ _ _ _) = _")
proof -
  obtain s' r where sc: "scale_agent ?pf 1 ''agent-1'' ''down'' 1 sample_service = (s', r)" by fastforce
  have "db_wf (sv_db sample_service)" "get_owned 1 ''agent-1'' (sv_db sample_service) = Inr sample_agent"
    using sample_db_wf sample_owned by (simp_all add: sample_service_def)
  then show ?thesis
    using scaling_can_stick [OF _ _ _ _ sc, of sample_agent _ "OtherException ''docker''"] sc
    by (simp add: sample_service_def)
qed

end
