(* ===== verification/Login_Limit.thy ===== *)
theory Login_Limit
  imports Credentials
begin

text \<open>
  The rate limit of the login and registration routes (\<open>security/rate_limit.py\<close>). Redis is a
  parameter: a store of any type with the three commands the code sends, each of which may fail. What
  the code relies on, Redis' documented meaning of INCR, EXPIRE and TTL, is the hypothesis
  \<open>redis_law\<close>, stated through the entries of the store: a value and the time it expires at, if any.
\<close>

section \<open>Redis\<close>

text \<open>Each command gets the time it runs at; \<open>None\<close> stands for a \<open>RedisError\<close>.\<close>

record 'k redis =
  redis_incr :: "string \<Rightarrow> rat \<Rightarrow> 'k \<Rightarrow> 'k \<times> int option"
  redis_expire :: "string \<Rightarrow> int \<Rightarrow> rat \<Rightarrow> 'k \<Rightarrow> 'k \<times> bool option"
  redis_ttl :: "string \<Rightarrow> rat \<Rightarrow> 'k \<Rightarrow> int option"

type_synonym entry = "int \<times> rat option"

definition live_entry :: "rat \<Rightarrow> entry option \<Rightarrow> entry option" where
  "live_entry t e = (case e of None \<Rightarrow> None
     | Some (v, None) \<Rightarrow> Some (v, None)
     | Some (v, Some x) \<Rightarrow> if x \<le> t then None else Some (v, Some x))"

definition incremented :: "entry option \<Rightarrow> entry" where
  "incremented e = (case e of None \<Rightarrow> (1, None) | Some (v, x) \<Rightarrow> (v + 1, x))"

definition redis_law :: "'k redis \<Rightarrow> ('k \<Rightarrow> string \<Rightarrow> entry option) \<Rightarrow> bool" where
  "redis_law rd entries \<longleftrightarrow>
     (\<forall>key t k k' c. redis_incr rd key t k = (k', Some c) \<longrightarrow>
        entries k' = (entries k)(key \<mapsto> incremented (live_entry t (entries k key))) \<and>
        c = fst (incremented (live_entry t (entries k key)))) \<and>
     (\<forall>key secs t k k' b. redis_expire rd key secs t k = (k', Some b) \<longrightarrow>
        entries k' = (case live_entry t (entries k key) of None \<Rightarrow> entries k
          | Some (v, _) \<Rightarrow> (entries k)(key \<mapsto> (v, Some (t + of_int secs))))) \<and>
     (\<forall>key secs t k k'. redis_expire rd key secs t k = (k', None) \<longrightarrow> entries k' = entries k) \<and>
     (\<forall>key t k n v. redis_ttl rd key t k = Some n \<and> entries k key = Some (v, None) \<longrightarrow> n = -1)"

section \<open>The limit\<close>

definition enforce :: "settings \<Rightarrow> 'k redis \<Rightarrow> string \<Rightarrow> rat \<Rightarrow> 'k \<Rightarrow> 'k \<times> unit result" where
  "enforce st rd key t k =
     (if \<not> truthy (redis_url st) then (k, Inr ())
      else case redis_incr rd key t k of
          (k1, None) \<Rightarrow> (k1, Inr ())
        | (k1, Some count) \<Rightarrow>
            (case (if count = 1 then redis_expire rd key (login_rate_limit_window_seconds st) t k1
                   else (k1, Some True)) of
               (k2, None) \<Rightarrow> (k2, Inr ())
             | (k2, Some _) \<Rightarrow>
                 if count > login_rate_limit_max_attempts st
                 then (case redis_ttl rd key t k2 of
                         None \<Rightarrow> (k2, Inr ())
                       | Some ttl \<Rightarrow> (k2, Inl (RateLimitExceededError (max ttl 1))))
                 else (k2, Inr ())))"

definition rate_limit_key :: "string option \<Rightarrow> string" where
  "rate_limit_key client = ''ratelimit:login:'' @ (case client of None \<Rightarrow> ''unknown'' | Some host \<Rightarrow> host)"

definition enforce_login_rate_limit ::
  "settings \<Rightarrow> 'k redis \<Rightarrow> string option \<Rightarrow> rat \<Rightarrow> 'k \<Rightarrow> 'k \<times> unit result" where
  "enforce_login_rate_limit st rd client t k = enforce st rd (rate_limit_key client) t k"

text \<open>Attempts of one client at the given times: which are let through.\<close>

fun attempts :: "settings \<Rightarrow> 'k redis \<Rightarrow> string option \<Rightarrow> rat list \<Rightarrow> 'k \<Rightarrow> unit result list" where
  "attempts st rd client [] k = []"
| "attempts st rd client (t # ts) k =
     (let (k', r) = enforce_login_rate_limit st rd client t k in r # attempts st rd client ts k')"

text \<open>Login and registration behind the limit (routers/auth.py).\<close>

definition limited_login ::
  "settings \<Rightarrow> crypto \<Rightarrow> core_auth \<Rightarrow> 'k redis \<Rightarrow> string option \<Rightarrow> rat \<Rightarrow> timestamp \<Rightarrow> uuid \<Rightarrow> string \<Rightarrow> string \<Rightarrow> db \<Rightarrow> 'k \<Rightarrow>
   'k \<times> (string \<times> int \<times> UserOut) result" where
  "limited_login st cr ca rd client t now jti email password d k =
     (let (k', r) = enforce_login_rate_limit st rd client t k in
      (k', bind_result r (\<lambda>_. login st cr ca now jti email password d)))"

definition limited_register ::
  "settings \<Rightarrow> crypto \<Rightarrow> core_auth \<Rightarrow> 'k redis \<Rightarrow> string option \<Rightarrow> rat \<Rightarrow> drawn \<Rightarrow> uuid \<Rightarrow> signup \<Rightarrow> db \<Rightarrow> 'k \<Rightarrow>
   'k \<times> db \<times> (string \<times> int \<times> UserOut) result" where
  "limited_register st cr ca rd client t dr jti su d k =
     (case enforce_login_rate_limit st rd client t k of
        (k', Inl e) \<Rightarrow> (k', d, Inl e)
      | (k', Inr _) \<Rightarrow> (k', register st cr ca dr jti su d))"

definition healthy :: "'k redis \<Rightarrow> bool" where
  "healthy rd \<longleftrightarrow> (\<forall>key t k. snd (redis_incr rd key t k) \<noteq> None) \<and>
     (\<forall>key secs t k. snd (redis_expire rd key secs t k) \<noteq> None) \<and> (\<forall>key t k. redis_ttl rd key t k \<noteq> None)"

section \<open>An example store\<close>

definition sample_redis :: "(string \<Rightarrow> entry option) redis" where
  "sample_redis = \<lparr>
     redis_incr = (\<lambda>key t k. let e = incremented (live_entry t (k key)) in (k(key \<mapsto> e), Some (fst e))),
     redis_expire = (\<lambda>key secs t k. case live_entry t (k key) of
         None \<Rightarrow> (k, Some False) | Some (v, _) \<Rightarrow> (k(key \<mapsto> (v, Some (t + of_int secs))), Some True)),
     redis_ttl = (\<lambda>key t k. Some (case live_entry t (k key) of
         None \<Rightarrow> -2 | Some (_, None) \<Rightarrow> -1 | Some (_, Some x) \<Rightarrow> floor (x - t)))\<rparr>"

lemma sample_redis_law: "redis_law sample_redis (\<lambda>k. k)" "healthy sample_redis"
  by (auto simp: redis_law_def healthy_def sample_redis_def Let_def live_entry_def split: option.splits prod.splits if_splits)

section \<open>Lemmas\<close>

lemma redis_lawD:
  assumes "redis_law rd entries"
  shows "redis_incr rd key t k = (k', Some c) \<Longrightarrow>
      entries k' = (entries k)(key \<mapsto> incremented (live_entry t (entries k key))) \<and>
      c = fst (incremented (live_entry t (entries k key)))"
    and "redis_expire rd key secs t k = (k', Some b) \<Longrightarrow>
      entries k' = (case live_entry t (entries k key) of None \<Rightarrow> entries k
          | Some (v, _) \<Rightarrow> (entries k)(key \<mapsto> (v, Some (t + of_int secs))))"
    and "redis_expire rd key secs t k = (k', None) \<Longrightarrow> entries k' = entries k"
    and "redis_ttl rd key t k = Some n \<Longrightarrow> entries k key = Some (v, None) \<Longrightarrow> n = -1"
  using assms by (simp_all add: redis_law_def) blast

lemma incr_effect:
  assumes "redis_law rd entries" and "healthy rd"
  obtains k' where "redis_incr rd key t k = (k', Some (fst (incremented (live_entry t (entries k key)))))"
    "entries k' key = Some (incremented (live_entry t (entries k key)))"
proof -
  obtain k' x where x: "redis_incr rd key t k = (k', x)" by fastforce
  moreover have "snd (redis_incr rd key t k) \<noteq> None" using assms(2) by (simp add: healthy_def)
  ultimately obtain c where c: "redis_incr rd key t k = (k', Some c)" by (cases x) auto
  have "entries k' = (entries k)(key \<mapsto> incremented (live_entry t (entries k key))) \<and>
      c = fst (incremented (live_entry t (entries k key)))"
    by (rule redis_lawD(1) [OF assms(1) c])
  then show ?thesis using that c by simp
qed

lemma attempt_counts:
  assumes "redis_law rd entries" and "healthy rd" and "truthy (redis_url st)"
    and "entries k key = Some (v, x)" and "1 \<le> v" and "case x of None \<Rightarrow> True | Some e \<Rightarrow> t < e"
  shows "\<exists>k' r. enforce st rd key t k = (k', r) \<and> entries k' key = Some (v + 1, x) \<and>
    (if v + 1 \<le> login_rate_limit_max_attempts st then r = Inr ()
     else \<exists>n \<ge> 1. r = Inl (RateLimitExceededError n) \<and> (x = None \<longrightarrow> n = 1))"
proof -
  have live: "live_entry t (entries k key) = Some (v, x)"
    using assms(4,6) by (auto simp: live_entry_def split: option.split)
  obtain k' where i: "redis_incr rd key t k = (k', Some (v + 1))" "entries k' key = Some (v + 1, x)"
    using incr_effect [OF assms(1,2), of key t k] by (auto simp: live incremented_def)
  obtain n where n: "redis_ttl rd key t k' = Some n"
    using assms(2) unfolding healthy_def by fast
  moreover have "x = None \<Longrightarrow> n = -1"
    using redis_lawD(4) [OF assms(1) n] i(2) by blast
  ultimately show ?thesis
    using i assms(3,5) by (auto simp: enforce_def)
qed

lemma attempts_from:
  assumes "redis_law rd entries" and "healthy rd" and "truthy (redis_url st)"
    and "entries k (rate_limit_key client) = Some (int i, x)" and "1 \<le> i"
    and "\<forall>t \<in> set ts. case x of None \<Rightarrow> True | Some e \<Rightarrow> t < e"
  shows "map is_ok (attempts st rd client ts k) =
    map (\<lambda>j. int j < login_rate_limit_max_attempts st) [i..<i + length ts]"
  using assms(4-6)
proof (induction ts arbitrary: i k)
  case (Cons t ts)
  obtain k' r where e: "enforce st rd (rate_limit_key client) t k = (k', r)"
    "entries k' (rate_limit_key client) = Some (int (Suc i), x)"
    "is_ok r \<longleftrightarrow> int i < login_rate_limit_max_attempts st"
    using attempt_counts [OF assms(1-3) Cons.prems(1), of t] Cons.prems(2,3) by (fastforce split: if_split_asm)
  have "map is_ok (attempts st rd client ts k') =
      map (\<lambda>j. int j < login_rate_limit_max_attempts st) [Suc i..<Suc i + length ts]"
    by (rule Cons.IH [OF e(2)]) (use Cons.prems(3) in auto)
  moreover have "[i..<i + length (t # ts)] = i # [Suc i..<Suc i + length ts]"
    by (simp add: upt_conv_Cons del: upt_Suc)
  ultimately show ?case
    using e(1,3) by (simp add: enforce_login_rate_limit_def del: upt_Suc)
qed simp

lemma unconfigured_open:
  "\<not> truthy (redis_url st) \<Longrightarrow> enforce_login_rate_limit st rd client t k = (k, Inr ())"
  by (simp add: enforce_login_rate_limit_def enforce_def)

lemma attempts_open:
  "(\<And>t k. snd (enforce_login_rate_limit st rd client t k) = Inr ()) \<Longrightarrow>
   attempts st rd client ts k = replicate (length ts) (Inr ())"
  by (induction ts arbitrary: k) (simp_all add: case_prod_beta)

section \<open>Properties\<close>

text \<open>
  C29: the login limit is exact. With Redis configured and up, of the attempts of one client address
  within a window (whatever their results) exactly the first \<open>login_rate_limit_max_attempts\<close> are let
  through. With Redis down, under any settings, every attempt is; and with settings that configure no
  Redis every attempt is as well, and the state of whatever Redis there may be is left alone.
\<close>

theorem login_limit_exact:
  assumes "redis_law rd entries" and "healthy rd" and "truthy (redis_url st)"
    and "live_entry t0 (entries k (rate_limit_key client)) = None"
    and "\<forall>t \<in> set ts. t < t0 + of_int (login_rate_limit_window_seconds st)"
    and "0 < login_rate_limit_window_seconds st"
    and "\<forall>key t k. snd (redis_incr down key t k) = None"
  shows "map is_ok (attempts st rd client (t0 # ts) k) =
      map (\<lambda>i. int i < login_rate_limit_max_attempts st) [0..<Suc (length ts)] \<and>
    (\<forall>st' ts' k'. attempts st' down client ts' k' = replicate (length ts') (Inr ())) \<and>
    (\<forall>st' rd' ts' k'. \<not> truthy (redis_url st') \<longrightarrow>
      attempts st' rd' client ts' k' = replicate (length ts') (Inr ()) \<and>
      (\<forall>t. enforce_login_rate_limit st' rd' client t k' = (k', Inr ())))"
proof (intro conjI)
  let ?key = "rate_limit_key client" and ?e = "t0 + of_int (login_rate_limit_window_seconds st)"
  obtain k1 where i: "redis_incr rd ?key t0 k = (k1, Some 1)" "entries k1 ?key = Some (1, None)"
    using incr_effect [OF assms(1,2), of ?key t0 k] by (auto simp: assms(4) incremented_def)
  obtain k2 b where x: "redis_expire rd ?key (login_rate_limit_window_seconds st) t0 k1 = (k2, Some b)"
    using assms(2) unfolding healthy_def by (metis option.exhaust surj_pair snd_conv)
  have k2: "entries k2 ?key = Some (1, Some ?e)"
    using redis_lawD(2) [OF assms(1) x] i(2) by (simp add: live_entry_def)
  obtain k3 r where e: "enforce st rd ?key t0 k = (k3, r)" by fastforce
  have e1: "k3 = k2" "is_ok r \<longleftrightarrow> 0 < login_rate_limit_max_attempts st"
  proof -
    obtain n where "redis_ttl rd ?key t0 k2 = Some n" using assms(2) unfolding healthy_def by fast
    then show "k3 = k2" "is_ok r \<longleftrightarrow> 0 < login_rate_limit_max_attempts st"
      using e i(1) x assms(3) by (auto simp: enforce_def split: if_split_asm)
  qed
  have "map is_ok (attempts st rd client ts k2) =
      map (\<lambda>j. int j < login_rate_limit_max_attempts st) [1..<1 + length ts]"
    by (rule attempts_from [OF assms(1-3)]) (use k2 assms(5) in auto)
  moreover have "[0..<Suc (length ts)] = 0 # [1..<1 + length ts]"
    by (simp add: upt_conv_Cons del: upt_Suc)
  ultimately show "map is_ok (attempts st rd client (t0 # ts) k) =
      map (\<lambda>i. int i < login_rate_limit_max_attempts st) [0..<Suc (length ts)]"
    using e e1 by (simp add: enforce_login_rate_limit_def del: upt_Suc)
  have "snd (enforce_login_rate_limit st' down client t k') = Inr ()" for st' t k'
  proof -
    obtain k1 where "redis_incr down ?key t k' = (k1, None)" using assms(7) by (metis prod.collapse)
    then show ?thesis by (simp add: enforce_login_rate_limit_def enforce_def)
  qed
  then show "\<forall>st' ts' k'. attempts st' down client ts' k' = replicate (length ts') (Inr ())"
    by (simp add: attempts_open)
  show "\<forall>st' rd' ts' k'. \<not> truthy (redis_url st') \<longrightarrow>
      attempts st' rd' client ts' k' = replicate (length ts') (Inr ()) \<and>
      (\<forall>t. enforce_login_rate_limit st' rd' client t k' = (k', Inr ()))"
    by (intro allI impI conjI attempts_open) (simp_all add: unconfigured_open)
qed

theorem login_limit_exact_witness:
  "map is_ok (attempts (default_settings\<lparr>redis_url := Some ''r'', login_rate_limit_max_attempts := 2\<rparr>) sample_redis
     (Some ''h'') [0, 1, 2] (\<lambda>_. None)) = [True, True, False] \<and>
   attempts (default_settings\<lparr>redis_url := None\<rparr>) sample_redis (Some ''h'') [0, 1, 2] (\<lambda>_. None) =
     [Inr (), Inr (), Inr ()]"
proof -
  let ?st = "default_settings\<lparr>redis_url := Some ''r'', login_rate_limit_max_attempts := 2\<rparr>"
  let ?down = "sample_redis\<lparr>redis_incr := (\<lambda>key t k. (k, None))\<rparr>"
  note all = login_limit_exact [OF sample_redis_law, of ?st 0 "\<lambda>_. None" "Some ''h''" "[1, 2]" ?down]
  have "map is_ok (attempts ?st sample_redis (Some ''h'') (0 # [1, 2]) (\<lambda>_. None)) =
      map (\<lambda>i. int i < login_rate_limit_max_attempts ?st) [0..<Suc (length [1, 2 :: rat])]"
    by (rule all [THEN conjunct1]) (simp_all add: truthy_def live_entry_def default_settings_def)
  moreover have "attempts (default_settings\<lparr>redis_url := None\<rparr>) sample_redis (Some ''h'') [0, 1, 2] (\<lambda>_. None) =
      replicate (length [0, 1, 2 :: rat]) (Inr ())"
    by (rule all [THEN conjunct2, THEN conjunct2, rule_format, THEN conjunct1])
      (auto simp: truthy_def live_entry_def default_settings_def)
  ultimately show ?thesis
    by (simp add: upt_rec del: attempts.simps)
qed

text \<open>
  C38: an outage at the wrong moment locks a client out for good. When Redis counts a client's first
  attempt but fails to set the expiry, that attempt is let through, but the counter never expires:
  from then on only the first \<open>login_rate_limit_max_attempts\<close> attempts, however far apart in time,
  are let through, and every later one is refused.
\<close>

theorem lost_expiry_locks_out:
  assumes "redis_law rd entries" and "healthy rd" and "truthy (redis_url st)"
    and "redis_law flaky entries" and "\<forall>key t k. snd (redis_incr flaky key t k) \<noteq> None"
    and "\<forall>key secs t k. snd (redis_expire flaky key secs t k) = None"
    and "live_entry t0 (entries k (rate_limit_key client)) = None"
    and "enforce_login_rate_limit st flaky client t0 k = (k1, r)"
  shows "r = Inr () \<and> map is_ok (attempts st rd client ts k1) =
    map (\<lambda>i. int i < login_rate_limit_max_attempts st) [1..<1 + length ts]"
proof -
  let ?key = "rate_limit_key client"
  obtain ka c where "redis_incr flaky ?key t0 k = (ka, Some c)"
    using assms(5) by (metis option.exhaust surj_pair snd_conv)
  with redis_lawD(1) [OF assms(4) this] assms(7)
  have i: "redis_incr flaky ?key t0 k = (ka, Some 1)" "entries ka ?key = Some (1, None)"
    by (auto simp: incremented_def)
  obtain kb where x: "redis_expire flaky ?key (login_rate_limit_window_seconds st) t0 ka = (kb, None)"
    using assms(6) by (metis prod.collapse)
  have "entries kb ?key = Some (int 1, None)" using redis_lawD(3) [OF assms(4) x] i(2) by simp
  moreover have "k1 = kb" "r = Inr ()"
    using assms(3,8) i(1) x by (auto simp: enforce_login_rate_limit_def enforce_def)
  ultimately show ?thesis
    using attempts_from [OF assms(1-3), of k1 client 1 None ts] by simp
qed

theorem lost_expiry_locks_out_witness:
  "\<exists>k1. snd (enforce_login_rate_limit (default_settings\<lparr>redis_url := Some ''r'', login_rate_limit_max_attempts := 2\<rparr>)
       (sample_redis\<lparr>redis_expire := (\<lambda>key secs t k. (k, None))\<rparr>) (Some ''h'') 0 (\<lambda>_. None)) = Inr () \<and>
     map is_ok (attempts (default_settings\<lparr>redis_url := Some ''r'', login_rate_limit_max_attempts := 2\<rparr>)
       sample_redis (Some ''h'') [1, 1000000] k1) = [True, False]"
proof -
  let ?st = "default_settings\<lparr>redis_url := Some ''r'', login_rate_limit_max_attempts := 2\<rparr>"
  let ?fl = "sample_redis\<lparr>redis_expire := (\<lambda>key secs t k. (k, None))\<rparr>"
  obtain k1 r where e: "enforce_login_rate_limit ?st ?fl (Some ''h'') 0 (\<lambda>_. None) = (k1, r)" by fastforce
  have law: "redis_law ?fl (\<lambda>k. k)" using sample_redis_law(1) by (simp add: redis_law_def)
  have inc: "\<forall>key t k. snd (redis_incr ?fl key t k) \<noteq> None" "\<forall>key secs t k. snd (redis_expire ?fl key secs t k) = None"
    by (simp_all add: sample_redis_def Let_def)
  show ?thesis
    using lost_expiry_locks_out [OF sample_redis_law _ law inc _ e, of "[1, 1000000]"] e
    by (intro exI [of _ k1]) (simp add: truthy_def live_entry_def upt_rec del: attempts.simps)
qed

end
