(* ===== verification/Request_Context.thy ===== *)
theory Request_Context
  imports Gateway_Config
begin

text \<open>
  What surrounds every request: the middleware of \<open>observability.py\<close> that assigns the request id,
  echoes it and writes one access log line, the set-up of structlog, the handler of validation errors
  (\<open>error_handlers.py\<close>), the probes of \<open>routers/health.py\<close> and the set-up of error reporting in
  \<open>main.py\<close>. The wrapped application is a parameter: what it sends, and whether it raises in the end.
\<close>

section \<open>Request ids\<close>

definition REQUEST_ID_HEADER :: string where
  "REQUEST_ID_HEADER = ''x-request-id''"

definition id_char :: "char \<Rightarrow> bool" where
  "id_char c = (let n = code_point c in
     65 \<le> n \<and> n \<le> 90 \<or> (97 \<le> n \<and> n \<le> 122) \<or> (48 \<le> n \<and> n \<le> 57) \<or> c \<in> {CHR ''.'', CHR ''_'', CHR ''-''})"

text \<open>
  \<open>^[A-Za-z0-9._-]{1,64}$\<close>; in Python \<open>$\<close> also matches before a newline that ends the text.
\<close>

definition valid_request_id :: "string \<Rightarrow> bool" where
  "valid_request_id s =
     (let body = (if s \<noteq> [] \<and> last s = CHR 0x0A then butlast s else s) in
      1 \<le> length body \<and> length body \<le> 64 \<and> list_all id_char body)"

record scope =
  http_type :: string
  http_headers :: "(string \<times> string) list"
  http_method :: string
  http_path :: string

definition request_id_for :: "uuid \<Rightarrow> scope \<Rightarrow> string" where
  "request_id_for drawn sc = (case map_of (http_headers sc) REQUEST_ID_HEADER of
     Some candidate \<Rightarrow> if valid_request_id candidate then candidate else hex_digits 32 (unat drawn)
   | None \<Rightarrow> hex_digits 32 (unat drawn))"

section \<open>The middleware\<close>

definition QUIET_PATHS :: "string list" where
  "QUIET_PATHS = [''/healthz'', ''/readyz'', ''/metrics'']"

datatype message =
    ResponseStart int "(string \<times> string) list"
  | OtherMessage string

fun send_with_id :: "string \<Rightarrow> int \<Rightarrow> message \<Rightarrow> int \<times> message" where
  "send_with_id request_id status (ResponseStart code headers) =
     (code, ResponseStart code
        (filter (\<lambda>h. fst h \<noteq> REQUEST_ID_HEADER) headers @ [(REQUEST_ID_HEADER, request_id)]))"
| "send_with_id request_id status m = (status, m)"

fun send_all :: "string \<Rightarrow> int \<Rightarrow> message list \<Rightarrow> int \<times> message list" where
  "send_all request_id status [] = (status, [])"
| "send_all request_id status (m # ms) =
     (let (status1, m') = send_with_id request_id status m;
          (status2, ms') = send_all request_id status1 ms
      in (status2, m' # ms'))"

record access_line =
  lo_method :: string
  lo_path :: string
  lo_status :: int
  lo_duration_ms :: rat

text \<open>
  Sent messages, the exception that goes on, and the access log line, with the time since \<open>started\<close>
  (\<open>time.perf_counter\<close>, seconds).
\<close>

definition middleware ::
  "uuid \<Rightarrow> rat \<Rightarrow> rat \<Rightarrow> (scope \<Rightarrow> string option \<Rightarrow> message list \<times> gw_error option) \<Rightarrow> scope \<Rightarrow>
   message list \<times> gw_error option \<times> access_line option" where
  "middleware drawn started ended app sc =
     (if http_type sc \<noteq> ''http'' then (let (ms, x) = app sc None in (ms, x, None))
      else
        let request_id = request_id_for drawn sc;
            (ms, x) = app sc (Some request_id);
            (status, out) = send_all request_id 500 ms
        in (out, x, if http_path sc \<in> set QUIET_PATHS then None
              else Some \<lparr>lo_method = http_method sc, lo_path = http_path sc, lo_status = status,
                lo_duration_ms = py_round 1 ((ended - started) * 1000)\<rparr>))"

section \<open>Logging\<close>

definition upper_char :: "char \<Rightarrow> char" where
  "upper_char c = (let n = code_point c in if 97 \<le> n \<and> n \<le> 122 then char_of (n - 32) else c)"

text \<open>\<open>logging.getLevelNamesMapping()\<close> of the standard library.\<close>

definition LEVEL_NAMES :: "(string \<times> int) list" where
  "LEVEL_NAMES = [(''CRITICAL'', 50), (''FATAL'', 50), (''ERROR'', 40), (''WARN'', 30), (''WARNING'', 30),
     (''INFO'', 20), (''DEBUG'', 10), (''NOTSET'', 0)]"

datatype log_renderer = JSONRenderer | ConsoleRenderer

datatype log_processor =
    MergeContextvars | AddLogLevel | TimeStamper string bool | StackInfoRenderer | FormatExcInfo | Passthrough
  | Render log_renderer

record log_config =
  lc_level :: int
  lc_processors :: "log_processor list"
  lc_cache_logger_on_first_use :: bool
  lc_format :: string

definition configure_logging :: "settings \<Rightarrow> log_config" where
  "configure_logging st =
     (let level = (case map_of LEVEL_NAMES (map upper_char (log_level st)) of Some n \<Rightarrow> n | None \<Rightarrow> 20);
          production = (environment st = ''production'');
          renderer = (if production then JSONRenderer else ConsoleRenderer)
      in \<lparr>lc_level = level,
          lc_processors = [MergeContextvars, AddLogLevel, TimeStamper ''iso'' True, StackInfoRenderer,
            if production then FormatExcInfo else Passthrough, Render renderer],
          lc_cache_logger_on_first_use = False,
          lc_format = ''%(levelname)s %(name)s %(message)s''\<rparr>)"

section \<open>Validation errors, probes, error reporting\<close>

text \<open>An error as pydantic reports it; a missing key is \<open>None\<close>.\<close>

record 'v field_error =
  fe_loc :: "'v list option"
  fe_msg :: "string option"
  fe_type :: "string option"
  fe_ctx :: "'v option"
  fe_input :: "'v option"

record 'v validation_response =
  vr_status :: int
  vr_code :: string
  vr_errors :: "('v list \<times> string \<times> string) list"

definition validation_error_handler :: "'v field_error list \<Rightarrow> 'v validation_response" where
  "validation_error_handler errs = \<lparr>vr_status = 422, vr_code = ''VALIDATION_ERROR'',
     vr_errors = map (\<lambda>e. (case fe_loc e of None \<Rightarrow> [] | Some l \<Rightarrow> l,
       case fe_msg e of None \<Rightarrow> [] | Some m \<Rightarrow> m, case fe_type e of None \<Rightarrow> [] | Some t \<Rightarrow> t)) errs\<rparr>"

definition healthz :: string where
  "healthz = ''ok''"

definition readyz :: "py_exception option \<Rightarrow> int \<times> string" where
  "readyz fault = (case fault of None \<Rightarrow> (200, ''ready'') | Some _ \<Rightarrow> (503, ''unavailable''))"

record sentry_options =
  sn_dsn :: string
  sn_environment :: string
  sn_traces_sample_rate :: rat
  sn_send_default_pii :: bool
  sn_max_request_body_size :: string

definition init_error_reporting :: "settings \<Rightarrow> sentry_options option" where
  "init_error_reporting st = (if \<not> truthy (sentry_dsn st) then None
     else Some \<lparr>sn_dsn = the (sentry_dsn st), sn_environment = environment st,
       sn_traces_sample_rate = sentry_traces_sample_rate st, sn_send_default_pii = False,
       sn_max_request_body_size = ''never''\<rparr>)"

text \<open>The scrape endpoint passes on what the core's registry exports.\<close>

definition metrics :: "string \<Rightarrow> string \<Rightarrow> string \<times> string" where
  "metrics content_type_latest exported = (content_type_latest, exported)"

section \<open>Lemmas\<close>

text \<open>Whatever the setting says, the level is one of the library's (INFO for an unknown name).\<close>

lemma logging_level:
  "lc_level (configure_logging st) \<in> snd ` set LEVEL_NAMES"
proof -
  have "(case map_of LEVEL_NAMES l of Some n \<Rightarrow> n | None \<Rightarrow> 20) \<in> snd ` set LEVEL_NAMES" for l
    by (auto simp: LEVEL_NAMES_def dest: map_of_SomeD split: option.split)
  then show ?thesis by (simp add: configure_logging_def Let_def)
qed

fun response_starts :: "message list \<Rightarrow> (int \<times> (string \<times> string) list) list" where
  "response_starts [] = []"
| "response_starts (ResponseStart c hs # ms) = (c, hs) # response_starts ms"
| "response_starts (OtherMessage _ # ms) = response_starts ms"

lemma send_all_starts:
  "response_starts (snd (send_all rid status ms)) =
     map (\<lambda>(c, hs). (c, filter (\<lambda>h. fst h \<noteq> REQUEST_ID_HEADER) hs @ [(REQUEST_ID_HEADER, rid)])) (response_starts ms)"
  "fst (send_all rid status ms) = last (status # map fst (response_starts ms))"
  by (induction ms arbitrary: status rule: response_starts.induct) (simp_all add: case_prod_beta)

lemma hex_id_chars: "c \<in> set (hex_digits k n) \<Longrightarrow> id_char c"
proof -
  assume "c \<in> set (hex_digits k n)"
  then obtain m where "m < 16" "c = hex_digit m" using set_hex_digits by fastforce
  then show ?thesis by (auto simp: id_char_def code_point_hex_digit Let_def)
qed

lemma request_id_valid: "valid_request_id (request_id_for drawn sc)"
proof -
  let ?h = "hex_digits 32 (unat drawn)"
  have "list_all id_char ?h" using hex_id_chars by (auto simp: list_all_iff)
  moreover have "last ?h \<noteq> CHR 0x0A"
  proof -
    have "last ?h \<in> set ?h" by (metis last_in_set length_hex_digits list.size(3) zero_neq_numeral)
    then show ?thesis using hex_id_chars [of "last ?h" 32 "unat drawn"] by (auto simp: id_char_def code_point_def)
  qed
  ultimately have "valid_request_id ?h" by (simp add: valid_request_id_def Let_def)
  then show ?thesis by (simp add: request_id_for_def split: option.split)
qed

text \<open>Ids and the choice among headers, said without the regular expression and the loop.\<close>

lemma id_char_iff:
  "id_char c \<longleftrightarrow> c \<in> set ''ABCDEFGHIJKLMNOPQRSTUVWXYZabcdefghijklmnopqrstuvwxyz0123456789._-''"
proof -
  let ?cs = "''ABCDEFGHIJKLMNOPQRSTUVWXYZabcdefghijklmnopqrstuvwxyz0123456789._-''"
  have "map of_char ?cs = [65..<91] @ [97..<123] @ [48..<58] @ [46, 95, 45 :: nat]"
    by (simp add: upt_rec)
  then have codes: "of_char c \<in> set (map of_char ?cs :: nat list) \<longleftrightarrow>
      of_char c \<in> set ([65..<91] @ [97..<123] @ [48..<58] @ [46, 95, 45 :: nat])" by (simp only:)
  have chars: "of_char c \<in> set (map of_char ?cs :: nat list) \<longleftrightarrow> c \<in> set ?cs"
    unfolding set_map using inj_image_mem_iff [OF inj_of_char] by blast
  have dots: "of_char c = (46 :: nat) \<longleftrightarrow> c = CHR ''.''" "of_char c = (95 :: nat) \<longleftrightarrow> c = CHR ''_''"
    "of_char c = (45 :: nat) \<longleftrightarrow> c = CHR ''-''"
    using of_char_eq_iff [of c "CHR ''.''", where 'a = nat] of_char_eq_iff [of c "CHR ''_''", where 'a = nat]
      of_char_eq_iff [of c "CHR ''-''", where 'a = nat] by simp_all
  have "id_char c \<longleftrightarrow> of_char c \<in> set ([65..<91] @ [97..<123] @ [48..<58] @ [46, 95, 45 :: nat])"
    unfolding set_append set_upt Un_iff atLeastLessThan_iff id_char_def code_point_def Let_def
    by (simp add: dots) linarith
  then show ?thesis unfolding codes [symmetric] chars .
qed

lemma valid_request_id_iff: "valid_request_id s \<longleftrightarrow> (\<exists>body. (s = body \<or> s = body @ [CHR 0x0A]) \<and>
    1 \<le> length body \<and> length body \<le> 64 \<and>
    set body \<subseteq> set ''ABCDEFGHIJKLMNOPQRSTUVWXYZabcdefghijklmnopqrstuvwxyz0123456789._-'')"
proof -
  have all: "set body \<subseteq> set ''ABCDEFGHIJKLMNOPQRSTUVWXYZabcdefghijklmnopqrstuvwxyz0123456789._-'' \<longleftrightarrow>
      list_all id_char body" for body
    unfolding list_all_iff id_char_iff by blast
  have nl: "\<not> id_char (CHR 0x0A)" by code_simp
  show ?thesis unfolding all
  proof (cases "s \<noteq> [] \<and> last s = CHR 0x0A")
    case True
    then obtain b where s: "s = b @ [CHR 0x0A]" by (metis append_butlast_last_id)
    then show "valid_request_id s \<longleftrightarrow> (\<exists>body. (s = body \<or> s = body @ [CHR 0x0A]) \<and>
        1 \<le> length body \<and> length body \<le> 64 \<and> list_all id_char body)"
      using nl by (auto simp: valid_request_id_def)
  next
    case False
    then show "valid_request_id s \<longleftrightarrow> (\<exists>body. (s = body \<or> s = body @ [CHR 0x0A]) \<and>
        1 \<le> length body \<and> length body \<le> 64 \<and> list_all id_char body)"
      by (auto simp: valid_request_id_def)
  qed
qed

lemma request_id_for_first: "request_id_for drawn sc =
    (let sent = map snd (filter (\<lambda>h. fst h = REQUEST_ID_HEADER) (http_headers sc)) in
     if sent \<noteq> [] \<and> valid_request_id (hd sent) then hd sent else hex_digits 32 (unat drawn))"
proof -
  have "map_of hs k = (let sent = map snd (filter (\<lambda>h. fst h = k) hs) in if sent = [] then None else Some (hd sent))"
    for hs :: "(string \<times> string) list" and k
    by (induction hs) (auto simp: Let_def)
  then show ?thesis by (simp add: request_id_for_def Let_def)
qed

section \<open>Properties\<close>

text \<open>
  C40: every HTTP response carries the request's id, and is logged once. Whatever the application
  sends, every response that starts carries exactly one request id header, and with the same id the
  application was given: the value of the caller's first \<open>x-request-id\<close> header if that is 1 to 64
  letters, digits, dots, underscores and hyphens, with or without a newline at the end, and the 32
  hexadecimal digits of a fresh UUID if it is anything else or there is no such header. The access
  log gets one line, with the status of the last response or 500 if there was none and the time it
  took, also when the application raises, and none for probes and scrapes.
\<close>

theorem request_id_everywhere:
  assumes "http_type sc = ''http''" and "middleware drawn started ended app sc = (out, x, line)"
    and sent: "sent = map snd (filter (\<lambda>h. fst h = ''x-request-id'') (http_headers sc))"
    and rid: "rid = (if sent \<noteq> [] \<and> (\<exists>body. (hd sent = body \<or> hd sent = body @ [CHR 0x0A]) \<and>
          1 \<le> length body \<and> length body \<le> 64 \<and>
          set body \<subseteq> set ''ABCDEFGHIJKLMNOPQRSTUVWXYZabcdefghijklmnopqrstuvwxyz0123456789._-'')
        then hd sent else hex_digits 32 (unat drawn))"
  shows "(\<forall>(code, hs) \<in> set (response_starts out). filter (\<lambda>h. fst h = ''x-request-id'') hs =
       [(''x-request-id'', rid)]) \<and> valid_request_id rid \<and>
    map fst (response_starts out) = map fst (response_starts (fst (app sc (Some rid)))) \<and> x = snd (app sc (Some rid)) \<and>
    line = (if http_path sc \<in> {''/healthz'', ''/readyz'', ''/metrics''} then None
      else Some \<lparr>lo_method = http_method sc, lo_path = http_path sc,
        lo_status = last (500 # map fst (response_starts out)),
        lo_duration_ms = py_round 1 ((ended - started) * 1000)\<rparr>)"
proof -
  let ?rid = "request_id_for drawn sc"
  have "rid = ?rid"
    unfolding rid request_id_for_first sent REQUEST_ID_HEADER_def by (simp add: valid_request_id_iff Let_def)
  moreover obtain ms y where a: "app sc (Some ?rid) = (ms, y)" by fastforce
  obtain status o1 where s: "send_all ?rid 500 ms = (status, o1)" by fastforce
  moreover have o: "out = o1" "x = y" "line = (if http_path sc \<in> set QUIET_PATHS then None
      else Some \<lparr>lo_method = http_method sc, lo_path = http_path sc, lo_status = status,
        lo_duration_ms = py_round 1 ((ended - started) * 1000)\<rparr>)"
    using assms a s by (auto simp: middleware_def Let_def)
  moreover have "map fst (response_starts out) = map fst (response_starts ms)"
    using send_all_starts(1) [of ?rid 500 ms] s o(1) by (simp add: case_prod_beta o_def)
  moreover have "filter (\<lambda>h. fst h = REQUEST_ID_HEADER) hs = [(REQUEST_ID_HEADER, ?rid)]"
    if "(code, hs) \<in> set (response_starts out)" for code hs
    using that send_all_starts(1) [of ?rid 500 ms] s o(1) by auto
  ultimately show ?thesis
    using send_all_starts(2) [of ?rid 500 ms] s a request_id_valid
    by (auto simp: QUIET_PATHS_def REQUEST_ID_HEADER_def)
qed

definition sample_scope :: scope where
  "sample_scope = \<lparr>http_type = ''http'', http_headers = [(''x-request-id'', ''abc-1'')],
     http_method = ''GET'', http_path = ''/v1''\<rparr>"

theorem request_id_everywhere_witness:
  "filter (\<lambda>h. fst h = ''x-request-id'')
     (snd (hd (response_starts (fst (middleware 0 1 (3/2)
        (\<lambda>sc rid. ([ResponseStart 200 [(''x-request-id'', ''evil'')]], None)) sample_scope))))) =
     [(''x-request-id'', ''abc-1'')] \<and>
   snd (snd (middleware 0 1 (3/2) (\<lambda>sc rid. ([], Some BuildNotSupportedError)) sample_scope)) =
     Some \<lparr>lo_method = ''GET'', lo_path = ''/v1'', lo_status = 500, lo_duration_ms = 500\<rparr>"
proof -
  let ?m1 = "middleware 0 1 (3/2) (\<lambda>sc rid. ([ResponseStart 200 [(''x-request-id'', ''evil'')]], None)) sample_scope"
  let ?m2 = "middleware 0 1 (3/2) (\<lambda>sc rid. ([], Some BuildNotSupportedError)) sample_scope"
  have h: "http_type sample_scope = ''http''" by (simp add: sample_scope_def)
  have i: "map snd (filter (\<lambda>h. fst h = ''x-request-id'') (http_headers sample_scope)) = [''abc-1'']"
    by (simp add: sample_scope_def)
  have r: "''abc-1'' = (if [''abc-1''] \<noteq> [] \<and> (\<exists>body. (hd [''abc-1''] = body \<or> hd [''abc-1''] = body @ [CHR 0x0A]) \<and>
          1 \<le> length body \<and> length body \<le> 64 \<and>
          set body \<subseteq> set ''ABCDEFGHIJKLMNOPQRSTUVWXYZabcdefghijklmnopqrstuvwxyz0123456789._-'')
        then hd [''abc-1''] else hex_digits 32 (unat (0 :: uuid)))"
    by auto
  have e: "set (response_starts (fst ?m1)) = {hd (response_starts (fst ?m1))}" "response_starts (fst ?m2) = []"
    by code_simp+
  have t: "py_round 1 ((3/2 - 1) * 1000) = 500" by code_simp
  have p: "?m1 = (fst ?m1, fst (snd ?m1), snd (snd ?m1))" "?m2 = (fst ?m2, fst (snd ?m2), snd (snd ?m2))" by simp_all
  show ?thesis
    using request_id_everywhere [OF h p(1) i [symmetric] r] request_id_everywhere [OF h p(2) i [symmetric] r]
    unfolding e t by (simp add: case_prod_beta sample_scope_def)
qed

end
