(* ===== verification/Gateway_System.thy ===== *)
theory Gateway_System
  imports Administration Billing Agent_Records
begin

text \<open>
  The gateway as one machine: every operation that writes the database, the pending request counts
  or the runtime, in any order, by any callers. The components' own invariants are put together
  here, and with them what only the composition shows: the constraints of the schema hold whatever
  is interleaved, and nobody becomes admin but through an admin.
\<close>

section \<open>Events\<close>

datatype gateway_event =
    Signup reg_event
  | ChangeUser update_request
  | ApiKeys "(key_draw \<times> user \<times> string \<times> string list, timestamp \<times> uuid \<times> uuid) key_event"
  | AccessKeys "(key_draw \<times> agent \<times> string, access_withdrawal) key_event"
  | StripeDelivery "stripe_event \<times> stripe_client option"
  | Checkout "string \<Rightarrow> stripe_client" timestamp "string option"
  | Routed agent timestamp
  | Agents gw_event

definition on_db :: "(db \<Rightarrow> db) \<Rightarrow> 'r process \<Rightarrow> 'r process" where
  "on_db f p = p\<lparr>pr_service := (pr_service p)\<lparr>sv_db := f (sv_db (pr_service p))\<rparr>\<rparr>"

abbreviation db_of :: "'r process \<Rightarrow> db" where
  "db_of p \<equiv> sv_db (pr_service p)"

fun gateway_step ::
  "settings \<Rightarrow> crypto \<Rightarrow> core_auth \<Rightarrow> 'r platform \<Rightarrow> 'r process \<Rightarrow> gateway_event \<Rightarrow> 'r process" where
  "gateway_step st cr ca pf p (Signup ev) = (if valid_reg_event ev then on_db (\<lambda>d. reg_step st cr ca d ev) p else p)"
| "gateway_step st cr ca pf p (ChangeUser q) = on_db (\<lambda>d. admin_step st cr ca d q) p"
| "gateway_step st cr ca pf p (ApiKeys ev) = on_db (\<lambda>d. api_key_step ca d ev) p"
| "gateway_step st cr ca pf p (AccessKeys ev) = on_db (\<lambda>d. access_key_step cr d ev) p"
| "gateway_step st cr ca pf p (StripeDelivery ev) = on_db (\<lambda>d. billing_step d ev) p"
| "gateway_step st cr ca pf p (Checkout StripeClient now creds) =
     on_db (\<lambda>d. fst (checkout st cr ca StripeClient now creds d)) p"
| "gateway_step st cr ca pf p (Routed ag now) = p\<lparr>pr_pending := count_request ag now (pr_pending p)\<rparr>"
| "gateway_step st cr ca pf p (Agents ev) = admitted_step st pf p ev"

section \<open>Lemmas\<close>

text \<open>The columns of an account that decide what its owner may do.\<close>

definition access_of :: "user \<Rightarrow> uuid \<times> int \<times> bool" where
  "access_of u = (u_id u, u_role u, u_is_active u)"

definition same_access :: "db \<Rightarrow> db \<Rightarrow> bool" where
  "same_access d d' \<longleftrightarrow> map access_of (users d') = map access_of (users d) \<and> invites d' = invites d"

lemma same_accessI: "users d' = users d \<Longrightarrow> invites d' = invites d \<Longrightarrow> same_access d d'"
  by (simp add: same_access_def)

lemma has_admin_access: "map access_of (users d') = map access_of (users d) \<Longrightarrow> has_admin ca d' = has_admin ca d"
proof -
  have "has_admin ca d \<longleftrightarrow> (\<exists>(i, r, act) \<in> set (map access_of (users d)).
      act \<and> (case role_of_value ca r of None \<Rightarrow> False | Some r \<Rightarrow> role_can ca r ADMIN))" for d
    by (auto simp: has_admin_def can_admin_def access_of_def)
  then show "map access_of (users d') = map access_of (users d) \<Longrightarrow> has_admin ca d' = has_admin ca d"
    by (simp only:)
qed

lemma untouched_access: "untouched d d' \<Longrightarrow> same_access d d'"
proof -
  have "access_of u = access_of (non_billing u)" for u by (simp add: access_of_def non_billing_def)
  then have "map access_of us = map access_of (map non_billing us)" for us by simp
  then show "untouched d d' \<Longrightarrow> same_access d d'" unfolding untouched_def same_access_def by metis
qed

lemma customer_kept:
  assumes "ensure_customer client u d = Inr (d', cid)"
  shows "untouched d d' \<and> (db_wf d \<longrightarrow> db_wf d')"
proof -
  let ?f = "\<lambda>v. v\<lparr>u_stripe_customer_id := Some cid\<rparr>"
  have f: "non_billing (?f v) = non_billing v" for v by (simp add: non_billing_def)
  consider "d' = d" | "commit_user (u_id u) ?f d = Inr d'"
    using assms by (auto simp: ensure_customer_def result_simps split: if_split_asm)
  then show ?thesis
  proof cases
    case 2
    then show ?thesis using commit_user_frame(1-6) [OF 2 f] commit_user_wf [OF 2] by (simp add: untouched_def)
  qed (simp add: untouched_def)
qed

lemma checkout_kept:
  "untouched d (fst (checkout st cr ca sc now creds d)) \<and> (db_wf d \<longrightarrow> db_wf (fst (checkout st cr ca sc now creds d)))"
proof -
  have "untouched d (fst (checkout_url st client u d)) \<and> (db_wf d \<longrightarrow> db_wf (fst (checkout_url st client u d)))"
    for client u
    using customer_kept [of client u d] by (auto simp: checkout_url_def untouched_def split: sum.split)
  then show ?thesis
    by (auto simp: checkout_def untouched_def split: sum.split)
qed

text \<open>Registration and invites: at most one account more, and that one without admin rights.\<close>

lemma claim_invite_frame:
  "claim_invite cr now code d = Inr (d', i) \<Longrightarrow> users d' = users d \<and> agents d' = agents d"
  by (auto simp: claim_invite_def result_simps split: option.splits if_splits)

lemma reg_step_users:
  "agents (reg_step st cr ca d ev) = agents d \<and> (users (reg_step st cr ca d ev) = users d \<or>
   (\<exists>dr su. users (reg_step st cr ca d ev) = users d @ [new_user st cr ca dr su]))"
proof (cases ev)
  case (CreateInvite i t now by_user memo n days)
  then show ?thesis by (auto simp: reg_step_def dest!: create_invite_effect(1) split: sum.split)
next
  case (RevokeInvite now i)
  then show ?thesis by (auto simp: reg_step_def revoke_invite_def split: sum.split option.split)
next
  case (Register dr su)
  show ?thesis
  proof (cases "register_user st cr ca dr su d")
    case (Inr r)
    then obtain d' u where r: "register_user st cr ca dr su d = Inr (d', u)" by (cases r) auto
    then have "agents d' = agents d \<and> users d' = users d @ [new_user st cr ca dr su]"
    proof (cases rule: register_user_cases)
      case (1 d1)
      then show ?thesis
        using claim_invite_frame insert_user_effect [OF 1(3)]
        by (cases "s_registration_mode st = Invite") (fastforce, simp)
    qed
    then show ?thesis using r Register by (auto simp: reg_step_def)
  qed (simp add: Register reg_step_def)
qed

lemma reg_step_admin:
  assumes "role_laws ca"
  shows "has_admin ca (reg_step st cr ca d ev) = has_admin ca d"
proof -
  have "\<not> can_admin ca (new_user st cr ca dr su)" for dr su
    using assms by (simp add: can_admin_def new_user_def role_laws_def)
  then show ?thesis using reg_step_users [of st cr ca d ev] by (auto simp: has_admin_def)
qed

lemma admin_step_admin:
  assumes "role_laws ca" and "db_wf d"
  shows "has_admin ca (admin_step st cr ca d q) = has_admin ca d"
proof (cases "has_admin ca d")
  case True
  then show ?thesis using admin_step_inv [of ca d st cr q] assms by (simp add: admin_inv_def)
next
  case False
  obtain d' out where u: "update_user st cr ca (ur_now q) (ur_creds q) (ur_user q) (ur_body q) d = (d', out)"
    by (metis prod.exhaust)
  then have "d' = d"
    by (rule update_user_cases)
      (use False required_role_user [OF assms(2)] can_admin_iff has_admin_lookup [OF assms(2)] in blast)+
  then show ?thesis by (simp add: admin_step_def u)
qed

text \<open>A write that leaves roles, activity and invites alone and adds no agent.\<close>

definition kept :: "db \<Rightarrow> db \<Rightarrow> bool" where
  "kept d d' \<longleftrightarrow> same_access d d' \<and> set (agents d') \<subseteq> set (agents d) \<and> (db_wf d \<longrightarrow> db_wf d')"

lemma kept_untouched: "untouched d d' \<Longrightarrow> db_wf d \<longrightarrow> db_wf d' \<Longrightarrow> kept d d'"
  by (simp add: kept_def untouched_access) (simp add: untouched_def)

lemma billing_step_wf: "db_wf d \<Longrightarrow> db_wf (billing_step d delivery)"
proof (cases "handle_event (fst delivery) (snd delivery) d")
  case (Inr d')
  assume "db_wf d"
  with Inr have "db_wf d'" by (elim handle_event_cases) (auto elim!: commit_user_wf)
  then show ?thesis using Inr by (simp add: billing_step_def)
qed (simp add: billing_step_def)

lemma invites_frames [simp]:
  "invites (set_user uid f d) = invites d" "invites (set_api_key kid g d) = invites d"
  by (simp_all add: set_user_def set_api_key_def)

lemma api_key_step_kept: "kept d (api_key_step ca d ev)"
proof -
  have "users (api_key_step ca d ev) = users d \<and> invites (api_key_step ca d ev) = invites d \<and>
      agents (api_key_step ca d ev) = agents d"
    by (cases ev) (auto simp: key_step_def issue_api_key_def withdraw_api_key_def revoke_api_key_def result_simps
        dest!: create_api_key_effect(2) split: sum.split prod.split option.split_asm if_split_asm)
  then show ?thesis using akeys.step_wf [of d ca ev] by (auto simp: kept_def intro!: same_accessI)
qed

lemma access_key_step_kept: "kept d (access_key_step cr d ev)"
proof -
  have "users (access_key_step cr d ev) = users d \<and> invites (access_key_step cr d ev) = invites d \<and>
      set (agents (access_key_step cr d ev)) \<subseteq> set (agents d)"
    by (cases ev) (auto simp: key_step_def issue_access_key_def withdraw_access_key_def delete_access_key_def
        remove_agent_row_def remove_access_key_row_def delete_row_def result_simps
        dest!: create_access_key_effect(2) split: sum.split prod.split option.split access_withdrawal.split)
  then show ?thesis using xkeys.step_wf [of d cr ev] by (auto simp: kept_def intro!: same_accessI)
qed

lemma gateway_ok_kept:
  assumes "kept d d'" and "invites_ok d \<and> rows_ok d"
  shows "(invites_ok d' \<and> rows_ok d') \<and> has_admin ca d' = has_admin ca d"
  using assms has_admin_access [of d' d ca] by (auto simp: kept_def invites_ok_def rows_ok_def same_access_def)

lemma change_user_ok:
  assumes "role_laws ca" and "invites_ok d \<and> rows_ok d"
  shows "(invites_ok (admin_step st cr ca d q) \<and> rows_ok (admin_step st cr ca d q)) \<and>
    has_admin ca (admin_step st cr ca d q) = has_admin ca d"
proof -
  have wf: "db_wf d" using assms(2) by (simp add: invites_ok_def)
  obtain d' out where u: "update_user st cr ca (ur_now q) (ur_creds q) (ur_user q) (ur_body q) d = (d', out)"
    by (metis prod.exhaust)
  then have "invites d' = invites d \<and> agents d' = agents d"
    by (rule update_user_cases) auto
  then show ?thesis
    using admin_step_admin [OF assms(1) wf, of st cr q] update_user_wf [OF wf, of st cr ca "ur_now q" "ur_creds q" "ur_user q" "ur_body q"]
      u assms(2) by (simp add: admin_step_def invites_ok_def rows_ok_def)
qed

lemma agents_step_ok:
  assumes "invites_ok (db_of p) \<and> rows_ok (db_of p)" and p'_def: "p' = admitted_step st pf p ev"
  shows "(invites_ok (db_of p') \<and> rows_ok (db_of p')) \<and> has_admin ca (db_of p') = has_admin ca (db_of p)"
proof -
  have ok: "process_ok p" using assms(1) by (simp add: process_ok_def invites_ok_def)
  have "users (db_of p') = users (db_of p) \<and> invites (db_of p') = invites (db_of p)"
  proof (cases ev)
    case (Request x)
    then show ?thesis
      using svc_step_only [of x "pr_service p" pf] by (simp add: p'_def admitted_step_def only_agent_def)
  next
    case (Tick e now fault)
    obtain q r where t: "tick st pf e now fault p = (q, r)" by fastforce
    then show ?thesis
      using tick_rows [of p st pf e now fault q r] ok Tick by (simp add: p'_def admitted_step_def process_ok_def)
  qed
  then show ?thesis
    using gw.step_keeps [OF ok, of st pf ev] assms(1)
    by (simp add: p'_def process_ok_def invites_ok_def has_admin_def)
qed

text \<open>One step of the gateway.\<close>

definition gateway_ok :: "bool \<Rightarrow> core_auth \<Rightarrow> 'r process \<Rightarrow> bool" where
  "gateway_ok b ca p \<longleftrightarrow> (invites_ok (db_of p) \<and> rows_ok (db_of p)) \<and> has_admin ca (db_of p) = b \<and> role_laws ca"

lemma db_of_on_db [simp]: "db_of (on_db f p) = f (db_of p)"
  by (simp add: on_db_def)

lemma gateway_ok_step:
  assumes "gateway_ok b ca p"
  shows "gateway_ok b ca (gateway_step st cr ca pf p ev)"
proof -
  have ok: "invites_ok (db_of p) \<and> rows_ok (db_of p)" and laws: "role_laws ca"
    and b: "b = has_admin ca (db_of p)"
    using assms by (auto simp: gateway_ok_def)
  show ?thesis
  proof (cases ev)
    case (Signup x)
    then show ?thesis
      using reg_step_ok [of "db_of p" x st cr ca] reg_step_admin [OF laws] reg_step_users [of st cr ca "db_of p" x] ok laws b
      by (simp add: gateway_ok_def rows_ok_def)
  next
    case (ChangeUser q)
    then show ?thesis using change_user_ok [OF laws ok] laws b by (simp add: gateway_ok_def)
  next
    case (ApiKeys x)
    then show ?thesis using gateway_ok_kept [OF api_key_step_kept ok] laws b by (simp add: gateway_ok_def)
  next
    case (AccessKeys x)
    then show ?thesis using gateway_ok_kept [OF access_key_step_kept ok] laws b by (simp add: gateway_ok_def)
  next
    case (StripeDelivery x)
    have "kept (db_of p) (billing_step (db_of p) x)"
      using billing_step_untouched billing_step_wf by (blast intro: kept_untouched)
    then show ?thesis using gateway_ok_kept [OF _ ok] StripeDelivery laws b by (simp add: gateway_ok_def)
  next
    case (Checkout c now creds)
    have "kept (db_of p) (fst (checkout st cr ca c now creds (db_of p)))"
      using checkout_kept by (blast intro: kept_untouched)
    then show ?thesis using gateway_ok_kept [OF _ ok] Checkout laws b by (simp add: gateway_ok_def)
  next
    case (Routed ag now)
    then show ?thesis using assms by (simp add: gateway_ok_def)
  next
    case (Agents x)
    then show ?thesis using agents_step_ok [OF ok refl] laws b by (simp add: gateway_ok_def)
  qed
qed

interpretation sys: step_invariant "gateway_step st cr ca pf" "gateway_ok b ca" for st cr ca pf b
  using gateway_ok_step by unfold_locales

section \<open>Properties\<close>

text \<open>
  C6: the constraints hold whatever is interleaved. From a database that meets them, after any
  sequence of registrations, invites, key requests, account changes, Stripe deliveries, checkouts,
  ingress requests, agent requests and scheduler ticks, by any callers and with any answers of the
  runtime and of Stripe, all unique and foreign keys hold (so no key, agent or usage row is left
  without its owner, and no invite without the account that made it), no invite is over its limit, and every agent row is well-typed.
\<close>

theorem gateway_schema_holds:
  assumes "role_laws ca" and "invites_ok (db_of p)" and "rows_ok (db_of p)"
    and d': "d' = db_of (run_steps (gateway_step st cr ca pf) p evs)"
  shows "keys_wf d' \<and> refs_wf d' \<and> (\<forall>i \<in> set (invites d'). i_use_count i \<le> i_max_uses i) \<and>
    (\<forall>a \<in> set (agents d'). row_ok a \<and> get_user d' (a_user_id a) \<noteq> None)"
proof -
  have "gateway_ok (has_admin ca (db_of p)) ca (run_steps (gateway_step st cr ca pf) p evs)"
    using assms(1-3) by (intro sys.run_keeps) (simp add: gateway_ok_def)
  then have ok: "invites_ok d'" "rows_ok d'" by (simp_all add: gateway_ok_def d')
  then have wf: "db_wf d'" by (simp add: invites_ok_def)
  have "get_user d' (a_user_id a) \<noteq> None" if "a \<in> set (agents d')" for a
    by (rule db_wf_agent_owner [OF wf that]) simp
  then show ?thesis using ok wf by (auto simp: invites_ok_def rows_ok_def db_wf_def)
qed

text \<open>A day of the sample gateway: an invite is made, an agent is deleted, Stripe and the scheduler call.\<close>

definition sample_process :: "sample_state process" where
  "sample_process = \<lparr>pr_service = sample_service, pr_pending = []\<rparr>"

definition sample_day :: "gateway_event list" where
  "sample_day = [Signup (CreateInvite 7 ''tok'' 0 1 ''n'' 2 None), Routed sample_agent 3,
     Agents (Tick None 5 None), ChangeUser \<lparr>ur_now = 5, ur_creds = Some sample_token, ur_user = 1,
       ur_body = \<lparr>up_role = Some ''admin'', up_plan = None, up_is_active = None\<rparr>\<rparr>,
     Agents (Request (Delete 1 ''agent-1''))]"

lemma sample_process_ok: "invites_ok (db_of sample_process)" "rows_ok (db_of sample_process)"
  using sample_db_wf sample_rows_ok
  by (simp_all add: sample_process_def sample_service_def invites_ok_def) (simp add: sample_db_def empty_db_def)

theorem gateway_schema_holds_witness:
  "refs_wf (db_of (run_steps (gateway_step default_settings sample_crypto sample_core_auth sample_platform)
     sample_process sample_day))"
  using gateway_schema_holds [OF sample_role_laws sample_process_ok refl] by blast

text \<open>
  C5: nobody becomes admin but through an admin. Whatever requests are interleaved, there is an
  active account with admin rights afterwards if and only if there was one before: registration,
  billing, keys and agents never give such rights, account changes need one who has them and never
  take away the last ones. The first admin is made by \<open>scripts/set_user_role.py\<close>.
\<close>

theorem admins_come_from_admins:
  assumes "role_laws ca" and "invites_ok (db_of p)" and "rows_ok (db_of p)"
  shows "has_admin ca (db_of (run_steps (gateway_step st cr ca pf) p evs)) \<longleftrightarrow> has_admin ca (db_of p)"
proof -
  have "gateway_ok (has_admin ca (db_of p)) ca (run_steps (gateway_step st cr ca pf) p evs)"
    using assms by (intro sys.run_keeps) (simp add: gateway_ok_def)
  then show ?thesis by (simp add: gateway_ok_def)
qed

theorem admins_come_from_admins_witness:
  "\<not> has_admin sample_core_auth (db_of (run_steps
     (gateway_step default_settings sample_crypto sample_core_auth sample_platform) sample_process sample_day))"
proof -
  have "\<not> has_admin sample_core_auth (db_of sample_process)"
    by (simp add: sample_process_def sample_service_def sample_db_def empty_db_def has_admin_def can_admin_def
        sample_user_def sample_core_auth_def)
  then show ?thesis using admins_come_from_admins [OF sample_role_laws sample_process_ok] by blast
qed

end
