(* ===== verification/Sql_Schema.thy ===== *)
theory Sql_Schema
  imports Gateway_Prelude
begin

text \<open>
  The operations of Alembic that the migrations use, over databases with rows. A database is a list
  of tables with their columns, indexes, constraints and rows, and the installed extensions. An
  operation that Postgres refuses is \<open>None\<close>: the migration is then rolled back. The literals of
  \<open>server_default\<close> are kept as the values they denote in the type of their column. The lemmas say
  which sequences of operations are undone by which: they carry the proofs about the migrations.
\<close>

section \<open>Databases\<close>

datatype sql_type = TUuid | TString nat | TText | TSmallInteger | TInteger | TBigInteger | TFloat | TBoolean
  | TDateTime | TStringArray | TJson

datatype sql_value = SNull | SText string | SInt int | SFloat rat | SBool bool | SArray "string list"
  | SJson string | STime int

datatype sql_default = Literal sql_value | Now

datatype on_delete = Cascade | SetNull

record column =
  co_name :: string
  co_type :: sql_type
  co_primary :: bool
  co_nullable :: bool
  co_default :: "sql_default option"
  co_references :: "(string \<times> string \<times> on_delete) option"

record index =
  ix_name :: string
  ix_columns :: "string list"
  ix_unique :: bool

type_synonym row = "(string \<times> sql_value) list"

record table =
  tb_columns :: "column list"
  tb_indexes :: "index list"
  tb_uniques :: "(string \<times> string list) list"
  tb_rows :: "row list"

record database =
  tables :: "(string \<times> table) list"
  extensions :: "string list"

text \<open>What a statement gets from Postgres: \<open>md5\<close> and the time of the transaction.\<close>

record sql_env =
  md5 :: "string \<Rightarrow> string"
  now_time :: int

section \<open>Operations\<close>

datatype operation =
    CreateTable string "column list" "(string \<times> string list) list"
  | DropTable string
  | AddColumn string column
  | DropColumn string string
  | AlterNullable string string bool
  | CreateIndex string string "string list" bool
  | DropIndex string string
  | UpdateColumn string string "sql_env \<Rightarrow> row \<Rightarrow> sql_value" "row \<Rightarrow> bool"
  | CreateExtension string
  | DropExtension string

definition cell :: "string \<Rightarrow> row \<Rightarrow> sql_value" where
  "cell c r = (case map_of r c of None \<Rightarrow> SNull | Some v \<Rightarrow> v)"

definition set_cell :: "string \<Rightarrow> sql_value \<Rightarrow> row \<Rightarrow> row" where
  "set_cell c v r = map (\<lambda>(n, x). (n, if n = c then v else x)) r"

definition default_value :: "sql_env \<Rightarrow> column \<Rightarrow> sql_value" where
  "default_value e c = (case co_default c of None \<Rightarrow> SNull | Some (Literal v) \<Rightarrow> v | Some Now \<Rightarrow> STime (now_time e))"

definition references_table :: "string \<Rightarrow> table \<Rightarrow> bool" where
  "references_table n t \<longleftrightarrow> (\<exists>c \<in> set (tb_columns t). case co_references c of None \<Rightarrow> False | Some (m, _, _) \<Rightarrow> m = n)"

definition references_column :: "string \<Rightarrow> string \<Rightarrow> table \<Rightarrow> bool" where
  "references_column n col t \<longleftrightarrow>
     (\<exists>c \<in> set (tb_columns t). case co_references c of None \<Rightarrow> False | Some (m, k, _) \<Rightarrow> m = n \<and> k = col)"

text \<open>Every reference of the columns goes to a column that exists, in another table or among them.\<close>

definition has_column :: "(string \<times> table) list \<Rightarrow> string \<Rightarrow> string \<Rightarrow> bool" where
  "has_column ts n k = (case map_of ts n of None \<Rightarrow> False | Some t \<Rightarrow> k \<in> co_name ` set (tb_columns t))"

definition references_ok :: "(string \<times> table) list \<Rightarrow> column list \<Rightarrow> bool" where
  "references_ok ts cs \<longleftrightarrow> (\<forall>c \<in> set cs. case co_references c of None \<Rightarrow> True | Some (n, k, _) \<Rightarrow> has_column ts n k)"

definition put_table :: "string \<Rightarrow> table \<Rightarrow> (string \<times> table) list \<Rightarrow> (string \<times> table) list" where
  "put_table n t ts = map (\<lambda>(m, x). (m, if m = n then t else x)) ts"

definition on_table :: "string \<Rightarrow> (table \<Rightarrow> table option) \<Rightarrow> database \<Rightarrow> database option" where
  "on_table n f db = (case map_of (tables db) n of None \<Rightarrow> None
     | Some t \<Rightarrow> (case f t of None \<Rightarrow> None
        | Some t' \<Rightarrow> Some (db\<lparr>tables := put_table n t' (tables db)\<rparr>)))"

definition distinct_values :: "string list \<Rightarrow> row list \<Rightarrow> bool" where
  "distinct_values cs rows \<longleftrightarrow> distinct (filter (\<lambda>vs. SNull \<notin> set vs) (map (\<lambda>r. map (\<lambda>c. cell c r) cs) rows))"

definition add_column :: "sql_env \<Rightarrow> column \<Rightarrow> table \<Rightarrow> table option" where
  "add_column e c t =
     (if co_name c \<in> co_name ` set (tb_columns t) \<or>
         \<not> co_nullable c \<and> default_value e c = SNull \<and> tb_rows t \<noteq> [] then None
      else Some (t\<lparr>tb_columns := tb_columns t @ [c],
                   tb_rows := map (\<lambda>r. r @ [(co_name c, default_value e c)]) (tb_rows t)\<rparr>))"

definition without_column :: "string \<Rightarrow> table \<Rightarrow> table" where
  "without_column k t = t\<lparr>tb_columns := filter (\<lambda>c. co_name c \<noteq> k) (tb_columns t),
     tb_indexes := filter (\<lambda>i. k \<notin> set (ix_columns i)) (tb_indexes t),
     tb_uniques := filter (\<lambda>u. k \<notin> set (snd u)) (tb_uniques t),
     tb_rows := map (filter (\<lambda>x. fst x \<noteq> k)) (tb_rows t)\<rparr>"

definition alter_nullable :: "string \<Rightarrow> bool \<Rightarrow> table \<Rightarrow> table option" where
  "alter_nullable k b t =
     (if k \<notin> co_name ` set (tb_columns t) \<or> \<not> b \<and> (\<exists>r \<in> set (tb_rows t). cell k r = SNull) then None
      else Some (t\<lparr>tb_columns := map (\<lambda>c. if co_name c = k then c\<lparr>co_nullable := b\<rparr> else c) (tb_columns t)\<rparr>))"

definition create_index :: "string \<Rightarrow> string list \<Rightarrow> bool \<Rightarrow> table \<Rightarrow> table option" where
  "create_index i ks u t =
     (if \<not> set ks \<subseteq> co_name ` set (tb_columns t) \<or> u \<and> \<not> distinct_values ks (tb_rows t) then None
      else Some (t\<lparr>tb_indexes := tb_indexes t @ [\<lparr>ix_name = i, ix_columns = ks, ix_unique = u\<rparr>]\<rparr>))"

definition drop_index :: "string \<Rightarrow> table \<Rightarrow> table option" where
  "drop_index i t = (if i \<in> ix_name ` set (tb_indexes t)
     then Some (t\<lparr>tb_indexes := filter (\<lambda>x. ix_name x \<noteq> i) (tb_indexes t)\<rparr>) else None)"

definition drop_column :: "string \<Rightarrow> table \<Rightarrow> table option" where
  "drop_column k t = (if k \<in> co_name ` set (tb_columns t) then Some (without_column k t) else None)"

text \<open>An update is checked against the constraints of its table.\<close>

definition constraints_hold :: "table \<Rightarrow> bool" where
  "constraints_hold t \<longleftrightarrow>
     (\<forall>c \<in> set (tb_columns t). co_nullable c \<or> (\<forall>r \<in> set (tb_rows t). cell (co_name c) r \<noteq> SNull)) \<and>
     (\<forall>i \<in> set (tb_indexes t). ix_unique i \<longrightarrow> distinct_values (ix_columns i) (tb_rows t)) \<and>
     (\<forall>u \<in> set (tb_uniques t). distinct_values (snd u) (tb_rows t))"

definition update_column ::
  "sql_env \<Rightarrow> string \<Rightarrow> (sql_env \<Rightarrow> row \<Rightarrow> sql_value) \<Rightarrow> (row \<Rightarrow> bool) \<Rightarrow> table \<Rightarrow> table option" where
  "update_column e k f p t =
     (let t' = t\<lparr>tb_rows := map (\<lambda>r. if p r then set_cell k (f e r) r else r) (tb_rows t)\<rparr> in
      if constraints_hold t' then Some t' else None)"

definition index_names :: "database \<Rightarrow> string set" where
  "index_names db = (\<Union>x \<in> set (tables db). ix_name ` set (tb_indexes (snd x)))"

fun exec :: "sql_env \<Rightarrow> operation \<Rightarrow> database \<Rightarrow> database option" where
  "exec e (CreateTable n cs us) db =
     (let t = \<lparr>tb_columns = cs, tb_indexes = [], tb_uniques = us, tb_rows = []\<rparr> in
      if n \<in> fst ` set (tables db) \<or> \<not> references_ok (tables db) cs then None
      else Some (db\<lparr>tables := tables db @ [(n, t)]\<rparr>))"
| "exec e (DropTable n) db =
     (if n \<notin> fst ` set (tables db) \<or> (\<exists>x \<in> set (tables db). fst x \<noteq> n \<and> references_table n (snd x)) then None
      else Some (db\<lparr>tables := filter (\<lambda>x. fst x \<noteq> n) (tables db)\<rparr>))"
| "exec e (AddColumn n c) db = (if references_ok (tables db) [c] then on_table n (add_column e c) db else None)"
| "exec e (DropColumn n k) db =
     (if \<exists>x \<in> set (tables db). references_column n k (snd x) then None else on_table n (drop_column k) db)"
| "exec e (AlterNullable n k b) db = on_table n (alter_nullable k b) db"
| "exec e (CreateIndex i n ks u) db =
     (if i \<in> index_names db then None else on_table n (create_index i ks u) db)"
| "exec e (DropIndex i n) db = on_table n (drop_index i) db"
| "exec e (UpdateColumn n k f p) db = on_table n (update_column e k f p) db"
| "exec e (CreateExtension x) db = Some (db\<lparr>extensions := List.insert x (extensions db)\<rparr>)"
| "exec e (DropExtension x) db = Some (db\<lparr>extensions := removeAll x (extensions db)\<rparr>)"

fun run :: "sql_env \<Rightarrow> operation list \<Rightarrow> database \<Rightarrow> database option" where
  "run e [] db = Some db"
| "run e (o1 # os) db = (case exec e o1 db of None \<Rightarrow> None | Some db' \<Rightarrow> run e os db')"

section \<open>Well-formed databases\<close>

definition wf_table :: "table \<Rightarrow> bool" where
  "wf_table t \<longleftrightarrow>
     (\<forall>r \<in> set (tb_rows t). map fst r = map co_name (tb_columns t)) \<and>
     (\<forall>i \<in> set (tb_indexes t). set (ix_columns i) \<subseteq> co_name ` set (tb_columns t)) \<and>
     (\<forall>u \<in> set (tb_uniques t). set (snd u) \<subseteq> co_name ` set (tb_columns t))"

definition wf_database :: "database \<Rightarrow> bool" where
  "wf_database db \<longleftrightarrow> distinct (map fst (tables db)) \<and>
     (\<forall>x \<in> set (tables db). wf_table (snd x) \<and> references_ok (tables db) (tb_columns (snd x)))"

text \<open>The second list of operations takes back what the first has done.\<close>

definition undoes :: "sql_env \<Rightarrow> operation list \<Rightarrow> operation list \<Rightarrow> bool" where
  "undoes e os us \<longleftrightarrow>
     (\<forall>db db'. wf_database db \<and> run e os db = Some db' \<longrightarrow> wf_database db' \<and> run e us db' = Some db)"

section \<open>Lemmas\<close>

lemma has_column_iff: "has_column ts n k \<longleftrightarrow> (\<exists>t. map_of ts n = Some t \<and> k \<in> co_name ` set (tb_columns t))"
  by (simp add: has_column_def split: option.split)

lemma run_append: "run e (os @ us) db = (case run e os db of None \<Rightarrow> None | Some db' \<Rightarrow> run e us db')"
  by (induction os arbitrary: db) (auto split: option.split)

lemma run_single: "run e [o1] db = exec e o1 db"
  by (simp split: option.split)

lemma undoes_append:
  assumes "undoes e os1 us1" and "undoes e os2 us2"
  shows "undoes e (os1 @ os2) (us2 @ us1)"
  unfolding undoes_def
proof (intro allI impI, elim conjE)
  fix db db'
  assume wf: "wf_database db" and r: "run e (os1 @ os2) db = Some db'"
  then obtain db1 where 1: "run e os1 db = Some db1" "run e os2 db1 = Some db'"
    by (auto simp: run_append split: option.split_asm)
  have 2: "wf_database db1" "run e us1 db1 = Some db" using assms(1) wf 1(1) by (simp_all add: undoes_def)
  have "wf_database db'" "run e us2 db' = Some db1" using assms(2) 2(1) 1(2) by (simp_all add: undoes_def)
  then show "wf_database db' \<and> run e (us2 @ us1) db' = Some db" using 2(2) by (simp add: run_append)
qed

lemma map_of_put: "map_of (put_table n t ts) m = (if m = n \<and> n \<in> fst ` set ts then Some t else map_of ts m)"
proof (induction ts)
  case (Cons x ts)
  then show ?case by (cases x; cases "m = n") (auto simp: put_table_def)
qed (simp add: put_table_def)

lemma fst_put [simp]: "map fst (put_table n t ts) = map fst ts" "fst ` set (put_table n t ts) = fst ` set ts"
  by (simp_all add: put_table_def case_prod_beta image_image comp_def)

lemma put_put [simp]: "put_table n t (put_table n t' ts) = put_table n t ts"
  by (auto simp: put_table_def)

lemma put_same: "distinct (map fst ts) \<Longrightarrow> map_of ts n = Some t \<Longrightarrow> put_table n t ts = ts"
proof -
  assume d: "distinct (map fst ts)" "map_of ts n = Some t"
  have "x = t" if "(n, x) \<in> set ts" for x using that d by simp
  then show "put_table n t ts = ts" by (auto simp: put_table_def intro!: map_idI)
qed

lemma set_put: "x \<in> set (put_table n t ts) \<Longrightarrow> x = (n, t) \<or> x \<in> set ts \<and> fst x \<noteq> n"
  by (auto simp: put_table_def split: if_split_asm)

lemma on_table_Some:
  "on_table n f db = Some db' \<longleftrightarrow> (\<exists>t t'. map_of (tables db) n = Some t \<and> f t = Some t' \<and>
     db' = db\<lparr>tables := put_table n t' (tables db)\<rparr>)"
  by (auto simp: on_table_def split: option.split)

lemma on_table_after:
  assumes "map_of (tables db) n = Some t" and "g t' = Some t''"
  shows "on_table n g (db\<lparr>tables := put_table n t' (tables db)\<rparr>) = Some (db\<lparr>tables := put_table n t'' (tables db)\<rparr>)"
proof -
  have "n \<in> fst ` set (tables db)" using assms(1) by (metis domI dom_map_of_conv_image_fst)
  then show ?thesis using assms(2) by (simp add: on_table_def map_of_put)
qed

lemma has_column_put:
  assumes "map_of ts n = Some t" and "co_name ` set (tb_columns t) \<subseteq> co_name ` set (tb_columns t')" and "has_column ts m k"
  shows "has_column (put_table n t' ts) m k"
  using assms by (auto simp: has_column_iff map_of_put map_of_eq_None_iff split: if_split_asm dest: map_of_SomeD)

text \<open>Changing one table, with its columns kept and the new ones referring to something.\<close>

lemma wf_put:
  assumes "wf_database db" and "map_of (tables db) n = Some t" and "wf_table t'"
    and "co_name ` set (tb_columns t) \<subseteq> co_name ` set (tb_columns t')"
    and "references_ok (tables db) (tb_columns t')"
  shows "wf_database (db\<lparr>tables := put_table n t' (tables db)\<rparr>)"
proof -
  have "references_ok (put_table n t' (tables db)) cs" if "references_ok (tables db) cs" for cs
    using that has_column_put [OF assms(2,4)] by (fastforce simp: references_ok_def split: option.split prod.split)
  then show ?thesis
    using assms(1,3,5) by (auto simp: wf_database_def dest!: set_put)
qed

text \<open>
  What happens to one table only is undone if it is undone for that table. The rules of the single
  operations follow.
\<close>

lemma on_table_undo:
  assumes "wf_database db" and "map_of (tables db) n = Some t" and "g t' = Some t"
  shows "on_table n g (db\<lparr>tables := put_table n t' (tables db)\<rparr>) = Some db"
  using on_table_after [OF assms(2), of g t' t] assms by (simp add: put_same wf_database_def)

lemma wf_lookup:
  assumes "wf_database db" and "map_of (tables db) n = Some t"
  shows "wf_table t" and "references_ok (tables db) (tb_columns t)"
  using assms by (auto simp: wf_database_def dest!: map_of_SomeD)

lemma no_reference:
  assumes "wf_database db" and "\<not> has_column (tables db) n k" and "x \<in> set (tables db)"
  shows "\<not> references_column n k (snd x)"
  using assms by (fastforce simp: wf_database_def references_ok_def references_column_def split: option.splits)

lemma names_filter: "k \<notin> fst ` set r \<Longrightarrow> filter (\<lambda>x. fst x \<noteq> k) r = r"
  by (induction r) auto

lemma add_column_undo:
  assumes "wf_table t" and "add_column e c t = Some t'"
  shows "drop_column (co_name c) t' = Some t" and "wf_table t'" and "tb_columns t' = tb_columns t @ [c]"
proof -
  have n: "co_name c \<notin> co_name ` set (tb_columns t)"
    and t': "t' = t\<lparr>tb_columns := tb_columns t @ [c],
      tb_rows := map (\<lambda>r. r @ [(co_name c, default_value e c)]) (tb_rows t)\<rparr>"
    using assms(2) by (auto simp: add_column_def split: if_split_asm)
  have r: "filter (\<lambda>x. fst x \<noteq> co_name c) r = r" if "r \<in> set (tb_rows t)" for r
  proof (rule names_filter)
    have "fst ` set r = co_name ` set (tb_columns t)"
      using that assms(1) unfolding wf_table_def by (metis list.set_map)
    then show "co_name c \<notin> fst ` set r" using n by simp
  qed
  have i: "filter (\<lambda>c'. co_name c' \<noteq> co_name c) (tb_columns t) = tb_columns t"
    "filter (\<lambda>i. co_name c \<notin> set (ix_columns i)) (tb_indexes t) = tb_indexes t"
    "filter (\<lambda>u. co_name c \<notin> set (snd u)) (tb_uniques t) = tb_uniques t"
    using n assms(1) by (simp_all add: filter_id_conv wf_table_def subset_eq) (metis imageI, blast, blast)
  show "drop_column (co_name c) t' = Some t"
    by (simp add: drop_column_def without_column_def t' i comp_def r cong: map_cong)
  show "wf_table t'" "tb_columns t' = tb_columns t @ [c]"
    using assms(1) by (auto simp: wf_table_def t')
qed

lemma undoes_add_column: "undoes e [AddColumn n c] [DropColumn n (co_name c)]"
  unfolding undoes_def
proof (intro allI impI, elim conjE)
  fix db db'
  assume wf: "wf_database db" and r: "run e [AddColumn n c] db = Some db'"
  then obtain t t' where t: "map_of (tables db) n = Some t" "add_column e c t = Some t'"
    and db': "db' = db\<lparr>tables := put_table n t' (tables db)\<rparr>" and c: "references_ok (tables db) [c]"
    by (auto simp: on_table_Some split: if_split_asm option.split_asm)
  note u = add_column_undo [OF wf_lookup(1) [OF wf t(1)] t(2)]
  have wf': "wf_database db'"
    unfolding db' using wf_lookup(2) [OF wf t(1)] c u(3)
    by (intro wf_put [OF wf t(1) u(2)]) (auto simp: references_ok_def)
  have no: "\<not> has_column (tables db) n (co_name c)"
    using t by (auto simp: has_column_iff add_column_def split: if_split_asm)
  have "\<not> references_column n (co_name c) (snd x)" if "x \<in> set (tables db')" for x
  proof -
    have "\<not> references_column n (co_name c) t'"
      using no_reference [OF wf no map_of_SomeD [OF t(1)]] c no u(3)
      by (auto simp: references_column_def references_ok_def split: option.splits)
    moreover have "x = (n, t') \<or> x \<in> set (tables db)" using that set_put by (fastforce simp: db')
    ultimately show ?thesis using no_reference [OF wf no, of x] by (elim disjE) simp_all
  qed
  then show "wf_database db' \<and> run e [DropColumn n (co_name c)] db' = Some db"
    using wf' on_table_undo [OF wf t(1), where g = "drop_column (co_name c)", OF u(1)] by (simp add: db')
qed

lemma create_index_undo:
  assumes "wf_table t" and "create_index i ks u t = Some t'" and "i \<notin> ix_name ` set (tb_indexes t)"
  shows "drop_index i t' = Some t" and "wf_table t'" and "tb_columns t' = tb_columns t"
proof -
  have "filter (\<lambda>x. ix_name x \<noteq> i) (tb_indexes t) = tb_indexes t"
    using assms(3) by (auto simp: filter_id_conv)
  then show "drop_index i t' = Some t" and "wf_table t'" and "tb_columns t' = tb_columns t"
    using assms(1,2) by (simp_all add: create_index_def drop_index_def wf_table_def split: if_split_asm) force+
qed

lemma create_index_cases:
  assumes "wf_database db" and "exec e (CreateIndex i n ks u) db = Some db'"
  obtains t t' where "map_of (tables db) n = Some t" "create_index i ks u t = Some t'"
    "db' = db\<lparr>tables := put_table n t' (tables db)\<rparr>" "drop_index i t' = Some t" "wf_database db'"
proof -
  obtain t t' where t: "map_of (tables db) n = Some t" "create_index i ks u t = Some t'"
    and db': "db' = db\<lparr>tables := put_table n t' (tables db)\<rparr>" and i: "i \<notin> index_names db"
    using assms(2) by (auto simp: on_table_Some split: if_split_asm)
  have "i \<notin> ix_name ` set (tb_indexes t)" using i map_of_SomeD [OF t(1)] by (force simp: index_names_def)
  note c = create_index_undo [OF wf_lookup(1) [OF assms(1) t(1)] t(2) this]
  have "wf_database db'"
    unfolding db' using wf_lookup(2) [OF assms(1) t(1)] c(3) by (intro wf_put [OF assms(1) t(1) c(2)]) auto
  then show ?thesis using that t db' c(1) by blast
qed

lemma undoes_create_index: "undoes e [CreateIndex i n ks u] [DropIndex i n]"
  unfolding undoes_def
proof (intro allI impI, elim conjE)
  fix db db'
  assume wf: "wf_database db" and "run e [CreateIndex i n ks u] db = Some db'"
  then have "exec e (CreateIndex i n ks u) db = Some db'" by (simp only: run_single)
  with wf obtain t t' where "map_of (tables db) n = Some t"
    "db' = db\<lparr>tables := put_table n t' (tables db)\<rparr>" "drop_index i t' = Some t" "wf_database db'"
    by (rule create_index_cases)
  then show "wf_database db' \<and> run e [DropIndex i n] db' = Some db"
    using on_table_undo [OF wf] by (simp del: fun_upd_apply)
qed

text \<open>A new table, with the indexes made on it, goes away when it is dropped.\<close>

definition fresh_table :: "database \<Rightarrow> string \<Rightarrow> database \<Rightarrow> bool" where
  "fresh_table db n db' \<longleftrightarrow> n \<notin> fst ` set (tables db) \<and>
     (\<exists>t. db' = db\<lparr>tables := tables db @ [(n, t)]\<rparr> \<and> \<not> references_table n t)"

lemma fresh_table_drop:
  assumes "wf_database db" and "fresh_table db n db'"
  shows "exec e (DropTable n) db' = Some db"
proof -
  have "\<not> references_table n (snd x)" if "x \<in> set (tables db)" for x
  proof
    assume "references_table n (snd x)"
    then obtain k where "references_column n k (snd x)"
      by (force simp: references_table_def references_column_def split: option.split_asm prod.split_asm)
    moreover have "\<not> has_column (tables db) n k"
      using assms(2) by (auto simp: fresh_table_def has_column_iff dest!: map_of_SomeD) force
    ultimately show False using no_reference [OF assms(1) _ that] by blast
  qed
  moreover have "filter (\<lambda>x. fst x \<noteq> n) (tables db) = tables db"
    using assms(2) by (auto simp: fresh_table_def filter_id_conv)
  ultimately show ?thesis using assms(2) by (auto simp: fresh_table_def)
qed

lemma create_table_fresh:
  assumes "wf_database db" and "exec e (CreateTable n cs us) db = Some db'"
    and "\<forall>u \<in> set us. set (snd u) \<subseteq> co_name ` set cs"
  shows "fresh_table db n db' \<and> wf_database db'"
proof -
  let ?t = "\<lparr>tb_columns = cs, tb_indexes = [], tb_uniques = us, tb_rows = []\<rparr>"
  have n: "n \<notin> fst ` set (tables db)" and r: "references_ok (tables db) cs"
    and db': "db' = db\<lparr>tables := tables db @ [(n, ?t)]\<rparr>"
    using assms(2) by (auto simp: Let_def split: if_split_asm)
  have none: "\<not> has_column (tables db) n k" for k
    using n by (auto simp: has_column_iff dest!: map_of_SomeD) force
  have "\<not> references_table n ?t"
    using r none by (auto simp: references_table_def references_ok_def split: option.splits)
  moreover have "has_column (tables db @ [(n, ?t)]) m k" if "has_column (tables db) m k" for m k
    using that by (auto simp: has_column_iff map_add_def)
  then have "references_ok (tables db @ [(n, ?t)]) cs'" if "references_ok (tables db) cs'" for cs'
    using that by (fastforce simp: references_ok_def split: option.splits)
  ultimately show ?thesis
    using n r assms(1,3) by (auto simp: fresh_table_def db' wf_database_def wf_table_def)
qed

lemma put_append_fresh:
  "n \<notin> fst ` set ts \<Longrightarrow> put_table n t' (ts @ [(n, t)]) = ts @ [(n, t')]"
  by (auto simp: put_table_def intro!: map_idI) force

lemma index_fresh:
  assumes "wf_database db1" and "fresh_table db n db1" and "exec e (CreateIndex i n ks u) db1 = Some db2"
  shows "fresh_table db n db2 \<and> wf_database db2"
proof -
  obtain t where n: "n \<notin> fst ` set (tables db)" and t: "db1 = db\<lparr>tables := tables db @ [(n, t)]\<rparr>"
    and r: "\<not> references_table n t"
    using assms(2) by (auto simp: fresh_table_def)
  from assms(1,3) obtain s t' where s: "map_of (tables db1) n = Some s" "create_index i ks u s = Some t'"
    and db2: "db2 = db1\<lparr>tables := put_table n t' (tables db1)\<rparr>" and wf: "wf_database db2"
    by (rule create_index_cases)
  have "map_of (tables db) n = None" using n by (simp add: map_of_eq_None_iff)
  then have "s = t" using s(1) t by (simp add: map_add_def)
  then have "tb_columns t' = tb_columns t" using s(2) by (auto simp: create_index_def split: if_split_asm)
  then show ?thesis
    using n r wf by (auto simp: fresh_table_def db2 t put_append_fresh references_table_def)
qed

lemma undoes_create_table:
  assumes "\<forall>u \<in> set us. set (snd u) \<subseteq> co_name ` set cs"
  shows "undoes e (CreateTable n cs us # map (\<lambda>(i, ks, u). CreateIndex i n ks u) ixs) [DropTable n]"
  unfolding undoes_def
proof (intro allI impI, elim conjE)
  fix db db'
  assume wf: "wf_database db" and "run e (CreateTable n cs us # map (\<lambda>(i, ks, u). CreateIndex i n ks u) ixs) db = Some db'"
  then obtain db1 where c: "exec e (CreateTable n cs us) db = Some db1"
    and i: "run e (map (\<lambda>(i, ks, u). CreateIndex i n ks u) ixs) db1 = Some db'"
    by (auto simp del: exec.simps split: option.split_asm)
  have "fresh_table db n db' \<and> wf_database db'"
    using create_table_fresh [OF wf c assms] i
  proof (induction ixs arbitrary: db1)
    case (Cons x ixs)
    obtain i ks u where x: "x = (i, ks, u)" by (cases x)
    obtain db2 where "exec e (CreateIndex i n ks u) db1 = Some db2"
      "run e (map (\<lambda>(i, ks, u). CreateIndex i n ks u) ixs) db2 = Some db'"
      using Cons.prems(2) by (auto simp: x simp del: exec.simps split: option.split_asm)
    then show ?case using Cons.IH index_fresh Cons.prems(1) by blast
  qed simp
  then show "wf_database db' \<and> run e [DropTable n] db' = Some db"
    using fresh_table_drop [OF wf] by (simp add: run_single del: exec.simps run.simps)
qed

text \<open>Changes that are confined to one column vanish with the column.\<close>

definition confined :: "sql_env \<Rightarrow> string \<Rightarrow> string \<Rightarrow> operation \<Rightarrow> bool" where
  "confined e n k o1 \<longleftrightarrow> (\<forall>db db'. wf_database db \<and> exec e o1 db = Some db' \<longrightarrow>
     wf_database db' \<and> exec e (DropColumn n k) db' = exec e (DropColumn n k) db)"

lemma confinedI:
  assumes step: "\<And>db. exec e o1 db = on_table n f db"
    and f: "\<And>t t'. wf_table t \<Longrightarrow> f t = Some t' \<Longrightarrow> wf_table t' \<and> without_column k t' = without_column k t \<and>
      map co_name (tb_columns t') = map co_name (tb_columns t) \<and>
      map co_references (tb_columns t') = map co_references (tb_columns t)"
  shows "confined e n k o1"
  unfolding confined_def
proof (intro allI impI, elim conjE)
  fix db db'
  assume wf: "wf_database db" and r: "exec e o1 db = Some db'"
  obtain t t' where t: "map_of (tables db) n = Some t" "f t = Some t'"
    and db': "db' = db\<lparr>tables := put_table n t' (tables db)\<rparr>"
    using r by (auto simp: step on_table_Some)
  note ft = f [OF wf_lookup(1) [OF wf t(1)] t(2)]
  have names: "co_name ` set (tb_columns t') = co_name ` set (tb_columns t)"
    using ft by (metis list.set_map)
  have refs: "references_column m j t' = references_column m j t" "references_ok ts (tb_columns t') = references_ok ts (tb_columns t)"
    for m j ts
  proof -
    have "references_column m j x = (\<exists>c \<in> set (map co_references (tb_columns x)).
        case c of None \<Rightarrow> False | Some (a, b, _) \<Rightarrow> a = m \<and> b = j)" for x
      by (simp add: references_column_def)
    then show "references_column m j t' = references_column m j t" using ft by (simp only:)
    have "references_ok ts cs = (\<forall>c \<in> set (map co_references cs).
        case c of None \<Rightarrow> True | Some (a, b, _) \<Rightarrow> has_column ts a b)" for cs
      by (simp add: references_ok_def)
    then show "references_ok ts (tb_columns t') = references_ok ts (tb_columns t)" using ft by (simp only:)
  qed
  have wf': "wf_database db'"
    unfolding db' using wf_lookup(2) [OF wf t(1)] ft names by (intro wf_put [OF wf t(1)]) (simp_all add: refs)
  have "(\<exists>x \<in> set (tables db'). references_column n k (snd x)) \<longleftrightarrow> (\<exists>x \<in> set (tables db). references_column n k (snd x))"
  proof
    assume "\<exists>x \<in> set (tables db'). references_column n k (snd x)"
    then obtain x where x: "x \<in> set (put_table n t' (tables db))" "references_column n k (snd x)" by (auto simp: db')
    from set_put [OF x(1)] show "\<exists>x \<in> set (tables db). references_column n k (snd x)"
      using x(2) map_of_SomeD [OF t(1)] refs(1) by (metis snd_conv)
  next
    assume "\<exists>x \<in> set (tables db). references_column n k (snd x)"
    then obtain m y where y: "(m, y) \<in> set (tables db)" "references_column n k y" by auto
    have "(m, if m = n then t' else y) \<in> set (tables db')" using y(1) by (force simp: db' put_table_def)
    moreover have "m = n \<Longrightarrow> y = t" using y(1) t(1) wf by (simp add: wf_database_def)
    ultimately show "\<exists>x \<in> set (tables db'). references_column n k (snd x)" using y(2) refs(1) by (metis snd_conv)
  qed
  moreover have "n \<in> fst ` set (tables db)" using t(1) by (metis domI dom_map_of_conv_image_fst)
  ultimately show "wf_database db' \<and> exec e (DropColumn n k) db' = exec e (DropColumn n k) db"
    using wf' ft t(1) names by (simp add: db' on_table_def map_of_put drop_column_def)
qed

lemma set_cell_names [simp]: "map fst (set_cell k v r) = map fst r"
  by (simp add: set_cell_def case_prod_beta comp_def)

lemma filter_set_cell [simp]: "filter (\<lambda>x. fst x \<noteq> k) (set_cell k v r) = filter (\<lambda>x. fst x \<noteq> k) r"
  by (induction r) (auto simp: set_cell_def)

lemma confined_update: "confined e n k (UpdateColumn n k f p)"
proof (rule confinedI [where f = "update_column e k f p"])
  fix t t'
  assume wf: "wf_table t" and u: "update_column e k f p t = Some t'"
  define h where "h r = (if p r then set_cell k (f e r) r else r)" for r
  have h: "map fst (h r) = map fst r" "filter (\<lambda>x. fst x \<noteq> k) (h r) = filter (\<lambda>x. fst x \<noteq> k) r" for r
    by (simp_all add: h_def)
  have t': "t' = t\<lparr>tb_rows := map h (tb_rows t)\<rparr>"
    using u by (simp add: update_column_def Let_def h_def [abs_def] split: if_split_asm)
  show "wf_table t' \<and> without_column k t' = without_column k t \<and>
      map co_name (tb_columns t') = map co_name (tb_columns t) \<and>
      map co_references (tb_columns t') = map co_references (tb_columns t)"
    using wf by (simp add: t' h wf_table_def without_column_def comp_def)
qed simp

lemma confined_nullable: "confined e n k (AlterNullable n k b)"
proof (rule confinedI [where f = "alter_nullable k b"])
  fix t t'
  assume wf: "wf_table t" and a: "alter_nullable k b t = Some t'"
  define g where "g c = (if co_name c = k then c\<lparr>co_nullable := b\<rparr> else c)" for c :: column
  have g: "co_name (g c) = co_name c" "co_references (g c) = co_references c" "co_name c \<noteq> k \<Longrightarrow> g c = c" for c
    by (simp_all add: g_def)
  have t': "t' = t\<lparr>tb_columns := map g (tb_columns t)\<rparr>"
    using a by (auto simp: alter_nullable_def g_def [abs_def] split: if_split_asm)
  have "filter (\<lambda>c. co_name c \<noteq> k) (map g cs) = filter (\<lambda>c. co_name c \<noteq> k) cs" for cs
    by (induction cs) (auto simp: g)
  then show "wf_table t' \<and> without_column k t' = without_column k t \<and>
      map co_name (tb_columns t') = map co_name (tb_columns t) \<and>
      map co_references (tb_columns t') = map co_references (tb_columns t)"
    using wf unfolding t' wf_table_def without_column_def by (simp add: g comp_def image_image)
qed simp

lemma undoes_add_confined:
  assumes "\<forall>o1 \<in> set os. confined e n (co_name c) o1"
  shows "undoes e (AddColumn n c # os) [DropColumn n (co_name c)]"
  unfolding undoes_def
proof (intro allI impI, elim conjE)
  fix db db'
  assume wf: "wf_database db" and "run e (AddColumn n c # os) db = Some db'"
  then obtain db1 where a: "run e [AddColumn n c] db = Some db1" and r: "run e os db1 = Some db'"
    by (auto simp: run_single simp del: exec.simps split: option.split_asm)
  have "wf_database db1" "exec e (DropColumn n (co_name c)) db1 = Some db"
    using undoes_add_column [of e n c] wf a by (simp_all add: undoes_def run_single del: exec.simps run.simps)
  then have "wf_database db' \<and> exec e (DropColumn n (co_name c)) db' = Some db"
    using r assms
  proof (induction os arbitrary: db1)
    case (Cons o1 os)
    then obtain db2 where "exec e o1 db1 = Some db2" "run e os db2 = Some db'"
      by (auto simp del: exec.simps split: option.split_asm)
    moreover have "wf_database db2 \<and> exec e (DropColumn n (co_name c)) db2 = Some db"
      using Cons.prems(1,2,4) calculation(1) unfolding confined_def by (metis list.set_intros(1))
    ultimately show ?case using Cons.IH Cons.prems(4) by (metis list.set_intros(2))
  qed (simp del: exec.simps)
  then show "wf_database db' \<and> run e [DropColumn n (co_name c)] db' = Some db" by (simp only: run_single)
qed

text \<open>
  A column that was added next to an update of another column: dropping it leaves the update.
\<close>

lemma cell_append: "k \<noteq> k' \<Longrightarrow> cell k (r @ [(k', v)]) = cell k r"
  by (simp add: cell_def map_add_def split: option.split)

lemma distinct_values_add:
  assumes "k \<notin> set ks"
  shows "distinct_values ks (map (\<lambda>r. r @ [(k, v)]) rows) = distinct_values ks rows"
proof -
  have "map (\<lambda>c. cell c (r @ [(k, v)])) ks = map (\<lambda>c. cell c r) ks" for r
    using assms by (auto intro!: map_cong [OF refl] cell_append)
  then show ?thesis by (simp only: distinct_values_def map_map comp_def)
qed

lemma update_past_column:
  assumes "wf_table t" and "add_column e c t = Some t1" and "update_column e k f p t1 = Some t2" and "k \<noteq> co_name c"
    and "\<And>r v. p (r @ [(co_name c, v)]) = p r" "\<And>r v. f e (r @ [(co_name c, v)]) = f e r"
  shows "\<exists>t3. update_column e k f p t = Some t3 \<and> add_column e c t3 = Some t2 \<and> wf_table t3 \<and>
    tb_columns t3 = tb_columns t"
proof -
  define v where "v = default_value e c"
  define h where "h r = (if p r then set_cell k (f e r) r else r)" for r
  have t1: "t1 = t\<lparr>tb_columns := tb_columns t @ [c], tb_rows := map (\<lambda>r. r @ [(co_name c, v)]) (tb_rows t)\<rparr>"
    and n: "co_name c \<notin> co_name ` set (tb_columns t)" and d: "\<not> (\<not> co_nullable c \<and> v = SNull \<and> tb_rows t \<noteq> [])"
    using assms(2) by (auto simp: add_column_def v_def split: if_split_asm)
  have h: "h (r @ [(co_name c, v)]) = h r @ [(co_name c, v)]" for r
    using assms(4-6) by (simp add: h_def set_cell_def)
  let ?t3 = "t\<lparr>tb_rows := map h (tb_rows t)\<rparr>"
  have t2: "t2 = ?t3\<lparr>tb_columns := tb_columns t @ [c], tb_rows := map (\<lambda>r. r @ [(co_name c, v)]) (map h (tb_rows t))\<rparr>"
    and con: "constraints_hold t2"
    using assms(3) by (auto simp: update_column_def Let_def h_def [abs_def, symmetric] t1 comp_def h split: if_split_asm)
  have cells: "cell (co_name c') (r @ [(co_name c, v)]) = cell (co_name c') r" if "c' \<in> set (tb_columns t)" for c' r
    using that n by (intro cell_append) (metis imageI)
  have ixs: "co_name c \<notin> set (ix_columns i)" if "i \<in> set (tb_indexes t)" for i
    using assms(1) n that by (auto simp: wf_table_def)
  have uqs: "co_name c \<notin> set (snd u)" if "u \<in> set (tb_uniques t)" for u
    using assms(1) n that by (auto simp: wf_table_def)
  have "constraints_hold ?t3"
    using con cells by (auto simp: constraints_hold_def t2 distinct_values_add ixs uqs simp del: map_map)
  then have "update_column e k f p t = Some ?t3"
    by (simp add: update_column_def Let_def h_def [abs_def])
  moreover have "add_column e c ?t3 = Some t2" using n d by (auto simp: add_column_def t2 v_def)
  moreover have "map fst (h r) = map fst r" for r by (simp add: h_def)
  then have "wf_table ?t3" using assms(1) by (simp add: wf_table_def)
  ultimately show ?thesis by (intro exI [of _ ?t3]) simp
qed

lemma undo_add_keeps_update:
  assumes "wf_database db" and "run e [AddColumn n c, UpdateColumn n k f p] db = Some db'" and "k \<noteq> co_name c"
    and "\<And>r v. p (r @ [(co_name c, v)]) = p r" "\<And>r v. f e (r @ [(co_name c, v)]) = f e r"
  obtains db2 where "exec e (UpdateColumn n k f p) db = Some db2" "exec e (DropColumn n (co_name c)) db' = Some db2"
proof -
  obtain t t1 t2 where t: "map_of (tables db) n = Some t" "add_column e c t = Some t1" "update_column e k f p t1 = Some t2"
    and c: "references_ok (tables db) [c]" and db': "db' = db\<lparr>tables := put_table n t2 (tables db)\<rparr>"
  proof -
    obtain db1 where 1: "exec e (AddColumn n c) db = Some db1" "exec e (UpdateColumn n k f p) db1 = Some db'"
      using assms(2) by (auto simp del: exec.simps split: option.split_asm)
    obtain t t1 where t: "map_of (tables db) n = Some t" "add_column e c t = Some t1"
      "db1 = db\<lparr>tables := put_table n t1 (tables db)\<rparr>" "references_ok (tables db) [c]"
      using 1(1) by (auto simp: on_table_Some split: if_split_asm)
    have "n \<in> fst ` set (tables db)" using t(1) by (metis domI dom_map_of_conv_image_fst)
    then obtain t2 where "update_column e k f p t1 = Some t2" "db' = db\<lparr>tables := put_table n t2 (tables db)\<rparr>"
      using 1(2) t(3) by (auto simp: on_table_Some map_of_put)
    then show ?thesis using that t by blast
  qed
  obtain t3 where 3: "update_column e k f p t = Some t3" "add_column e c t3 = Some t2" "wf_table t3"
      "tb_columns t3 = tb_columns t"
    using update_past_column [OF wf_lookup(1) [OF assms(1) t(1)] t(2,3) assms(3-5)] by blast
  let ?db2 = "db\<lparr>tables := put_table n t3 (tables db)\<rparr>"
  have u: "exec e (UpdateColumn n k f p) db = Some ?db2" using t(1) 3(1) by (simp add: on_table_def)
  have wf2: "wf_database ?db2"
    using wf_lookup(2) [OF assms(1) t(1)] 3(4) by (intro wf_put [OF assms(1) t(1) 3(3)]) simp_all
  have "references_ok (tables ?db2) [c]"
    using c has_column_put [OF t(1), of t3] 3(4) by (auto simp: references_ok_def split: option.splits)
  then have "run e [AddColumn n c] ?db2 = Some db'"
    using on_table_after [OF t(1), of "add_column e c", OF 3(2)] by (simp add: db')
  then have "exec e (DropColumn n (co_name c)) db' = Some ?db2"
    using undoes_add_column [of e n c] wf2 unfolding undoes_def run_single by blast
  with u show ?thesis by (rule that)
qed

end
