(* ===== verification/Migrations.thy ===== *)
theory Migrations
  imports Sql_Schema
begin

text \<open>
  The schema migrations (\<open>alembic/versions\<close>), one list of operations per direction and revision, and
  the tables that the ORM classes declare (\<open>models/\<close>). The properties: the migrations build exactly
  the tables the code works with, and every revision can be taken back.
\<close>

section \<open>Columns\<close>

definition sa_column :: "string \<Rightarrow> sql_type \<Rightarrow> bool \<Rightarrow> sql_default option \<Rightarrow> column" where
  "sa_column n ty nullable d = \<lparr>co_name = n, co_type = ty, co_primary = False, co_nullable = nullable,
     co_default = d, co_references = None\<rparr>"

definition primary_column :: "string \<Rightarrow> sql_type \<Rightarrow> column" where
  "primary_column n ty = \<lparr>co_name = n, co_type = ty, co_primary = True, co_nullable = False,
     co_default = None, co_references = None\<rparr>"

definition foreign_column :: "string \<Rightarrow> sql_type \<Rightarrow> bool \<Rightarrow> string \<times> string \<times> on_delete \<Rightarrow> column" where
  "foreign_column n ty nullable r = \<lparr>co_name = n, co_type = ty, co_primary = False, co_nullable = nullable,
     co_default = None, co_references = Some r\<rparr>"

text \<open>\<open>'agent-' || substr(md5(id), 1, 12)\<close>\<close>

definition derived_slug :: "sql_env \<Rightarrow> row \<Rightarrow> sql_value" where
  "derived_slug e r = (case cell ''id'' r of SText i \<Rightarrow> SText (''agent-'' @ take 12 (md5 e i)) | _ \<Rightarrow> SNull)"

section \<open>The revisions\<close>

definition upgrade_0001 :: "operation list" where
  "upgrade_0001 =
    [CreateTable ''users''
       [primary_column ''id'' TUuid,
        sa_column ''email'' (TString 255) False None,
        sa_column ''password_hash'' (TString 255) False None,
        sa_column ''name'' (TString 255) False None,
        sa_column ''role'' TSmallInteger False (Some (Literal (SInt 0))),
        sa_column ''is_active'' TBoolean False (Some (Literal (SBool True))),
        sa_column ''created_at'' TDateTime False (Some Now),
        sa_column ''updated_at'' TDateTime False (Some Now)]
       [],
     CreateIndex ''ix_users_email'' ''users'' [''email''] True,
     CreateTable ''api_keys''
       [primary_column ''id'' TUuid,
        foreign_column ''user_id'' TUuid False (''users'', ''id'', Cascade),
        sa_column ''label'' (TString 128) False None,
        sa_column ''key_prefix'' (TString 16) False None,
        sa_column ''key_hash'' (TString 64) False None,
        sa_column ''scopes'' TStringArray False (Some (Literal (SArray []))),
        sa_column ''project_id'' (TString 64) True None,
        sa_column ''created_at'' TDateTime False (Some Now),
        sa_column ''last_used_at'' TDateTime True None,
        sa_column ''revoked_at'' TDateTime True None,
        sa_column ''expires_at'' TDateTime True None]
       [],
     CreateIndex ''ix_api_keys_user_id'' ''api_keys'' [''user_id''] False,
     CreateIndex ''ix_api_keys_key_hash'' ''api_keys'' [''key_hash''] True]"

definition downgrade_0001 :: "operation list" where
  "downgrade_0001 =
    [DropTable ''api_keys'',
     DropTable ''users'']"

definition upgrade_0002 :: "operation list" where
  "upgrade_0002 =
    [CreateTable ''agents''
       [primary_column ''id'' (TString 32),
        foreign_column ''user_id'' TUuid False (''users'', ''id'', Cascade),
        sa_column ''name'' (TString 128) False None,
        sa_column ''runtime'' (TString 32) False (Some (Literal (SText ''python3.12''))),
        sa_column ''framework'' (TString 32) False (Some (Literal (SText ''custom''))),
        sa_column ''model'' (TString 128) False (Some (Literal (SText ''gpt-4o''))),
        sa_column ''system_prompt'' TText True None,
        sa_column ''tags'' TStringArray False (Some (Literal (SArray []))),
        sa_column ''agent_metadata'' TJson False (Some (Literal (SJson ''{}''))),
        sa_column ''status'' (TString 32) False (Some (Literal (SText ''pending''))),
        sa_column ''error'' TText True None,
        sa_column ''url'' (TString 512) True None,
        sa_column ''version'' TInteger False (Some (Literal (SInt 1))),
        sa_column ''replicas'' TInteger False (Some (Literal (SInt 0))),
        sa_column ''cpu'' TFloat False (Some (Literal (SFloat 1))),
        sa_column ''memory_mb'' TInteger False (Some (Literal (SInt 512))),
        sa_column ''gpu'' TInteger False (Some (Literal (SInt 0))),
        sa_column ''gpu_type'' (TString 64) True None,
        sa_column ''disk_gb'' TInteger False (Some (Literal (SInt 10))),
        sa_column ''ephemeral_storage_gb'' TInteger False (Some (Literal (SInt 5))),
        sa_column ''env'' TJson False (Some (Literal (SJson ''[]''))),
        sa_column ''image'' (TString 512) True None,
        sa_column ''build_path'' (TString 512) True None,
        sa_column ''command'' (TString 512) True None,
        sa_column ''args'' TStringArray False (Some (Literal (SArray []))),
        sa_column ''health_check_path'' (TString 256) True None,
        sa_column ''auto_scale'' TBoolean False (Some (Literal (SBool False))),
        sa_column ''min_replicas'' TInteger False (Some (Literal (SInt 1))),
        sa_column ''max_replicas'' TInteger False (Some (Literal (SInt 10))),
        sa_column ''port'' TInteger False (Some (Literal (SInt 8080))),
        sa_column ''created_at'' TDateTime False (Some Now),
        sa_column ''updated_at'' TDateTime False (Some Now)]
       [],
     CreateIndex ''ix_agents_user_id'' ''agents'' [''user_id''] False]"

definition downgrade_0002 :: "operation list" where
  "downgrade_0002 =
    [DropTable ''agents'']"

definition upgrade_0003 :: "operation list" where
  "upgrade_0003 =
    [CreateExtension ''vector'']"

definition downgrade_0003 :: "operation list" where
  "downgrade_0003 =
    [DropExtension ''vector'']"

definition upgrade_0004 :: "operation list" where
  "upgrade_0004 =
    [AddColumn ''agents'' (sa_column ''slug'' (TString 63) True None),
     UpdateColumn ''agents'' ''slug'' derived_slug (\<lambda>r. cell ''slug'' r = SNull),
     AlterNullable ''agents'' ''slug'' False,
     CreateIndex ''ix_agents_slug'' ''agents'' [''slug''] True]"

definition downgrade_0004 :: "operation list" where
  "downgrade_0004 =
    [DropIndex ''ix_agents_slug'' ''agents'',
     DropColumn ''agents'' ''slug'']"

definition upgrade_0005 :: "operation list" where
  "upgrade_0005 =
    [CreateTable ''invites''
       [primary_column ''id'' TUuid,
        sa_column ''code_hash'' (TString 64) False None,
        sa_column ''code_prefix'' (TString 16) False None,
        sa_column ''note'' (TString 255) False (Some (Literal (SText ''''))),
        foreign_column ''created_by'' TUuid True (''users'', ''id'', SetNull),
        sa_column ''max_uses'' TInteger False (Some (Literal (SInt 1))),
        sa_column ''use_count'' TInteger False (Some (Literal (SInt 0))),
        sa_column ''expires_at'' TDateTime True None,
        sa_column ''revoked_at'' TDateTime True None,
        sa_column ''created_at'' TDateTime False (Some Now)]
       [],
     CreateIndex ''ix_invites_code_hash'' ''invites'' [''code_hash''] True]"

definition downgrade_0005 :: "operation list" where
  "downgrade_0005 =
    [DropTable ''invites'']"

definition upgrade_0006 :: "operation list" where
  "upgrade_0006 =
    [AddColumn ''users'' (sa_column ''plan'' (TString 32) False (Some (Literal (SText ''free'')))),
     UpdateColumn ''users'' ''role'' (\<lambda>_ _. SInt 1) (\<lambda>r. cell ''role'' r = SInt 0)]"

definition downgrade_0006 :: "operation list" where
  "downgrade_0006 =
    [DropColumn ''users'' ''plan'']"

definition upgrade_0007 :: "operation list" where
  "upgrade_0007 =
    [CreateTable ''usage_hours''
       [primary_column ''id'' TUuid,
        foreign_column ''user_id'' TUuid False (''users'', ''id'', Cascade),
        sa_column ''agent_id'' (TString 32) False None,
        sa_column ''hour_start'' TDateTime False None,
        sa_column ''replica_seconds'' TFloat False (Some (Literal (SFloat 0))),
        sa_column ''vcpu_seconds'' TFloat False (Some (Literal (SFloat 0))),
        sa_column ''memory_mb_seconds'' TFloat False (Some (Literal (SFloat 0)))]
       [(''uq_usage_hours_agent_hour'', [''agent_id'', ''hour_start''])],
     CreateIndex ''ix_usage_hours_user_id'' ''usage_hours'' [''user_id''] False,
     CreateIndex ''ix_usage_hours_hour_start'' ''usage_hours'' [''hour_start''] False]"

definition downgrade_0007 :: "operation list" where
  "downgrade_0007 =
    [DropTable ''usage_hours'']"

definition upgrade_0008 :: "operation list" where
  "upgrade_0008 =
    [AddColumn ''users'' (sa_column ''stripe_customer_id'' (TString 64) True None),
     AddColumn ''users'' (sa_column ''stripe_subscription_id'' (TString 64) True None),
     AddColumn ''users'' (sa_column ''subscription_status'' (TString 32) True None),
     CreateIndex ''ix_users_stripe_customer_id'' ''users'' [''stripe_customer_id''] True]"

definition downgrade_0008 :: "operation list" where
  "downgrade_0008 =
    [DropIndex ''ix_users_stripe_customer_id'' ''users'',
     DropColumn ''users'' ''subscription_status'',
     DropColumn ''users'' ''stripe_subscription_id'',
     DropColumn ''users'' ''stripe_customer_id'']"

definition upgrade_0009 :: "operation list" where
  "upgrade_0009 =
    [AddColumn ''agents'' (sa_column ''access'' (TString 16) False (Some (Literal (SText ''public'')))),
     AddColumn ''agents'' (sa_column ''rate_limit_rpm'' TInteger True None),
     AddColumn ''usage_hours'' (sa_column ''requests'' TBigInteger False (Some (Literal (SInt 0)))),
     CreateTable ''agent_access_keys''
       [primary_column ''id'' TUuid,
        foreign_column ''agent_id'' (TString 32) False (''agents'', ''id'', Cascade),
        sa_column ''label'' (TString 128) False None,
        sa_column ''key_prefix'' (TString 16) False None,
        sa_column ''key_hash'' (TString 64) False None,
        sa_column ''created_at'' TDateTime False (Some Now)]
       [],
     CreateIndex ''ix_agent_access_keys_agent_id'' ''agent_access_keys'' [''agent_id''] False,
     CreateIndex ''ix_agent_access_keys_key_hash'' ''agent_access_keys'' [''key_hash''] True]"

definition downgrade_0009 :: "operation list" where
  "downgrade_0009 =
    [DropTable ''agent_access_keys'',
     DropColumn ''usage_hours'' ''requests'',
     DropColumn ''agents'' ''rate_limit_rpm'',
     DropColumn ''agents'' ''access'']"

text \<open>The chain, as each file states it.\<close>

record revision =
  rv_revision :: string
  rv_down_revision :: "string option"
  rv_upgrade :: "operation list"
  rv_downgrade :: "operation list"

definition revision_0001 :: revision where
  "revision_0001 = \<lparr>rv_revision = ''0001'', rv_down_revision = None, rv_upgrade = upgrade_0001, rv_downgrade = downgrade_0001\<rparr>"

definition revision_0002 :: revision where
  "revision_0002 = \<lparr>rv_revision = ''0002'', rv_down_revision = Some ''0001'', rv_upgrade = upgrade_0002, rv_downgrade = downgrade_0002\<rparr>"

definition revision_0003 :: revision where
  "revision_0003 = \<lparr>rv_revision = ''0003'', rv_down_revision = Some ''0002'', rv_upgrade = upgrade_0003, rv_downgrade = downgrade_0003\<rparr>"

definition revision_0004 :: revision where
  "revision_0004 = \<lparr>rv_revision = ''0004'', rv_down_revision = Some ''0003'', rv_upgrade = upgrade_0004, rv_downgrade = downgrade_0004\<rparr>"

definition revision_0005 :: revision where
  "revision_0005 = \<lparr>rv_revision = ''0005'', rv_down_revision = Some ''0004'', rv_upgrade = upgrade_0005, rv_downgrade = downgrade_0005\<rparr>"

definition revision_0006 :: revision where
  "revision_0006 = \<lparr>rv_revision = ''0006'', rv_down_revision = Some ''0005'', rv_upgrade = upgrade_0006, rv_downgrade = downgrade_0006\<rparr>"

definition revision_0007 :: revision where
  "revision_0007 = \<lparr>rv_revision = ''0007'', rv_down_revision = Some ''0006'', rv_upgrade = upgrade_0007, rv_downgrade = downgrade_0007\<rparr>"

definition revision_0008 :: revision where
  "revision_0008 = \<lparr>rv_revision = ''0008'', rv_down_revision = Some ''0007'', rv_upgrade = upgrade_0008, rv_downgrade = downgrade_0008\<rparr>"

definition revision_0009 :: revision where
  "revision_0009 = \<lparr>rv_revision = ''0009'', rv_down_revision = Some ''0008'', rv_upgrade = upgrade_0009, rv_downgrade = downgrade_0009\<rparr>"

definition versions :: "revision list" where
  "versions = [revision_0001, revision_0002, revision_0003, revision_0004, revision_0005, revision_0006,
     revision_0007, revision_0008, revision_0009]"

definition empty_database :: database where
  "empty_database = \<lparr>tables = [], extensions = []\<rparr>"

definition upgrade_head :: "sql_env \<Rightarrow> database \<Rightarrow> database option" where
  "upgrade_head e db = run e (concat (map rv_upgrade versions)) db"

section \<open>The tables of the ORM\<close>

definition User_table :: table where
  "User_table = \<lparr>
     tb_columns =
       [primary_column ''id'' TUuid,
        sa_column ''email'' (TString 255) False None,
        sa_column ''password_hash'' (TString 255) False None,
        sa_column ''name'' (TString 255) False None,
        sa_column ''role'' TSmallInteger False None,
        sa_column ''plan'' (TString 32) False (Some (Literal (SText ''free''))),
        sa_column ''stripe_customer_id'' (TString 64) True None,
        sa_column ''stripe_subscription_id'' (TString 64) True None,
        sa_column ''subscription_status'' (TString 32) True None,
        sa_column ''is_active'' TBoolean False None,
        sa_column ''created_at'' TDateTime False (Some Now),
        sa_column ''updated_at'' TDateTime False (Some Now)],
     tb_indexes = [\<lparr>ix_name = ''ix_users_email'', ix_columns = [''email''], ix_unique = True\<rparr>,
       \<lparr>ix_name = ''ix_users_stripe_customer_id'', ix_columns = [''stripe_customer_id''], ix_unique = True\<rparr>],
     tb_uniques = [], tb_rows = []\<rparr>"

definition ApiKey_table :: table where
  "ApiKey_table = \<lparr>
     tb_columns =
       [primary_column ''id'' TUuid,
        foreign_column ''user_id'' TUuid False (''users'', ''id'', Cascade),
        sa_column ''label'' (TString 128) False None,
        sa_column ''key_prefix'' (TString 16) False None,
        sa_column ''key_hash'' (TString 64) False None,
        sa_column ''scopes'' TStringArray False None,
        sa_column ''project_id'' (TString 64) True None,
        sa_column ''created_at'' TDateTime False (Some Now),
        sa_column ''last_used_at'' TDateTime True None,
        sa_column ''revoked_at'' TDateTime True None,
        sa_column ''expires_at'' TDateTime True None],
     tb_indexes = [\<lparr>ix_name = ''ix_api_keys_user_id'', ix_columns = [''user_id''], ix_unique = False\<rparr>,
       \<lparr>ix_name = ''ix_api_keys_key_hash'', ix_columns = [''key_hash''], ix_unique = True\<rparr>],
     tb_uniques = [], tb_rows = []\<rparr>"

definition Agent_table :: table where
  "Agent_table = \<lparr>
     tb_columns =
       [primary_column ''id'' (TString 32),
        foreign_column ''user_id'' TUuid False (''users'', ''id'', Cascade),
        sa_column ''slug'' (TString 63) False None,
        sa_column ''name'' (TString 128) False None,
        sa_column ''runtime'' (TString 32) False None,
        sa_column ''framework'' (TString 32) False None,
        sa_column ''model'' (TString 128) False None,
        sa_column ''system_prompt'' TText True None,
        sa_column ''tags'' TStringArray False None,
        sa_column ''agent_metadata'' TJson False None,
        sa_column ''status'' (TString 32) False None,
        sa_column ''error'' TText True None,
        sa_column ''url'' (TString 512) True None,
        sa_column ''version'' TInteger False None,
        sa_column ''access'' (TString 16) False (Some (Literal (SText ''public''))),
        sa_column ''rate_limit_rpm'' TInteger True None,
        sa_column ''replicas'' TInteger False None,
        sa_column ''cpu'' TFloat False None,
        sa_column ''memory_mb'' TInteger False None,
        sa_column ''gpu'' TInteger False None,
        sa_column ''gpu_type'' (TString 64) True None,
        sa_column ''disk_gb'' TInteger False None,
        sa_column ''ephemeral_storage_gb'' TInteger False None,
        sa_column ''env'' TJson False None,
        sa_column ''image'' (TString 512) True None,
        sa_column ''build_path'' (TString 512) True None,
        sa_column ''command'' (TString 512) True None,
        sa_column ''args'' TStringArray False None,
        sa_column ''health_check_path'' (TString 256) True None,
        sa_column ''auto_scale'' TBoolean False None,
        sa_column ''min_replicas'' TInteger False None,
        sa_column ''max_replicas'' TInteger False None,
        sa_column ''port'' TInteger False None,
        sa_column ''created_at'' TDateTime False (Some Now),
        sa_column ''updated_at'' TDateTime False (Some Now)],
     tb_indexes = [\<lparr>ix_name = ''ix_agents_user_id'', ix_columns = [''user_id''], ix_unique = False\<rparr>,
       \<lparr>ix_name = ''ix_agents_slug'', ix_columns = [''slug''], ix_unique = True\<rparr>],
     tb_uniques = [], tb_rows = []\<rparr>"

definition Invite_table :: table where
  "Invite_table = \<lparr>
     tb_columns =
       [primary_column ''id'' TUuid,
        sa_column ''code_hash'' (TString 64) False None,
        sa_column ''code_prefix'' (TString 16) False None,
        sa_column ''note'' (TString 255) False None,
        foreign_column ''created_by'' TUuid True (''users'', ''id'', SetNull),
        sa_column ''max_uses'' TInteger False None,
        sa_column ''use_count'' TInteger False None,
        sa_column ''expires_at'' TDateTime True None,
        sa_column ''revoked_at'' TDateTime True None,
        sa_column ''created_at'' TDateTime False (Some Now)],
     tb_indexes = [\<lparr>ix_name = ''ix_invites_code_hash'', ix_columns = [''code_hash''], ix_unique = True\<rparr>],
     tb_uniques = [], tb_rows = []\<rparr>"

definition UsageHour_table :: table where
  "UsageHour_table = \<lparr>
     tb_columns =
       [primary_column ''id'' TUuid,
        foreign_column ''user_id'' TUuid False (''users'', ''id'', Cascade),
        sa_column ''agent_id'' (TString 32) False None,
        sa_column ''hour_start'' TDateTime False None,
        sa_column ''replica_seconds'' TFloat False None,
        sa_column ''vcpu_seconds'' TFloat False None,
        sa_column ''memory_mb_seconds'' TFloat False None,
        sa_column ''requests'' TBigInteger False None],
     tb_indexes = [\<lparr>ix_name = ''ix_usage_hours_user_id'', ix_columns = [''user_id''], ix_unique = False\<rparr>,
       \<lparr>ix_name = ''ix_usage_hours_hour_start'', ix_columns = [''hour_start''], ix_unique = False\<rparr>],
     tb_uniques = [(''uq_usage_hours_agent_hour'', [''agent_id'', ''hour_start''])], tb_rows = []\<rparr>"

definition AgentAccessKey_table :: table where
  "AgentAccessKey_table = \<lparr>
     tb_columns =
       [primary_column ''id'' TUuid,
        foreign_column ''agent_id'' (TString 32) False (''agents'', ''id'', Cascade),
        sa_column ''label'' (TString 128) False None,
        sa_column ''key_prefix'' (TString 16) False None,
        sa_column ''key_hash'' (TString 64) False None,
        sa_column ''created_at'' TDateTime False (Some Now)],
     tb_indexes = [\<lparr>ix_name = ''ix_agent_access_keys_agent_id'', ix_columns = [''agent_id''], ix_unique = False\<rparr>,
       \<lparr>ix_name = ''ix_agent_access_keys_key_hash'', ix_columns = [''key_hash''], ix_unique = True\<rparr>],
     tb_uniques = [], tb_rows = []\<rparr>"

definition orm_tables :: "(string \<times> table) list" where
  "orm_tables = [(''users'', User_table), (''api_keys'', ApiKey_table), (''agents'', Agent_table),
     (''invites'', Invite_table), (''usage_hours'', UsageHour_table), (''agent_access_keys'', AgentAccessKey_table)]"

text \<open>
  Two tables are the same up to the order of columns and to defaults, which the ORM may fill in
  itself; a default that the ORM declares for the server is the server's.
\<close>

definition shape :: "column \<Rightarrow> string \<times> sql_type \<times> bool \<times> bool \<times> (string \<times> string \<times> on_delete) option" where
  "shape c = (co_name c, co_type c, co_primary c, co_nullable c, co_references c)"

definition same_table :: "table \<Rightarrow> table \<Rightarrow> bool" where
  "same_table t m \<longleftrightarrow> set (map shape (tb_columns t)) = set (map shape (tb_columns m)) \<and>
     length (tb_columns t) = length (tb_columns m) \<and>
     set (tb_indexes t) = set (tb_indexes m) \<and> set (tb_uniques t) = set (tb_uniques m) \<and>
     (\<forall>c \<in> set (tb_columns m). co_default c = None \<or>
        (\<exists>c' \<in> set (tb_columns t). co_name c' = co_name c \<and> co_default c' = co_default c))"

definition matches_orm :: "database \<Rightarrow> bool" where
  "matches_orm db \<longleftrightarrow> list_all2 (\<lambda>x y. fst x = fst y \<and> same_table (snd x) (snd y)) (tables db) orm_tables"

section \<open>Lemmas\<close>

lemma column_names [simp]:
  "co_name (sa_column n ty b d) = n" "co_name (primary_column n ty) = n" "co_name (foreign_column n ty b r) = n"
  by (simp_all add: sa_column_def primary_column_def foreign_column_def)

lemmas undoes_table1 = undoes_create_table [where ixs = "[(i, ks, u)]" for i ks u, simplified]
lemmas undoes_table2 = undoes_create_table [where ixs = "[(i, ks, u), (i', ks', u')]" for i ks u i' ks' u', simplified]

lemma undoes_split:
  assumes "undoes e (take m os) (drop k us)" and "undoes e (drop m os) (take k us)"
  shows "undoes e os us"
  using undoes_append [OF assms] by simp

lemma undoes_0001: "undoes e upgrade_0001 downgrade_0001"
proof (rule undoes_split [where m = 2 and k = 1])
  show "undoes e (take 2 upgrade_0001) (drop 1 downgrade_0001)"
    unfolding upgrade_0001_def downgrade_0001_def by (simp add: undoes_table1)
  show "undoes e (drop 2 upgrade_0001) (take 1 downgrade_0001)"
    unfolding upgrade_0001_def downgrade_0001_def by (simp add: undoes_table2)
qed

lemma undoes_0002: "undoes e upgrade_0002 downgrade_0002"
  unfolding upgrade_0002_def downgrade_0002_def by (simp add: undoes_table1)

lemma undoes_0004: "undoes e upgrade_0004 downgrade_0004"
proof (rule undoes_split [where m = 3 and k = 1])
  show "undoes e (take 3 upgrade_0004) (drop 1 downgrade_0004)"
    using undoes_add_confined [of _ e "''agents''" "sa_column ''slug'' (TString 63) True None"]
    unfolding upgrade_0004_def downgrade_0004_def by (simp add: confined_update confined_nullable)
  show "undoes e (drop 3 upgrade_0004) (take 1 downgrade_0004)"
    unfolding upgrade_0004_def downgrade_0004_def by (simp add: undoes_create_index)
qed

lemma undoes_0005: "undoes e upgrade_0005 downgrade_0005"
  unfolding upgrade_0005_def downgrade_0005_def by (simp add: undoes_table1)

lemma undoes_0007: "undoes e upgrade_0007 downgrade_0007"
  unfolding upgrade_0007_def downgrade_0007_def by (simp add: undoes_table2)

lemma undoes_column: "co_name c = k \<Longrightarrow> undoes e [AddColumn n c] [DropColumn n k]"
  using undoes_add_column by blast

lemma undoes_columns:
  assumes "co_name c = k" and "undoes e os us"
  shows "undoes e (AddColumn n c # os) (us @ [DropColumn n k])"
  using undoes_append [OF undoes_column [OF assms(1)] assms(2), of n] by simp

lemma undoes_0008: "undoes e upgrade_0008 downgrade_0008"
proof -
  let ?c = "\<lambda>n k. sa_column n (TString k) True None"
  have "undoes e (AddColumn ''users'' (?c ''stripe_customer_id'' 64) #
      AddColumn ''users'' (?c ''stripe_subscription_id'' 64) # AddColumn ''users'' (?c ''subscription_status'' 32) #
      [CreateIndex ''ix_users_stripe_customer_id'' ''users'' [''stripe_customer_id''] True])
    ((([DropIndex ''ix_users_stripe_customer_id'' ''users''] @ [DropColumn ''users'' ''subscription_status'']) @
      [DropColumn ''users'' ''stripe_subscription_id'']) @ [DropColumn ''users'' ''stripe_customer_id''])"
    by (intro undoes_columns undoes_create_index column_names)
  then show ?thesis by (simp add: upgrade_0008_def downgrade_0008_def)
qed

lemma undoes_0009: "undoes e upgrade_0009 downgrade_0009"
proof -
  have 1: "undoes e (drop 3 upgrade_0009) [DropTable ''agent_access_keys'']"
    unfolding upgrade_0009_def by (simp add: undoes_table2)
  have "undoes e (take 3 upgrade_0009 @ drop 3 upgrade_0009)
      (((([DropTable ''agent_access_keys''] @ [DropColumn ''usage_hours'' ''requests'']) @
        [DropColumn ''agents'' ''rate_limit_rpm'']) @ [DropColumn ''agents'' ''access'']))"
    using undoes_columns [OF column_names(1) undoes_columns [OF column_names(1) undoes_columns [OF column_names(1) 1]]]
    unfolding upgrade_0009_def by (simp add: numeral_eq_Suc)
  then show ?thesis by (simp add: downgrade_0009_def)
qed

text \<open>The update of 0006, on its own.\<close>

definition promote_viewers :: "sql_env \<Rightarrow> database \<Rightarrow> database option" where
  "promote_viewers e db = exec e (UpdateColumn ''users'' ''role'' (\<lambda>_ _. SInt 1) (\<lambda>r. cell ''role'' r = SInt 0)) db"

lemma undo_0006:
  assumes "wf_database db" and "run e upgrade_0006 db = Some db'"
  shows "\<exists>db2. promote_viewers e db = Some db2 \<and> run e downgrade_0006 db' = Some db2"
proof -
  let ?c = "sa_column ''plan'' (TString 32) False (Some (Literal (SText ''free'')))"
  obtain db2 where "exec e (UpdateColumn ''users'' ''role'' (\<lambda>_ _. SInt 1) (\<lambda>r. cell ''role'' r = SInt 0)) db = Some db2"
    "exec e (DropColumn ''users'' (co_name ?c)) db' = Some db2"
    using assms(2) unfolding upgrade_0006_def
    by (rule undo_add_keeps_update [OF assms(1)]) (simp_all add: cell_append)
  then show ?thesis by (simp add: promote_viewers_def downgrade_0006_def run_single del: exec.simps run.simps)
qed

lemma undo_0003:
  assumes "run e upgrade_0003 db = Some db'"
  shows "run e downgrade_0003 db' = Some (db\<lparr>extensions := removeAll ''vector'' (extensions db)\<rparr>)"
  using assms by (auto simp: upgrade_0003_def downgrade_0003_def List.insert_def)

lemma revision_fields [simp]:
  "rv_revision revision_0001 = ''0001''" "rv_upgrade revision_0001 = upgrade_0001" "rv_downgrade revision_0001 = downgrade_0001"
  "rv_revision revision_0002 = ''0002''" "rv_upgrade revision_0002 = upgrade_0002" "rv_downgrade revision_0002 = downgrade_0002"
  "rv_revision revision_0003 = ''0003''" "rv_upgrade revision_0003 = upgrade_0003" "rv_downgrade revision_0003 = downgrade_0003"
  "rv_revision revision_0004 = ''0004''" "rv_upgrade revision_0004 = upgrade_0004" "rv_downgrade revision_0004 = downgrade_0004"
  "rv_revision revision_0005 = ''0005''" "rv_upgrade revision_0005 = upgrade_0005" "rv_downgrade revision_0005 = downgrade_0005"
  "rv_revision revision_0006 = ''0006''" "rv_upgrade revision_0006 = upgrade_0006" "rv_downgrade revision_0006 = downgrade_0006"
  "rv_revision revision_0007 = ''0007''" "rv_upgrade revision_0007 = upgrade_0007" "rv_downgrade revision_0007 = downgrade_0007"
  "rv_revision revision_0008 = ''0008''" "rv_upgrade revision_0008 = upgrade_0008" "rv_downgrade revision_0008 = downgrade_0008"
  "rv_revision revision_0009 = ''0009''" "rv_upgrade revision_0009 = upgrade_0009" "rv_downgrade revision_0009 = downgrade_0009"
  by (simp_all add: revision_0001_def revision_0002_def revision_0003_def revision_0004_def revision_0005_def
      revision_0006_def revision_0007_def revision_0008_def revision_0009_def)

lemma versions_undone:
  "list_all (\<lambda>rv. rv = revision_0006 \<or> rv = revision_0003 \<or>
     rv_revision rv \<notin> {''0006'', ''0003''} \<and> undoes e (rv_upgrade rv) (rv_downgrade rv)) versions"
  by (simp add: versions_def undoes_0001 undoes_0002 undoes_0004 undoes_0005 undoes_0007 undoes_0008 undoes_0009)

lemma head_matches: "(case upgrade_head e empty_database of None \<Rightarrow> False | Some db \<Rightarrow> wf_database db \<and> matches_orm db)"
  by code_simp

section \<open>Properties\<close>

text \<open>
  C34: the migrations build the tables the code works with. From an empty database all nine revisions
  run through, each following the one it names as its predecessor, and the result has exactly the
  six tables of the ORM classes, with the same columns, types, nullability, primary and foreign keys
  and what happens on deletion, the same indexes and unique constraints, and every server default
  the classes declare.
\<close>

theorem migrations_match_models:
  "(\<exists>db. upgrade_head e empty_database = Some db \<and> wf_database db \<and> matches_orm db) \<and>
   map rv_down_revision versions = None # map (Some \<circ> rv_revision) (butlast versions)"
proof -
  have "map rv_down_revision versions = None # map (Some \<circ> rv_revision) (butlast versions)"
    by (simp add: versions_def revision_0001_def revision_0002_def revision_0003_def revision_0004_def
        revision_0005_def revision_0006_def revision_0007_def revision_0008_def revision_0009_def)
  then show ?thesis using head_matches [of e] by (simp split: option.split_asm)
qed

text \<open>
  C35: every migration can be taken back, and loses nothing. On any database with any rows, if a
  revision's upgrade succeeds then its downgrade succeeds and gives back the very same database,
  rows included; with two exceptions: the roles that revision 0006 raises stay raised (as its
  comment says), and the vector extension is removed by the downgrade of 0003 even if it had been
  there before.
\<close>

theorem migrations_reversible:
  assumes "rv \<in> set versions" and "wf_database db" and "run e (rv_upgrade rv) db = Some db'"
  shows "\<exists>db2. run e (rv_downgrade rv) db' = Some db2 \<and>
    (if rv_revision rv = ''0006'' then promote_viewers e db = Some db2
     else if rv_revision rv = ''0003'' then db2 = db\<lparr>extensions := removeAll ''vector'' (extensions db)\<rparr>
     else db2 = db)"
proof -
  consider "rv = revision_0006" | "rv = revision_0003"
    | "rv_revision rv \<notin> {''0006'', ''0003''}" "undoes e (rv_upgrade rv) (rv_downgrade rv)"
    using versions_undone [of e] assms(1) by (auto simp only: list_all_iff)
  then show ?thesis
  proof cases
    case 1
    then show ?thesis using undo_0006 [OF assms(2), of e db'] assms(3) by simp blast
  next
    case 2
    then show ?thesis using undo_0003 [of e db db'] assms(3) by simp
  next
    case 3
    then show ?thesis using assms(2,3) by (simp add: undoes_def)
  qed
qed

text \<open>An agents table with one agent, upgraded to have slugs and taken back.\<close>

definition sample_database :: database where
  "sample_database = \<lparr>tables = [(''agents'', \<lparr>tb_columns = [primary_column ''id'' (TString 32)], tb_indexes = [],
     tb_uniques = [], tb_rows = [[(''id'', SText ''a1'')]]\<rparr>)], extensions = []\<rparr>"

definition sample_env :: sql_env where
  "sample_env = \<lparr>md5 = (\<lambda>s. ''0123456789abcdef''), now_time = 0\<rparr>"

definition sample_upgraded :: database where
  "sample_upgraded = the (run sample_env upgrade_0004 sample_database)"

theorem migrations_reversible_witness:
  "map (tb_rows \<circ> snd) (tables sample_upgraded) = [[[(''id'', SText ''a1''), (''slug'', SText ''agent-0123456789ab'')]]] \<and>
   run sample_env downgrade_0004 sample_upgraded = Some sample_database"
proof -
  have rv: "revision_0004 \<in> set versions" by (simp add: versions_def)
  have wf: "wf_database sample_database" by code_simp
  have up: "run sample_env (rv_upgrade revision_0004) sample_database = Some sample_upgraded"
    unfolding revision_fields sample_upgraded_def by code_simp
  have "map (tb_rows \<circ> snd) (tables sample_upgraded) =
      [[[(''id'', SText ''a1''), (''slug'', SText ''agent-0123456789ab'')]]]"
    by code_simp
  then show ?thesis using migrations_reversible [OF rv wf up] by simp
qed

end
