(* ===== verification/Application.thy ===== *)
theory Application
  imports Gateway_System Request_Context
begin

text \<open>
  The application as \<open>main.py\<close> puts it together: what \<open>create_app\<close> configures once the guard has
  passed, and the life of one process in \<open>lifespan\<close>. A process
  starts with an empty count of pending requests and a runtime that is reconciled with the containers
  found, runs requests and scheduler ticks in any order, and at the end cancels the scheduler and
  flushes once more. The cancellation may meet the scheduler asleep or at any point of a tick where
  it waits; \<open>CancelledError\<close> is no \<open>Exception\<close>, so no handler of the tick runs.
\<close>

section \<open>The application (main.create\_app)\<close>

datatype app_middleware =
    CORSMiddleware "string list" bool "string list" "string list"
      \<comment> \<open>origins, credentials, methods, headers\<close>
  | RequestContextMiddleware

datatype app_router =
    HealthRouter | AuthRouter | ApiKeysRouter | AdminRouter | AccountRouter | BillingRouter | AgentsRouter
  | IngressRouter

text \<open>The middleware is listed from the outside in: \<open>add_middleware\<close> wraps what is there.\<close>

record app =
  ap_logging :: log_config
  ap_sentry :: "sentry_options option"
  ap_middleware :: "app_middleware list"
  ap_routers :: "app_router list"

definition add_middleware :: "app_middleware \<Rightarrow> app \<Rightarrow> app" where
  "add_middleware m a = a\<lparr>ap_middleware := m # ap_middleware a\<rparr>"

definition include_router :: "app_router \<Rightarrow> app \<Rightarrow> app" where
  "include_router r a = a\<lparr>ap_routers := ap_routers a @ [r]\<rparr>"

definition build_app :: "settings \<Rightarrow> config_problem list + app" where
  "build_app st = (case create_app st of
     Inl problems \<Rightarrow> Inl problems
   | Inr cfg \<Rightarrow>
       let a0 = \<lparr>ap_logging = configure_logging cfg, ap_sentry = init_error_reporting cfg,
                 ap_middleware = [], ap_routers = []\<rparr>;
           a1 = add_middleware (CORSMiddleware (cors_allow_origins cfg) True [''*''] [''*'']) a0;
           a2 = add_middleware RequestContextMiddleware a1
       in Inr (fold include_router [HealthRouter, AuthRouter, ApiKeysRouter, AdminRouter, AccountRouter,
                 BillingRouter, AgentsRouter, IngressRouter] a2))"

section \<open>Cancelling the scheduler\<close>

text \<open>
  \<open>flush_requests\<close> cancelled while it waits for the database: the batch has been taken, and the handler
  that would put it back catches \<open>Exception\<close> only. \<open>committed\<close> says whether the database had carried
  out the commit by then.
\<close>

definition cancelled_flush :: "bool \<Rightarrow> db \<Rightarrow> counter \<Rightarrow> db \<times> counter" where
  "cancelled_flush committed d pending =
     (let (batch, pending') = take_batch pending in
      (if committed then fst (finish_flush None batch d pending') else d, pending'))"

text \<open>
  The states in which the body of a tick's loop can be left for one agent: while it waits for the
  health check (whose thread runs on), for the commit of what was seen, for the commit of the metered
  time, for the quota, or for the runtime to scale.
\<close>

definition agent_stops :: "'r platform \<Rightarrow> rat \<Rightarrow> timestamp \<Rightarrow> agent \<Rightarrow> 'r service \<Rightarrow> 'r service list" where
  "agent_stops pf secs now ag s =
     s # (case rt_health_check pf (a_id ag) (sv_rt s) of
       (rt', Inl e) \<Rightarrow> [s\<lparr>sv_rt := rt'\<rparr>]
     | (rt', Inr h) \<Rightarrow>
         let ag1 = observe h ag;
             live = int (live_replicas h);
             s1 = commit_agent (a_id ag) (observe h) (s\<lparr>sv_rt := rt'\<rparr>)
         in [s\<lparr>sv_rt := rt'\<rparr>, s1] @
            (if a_status ag1 \<in> {''running'', ''scaling''} \<and> live > 0
             then case record_usage ag1 live secs now (sv_db s1) of Inl e \<Rightarrow> [] | Inr d2 \<Rightarrow> [s1\<lparr>sv_db := d2\<rparr>]
             else [])) @ [fst (tick_agent pf secs now ag s)]"

fun agents_stops :: "'r platform \<Rightarrow> rat \<Rightarrow> timestamp \<Rightarrow> agent list \<Rightarrow> 'r service \<Rightarrow> 'r service list" where
  "agents_stops pf secs now [] s = [s]"
| "agents_stops pf secs now (ag # ags) s = agent_stops pf secs now ag s @
     (case tick_agent pf secs now ag s of
        (s', Inl e) \<Rightarrow> []
      | (s', Inr _) \<Rightarrow> agents_stops pf secs now ags s')"

text \<open>
  Where the cancellation meets the scheduler: between two ticks, in the flush of a tick, or later in
  a tick (the arguments of the tick, and which of its states it is left in, counted cyclically).
\<close>

datatype stop_point =
    Asleep
  | InFlush bool
  | InAgents "rat option" timestamp "flush_fault option" nat

fun cancel_scheduler :: "settings \<Rightarrow> 'r platform \<Rightarrow> stop_point \<Rightarrow> 'r process \<Rightarrow> 'r process" where
  "cancel_scheduler st pf Asleep p = p"
| "cancel_scheduler st pf (InFlush committed) p =
     (let (d, pending) = cancelled_flush committed (sv_db (pr_service p)) (pr_pending p) in
      \<lparr>pr_service = (pr_service p)\<lparr>sv_db := d\<rparr>, pr_pending = pending\<rparr>)"
| "cancel_scheduler st pf (InAgents elapsed now fault i) p =
     (let (d1, pending1, _) = flush_requests fault (sv_db (pr_service p)) (pr_pending p);
          active = filter (\<lambda>a. a_status a \<in> set SCHEDULED_STATUSES) (agents d1);
          stops = agents_stops pf (tick_seconds st elapsed) now active ((pr_service p)\<lparr>sv_db := d1\<rparr>)
      in \<lparr>pr_service = stops ! (i mod length stops), pr_pending = pending1\<rparr>)"

section \<open>The life of a process (main.lifespan)\<close>

text \<open>\<open>AgentRuntime\<close> is the constructor of the core's runtime.\<close>

definition startup :: "settings \<Rightarrow> 'r platform \<Rightarrow> (core_settings \<Rightarrow> 'r) \<Rightarrow> db \<Rightarrow> 'r process" where
  "startup st pf AgentRuntime d =
     \<lparr>pr_service = \<lparr>sv_db = d, sv_rt = startup_reconcile pf (AgentRuntime (build_core_runtime st))\<rparr>,
      pr_pending = []\<rparr>"

definition serve ::
  "settings \<Rightarrow> crypto \<Rightarrow> core_auth \<Rightarrow> 'r platform \<Rightarrow> (core_settings \<Rightarrow> 'r) \<Rightarrow> db \<Rightarrow> gateway_event list \<Rightarrow> 'r process" where
  "serve st cr ca pf AgentRuntime d evs = run_steps (gateway_step st cr ca pf) (startup st pf AgentRuntime d) evs"

definition lifespan ::
  "settings \<Rightarrow> crypto \<Rightarrow> core_auth \<Rightarrow> 'r platform \<Rightarrow> (core_settings \<Rightarrow> 'r) \<Rightarrow> db \<Rightarrow> gateway_event list \<Rightarrow>
   stop_point \<Rightarrow> flush_fault option \<Rightarrow> 'r process" where
  "lifespan st cr ca pf AgentRuntime d evs stop fault =
     shutdown_flush fault (cancel_scheduler st pf stop (serve st cr ca pf AgentRuntime d evs))"

text \<open>The requests routed to an agent in an hour.\<close>

fun routed_to :: "string \<times> timestamp \<Rightarrow> gateway_event \<Rightarrow> bool" where
  "routed_to b (Routed ag now) \<longleftrightarrow> (a_id ag, hour_start now) = b"
| "routed_to b _ \<longleftrightarrow> False"

text \<open>Requests are routed to agents that are stored at the time (\<open>routers/ingress.py\<close> looks them up).\<close>

fun routes_stored ::
  "settings \<Rightarrow> crypto \<Rightarrow> core_auth \<Rightarrow> 'r platform \<Rightarrow> 'r process \<Rightarrow> gateway_event list \<Rightarrow> bool" where
  "routes_stored st cr ca pf p [] \<longleftrightarrow> True"
| "routes_stored st cr ca pf p (ev # evs) \<longleftrightarrow>
     (case ev of Routed ag now \<Rightarrow> ag \<in> set (agents (db_of p)) | _ \<Rightarrow> True) \<and>
     routes_stored st cr ca pf (gateway_step st cr ca pf p ev) evs"

text \<open>
  How far the requests of a bucket that are written or pending drift from those counted, because of
  flushes whose rollback raises (less) or whose commit goes through although it raises (more).
\<close>

definition event_drift :: "string \<times> timestamp \<Rightarrow> 'r process \<Rightarrow> gateway_event \<Rightarrow> int" where
  "event_drift b p ev = (case ev of
     Agents (Tick elapsed now fault) \<Rightarrow> flush_drift fault (pr_pending p) b | _ \<Rightarrow> 0)"

fun run_drift ::
  "settings \<Rightarrow> crypto \<Rightarrow> core_auth \<Rightarrow> 'r platform \<Rightarrow> string \<times> timestamp \<Rightarrow> 'r process \<Rightarrow> gateway_event list \<Rightarrow> int" where
  "run_drift st cr ca pf b p [] = 0"
| "run_drift st cr ca pf b p (ev # evs) =
     event_drift b p ev + run_drift st cr ca pf b (gateway_step st cr ca pf p ev) evs"

definition stop_drift :: "string \<times> timestamp \<Rightarrow> 'r process \<Rightarrow> stop_point \<Rightarrow> int" where
  "stop_drift b p stop = (case stop of
     InAgents elapsed now fault i \<Rightarrow> flush_drift fault (pr_pending p) b | _ \<Rightarrow> 0)"

text \<open>Flushes that fail only in the way the code provides for: a statement raises and is rolled back.\<close>

definition plain_event :: "gateway_event \<Rightarrow> bool" where
  "plain_event ev \<longleftrightarrow> (case ev of Agents (Tick elapsed now fault) \<Rightarrow> plain_fault fault | _ \<Rightarrow> True)"

definition plain_stop :: "stop_point \<Rightarrow> bool" where
  "plain_stop stop \<longleftrightarrow> (case stop of InAgents elapsed now fault i \<Rightarrow> plain_fault fault | _ \<Rightarrow> True)"

lemma drift_simps [simp]:
  "event_drift b p (Agents (Tick elapsed now fault)) = flush_drift fault (pr_pending p) b"
  "event_drift b p (Agents (Request x)) = 0" "event_drift b p (Signup e) = 0" "event_drift b p (ChangeUser u) = 0"
  "event_drift b p (ApiKeys k) = 0" "event_drift b p (AccessKeys a) = 0" "event_drift b p (StripeDelivery dl) = 0"
  "event_drift b p (Checkout cl t creds) = 0" "event_drift b p (Routed ag t) = 0"
  "stop_drift b p Asleep = 0" "stop_drift b p (InFlush committed) = 0"
  "stop_drift b p (InAgents elapsed now fault i) = flush_drift fault (pr_pending p) b"
  by (simp_all add: event_drift_def stop_drift_def)

lemma plain_run: "list_all plain_event evs \<Longrightarrow> run_drift st cr ca pf b p evs = 0"
  by (induction evs arbitrary: p)
    (auto simp: plain_event_def event_drift_def split: gateway_event.split gw_event.split)

lemma plain_stop_drift: "plain_stop stop \<Longrightarrow> stop_drift b p stop = 0"
  by (cases stop) (simp_all add: plain_stop_def)

section \<open>Lemmas on the wiring\<close>

text \<open>The request id is assigned outside CORS, and errors are reported without request bodies.\<close>

lemma build_app_shape:
  assumes "build_app st = Inr a"
  shows "production_config_problems st = []" and "hd (ap_middleware a) = RequestContextMiddleware"
    and "set (ap_routers a) = UNIV" and "distinct (ap_routers a)"
    and "ap_sentry a = Some o1 \<Longrightarrow> \<not> sn_send_default_pii o1 \<and> sn_max_request_body_size o1 = ''never''"
proof -
  have "create_app st = Inr st" and p: "production_config_problems st = []"
    using assms by (auto simp: build_app_def create_app_def Let_def split: if_split_asm)
  then have a: "a = \<lparr>ap_logging = configure_logging st, ap_sentry = init_error_reporting st,
      ap_middleware = [RequestContextMiddleware, CORSMiddleware (cors_allow_origins st) True [''*''] [''*'']],
      ap_routers = [HealthRouter, AuthRouter, ApiKeysRouter, AdminRouter, AccountRouter,
        BillingRouter, AgentsRouter, IngressRouter]\<rparr>"
    using assms by (simp add: build_app_def add_middleware_def include_router_def)
  show "production_config_problems st = []" by (rule p)
  show "hd (ap_middleware a) = RequestContextMiddleware" "distinct (ap_routers a)" by (simp_all add: a)
  show "set (ap_routers a) = UNIV" by (auto simp: a intro: app_router.exhaust)
  show "ap_sentry a = Some o1 \<Longrightarrow> \<not> sn_send_default_pii o1 \<and> sn_max_request_body_size o1 = ''never''"
    by (auto simp: a init_error_reporting_def split: if_split_asm)
qed

section \<open>Lemmas on counted requests\<close>

text \<open>The requests of a bucket that are written or pending, and a process that can write them all.\<close>

definition accounted :: "string \<times> timestamp \<Rightarrow> 'r process \<Rightarrow> int" where
  "accounted b p = written_requests (db_of p) b + held_requests (pr_pending p) b"

definition payable :: "db \<Rightarrow> counter \<Rightarrow> bool" where
  "payable d c \<longleftrightarrow> (\<forall>k \<in> fst ` set c. fst (snd k) \<in> u_id ` set (users d))"

lemma payable_filter: "payable d c \<Longrightarrow> filter (\<lambda>x. fst (snd (fst x)) \<in> u_id ` set (users d)) c = c"
  by (simp add: payable_def)

lemma payable_Nil [simp]: "payable d []"
  by (simp add: payable_def)

lemma payable_update: "payable d (counter_update c x) \<longleftrightarrow> payable d c \<and> payable d x"
  unfolding payable_def keys_counter_update by blast

lemma flush_accounted:
  assumes "db_wf d" and "payable d c" and "flush_requests fault d c = (d', c', r)"
  shows "written_requests d' b + held_requests c' b =
      written_requests d b + held_requests c b + flush_drift fault c b"
    and "db_wf d'" and "users d' = users d" and "payable d' c'" and "fault = None \<Longrightarrow> c' = []"
proof -
  have f: "finish_flush fault c d [] = (d', c', r)"
    using assms(3) by (simp add: flush_requests_def take_batch_def)
  note e = finish_flush_effect [OF assms(1) f]
  show "db_wf d'" and u: "users d' = users d" by (rule e(1), rule e(2))
  show "payable d' c'" using e(3) assms(2) unfolding payable_def u by (simp, blast)
  show "fault = None \<Longrightarrow> c' = []" by (rule e(5))
  have "\<forall>k \<in> fst ` set c. key_bucket k = b \<longrightarrow> fst (snd k) \<in> u_id ` set (users d)"
    using assms(2) unfolding payable_def by blast
  from e(4) [OF this] show "written_requests d' b + held_requests c' b =
      written_requests d b + held_requests c b + flush_drift fault c b" by simp
qed

text \<open>A change that leaves the metered hours and the accounts alone, but for new accounts.\<close>

definition unmetered :: "db \<Rightarrow> db \<Rightarrow> bool" where
  "unmetered d d' \<longleftrightarrow> usage_hours d' = usage_hours d \<and> u_id ` set (users d) \<subseteq> u_id ` set (users d')"

text \<open>A change of metered time that counts no requests.\<close>

definition uncounted :: "db \<Rightarrow> db \<Rightarrow> bool" where
  "uncounted d d' \<longleftrightarrow> (\<forall>b. written_requests d' b = written_requests d b) \<and> users d' = users d \<and>
     (db_wf d \<longrightarrow> db_wf d')"

lemma uncounted_refl [simp]: "uncounted d d"
  by (simp add: uncounted_def)

lemma uncountedD: "uncounted d d' \<Longrightarrow> written_requests d' b = written_requests d b" "uncounted d d' \<Longrightarrow> users d' = users d"
  unfolding uncounted_def by blast+

lemma uncounted_trans: "uncounted d d1 \<Longrightarrow> uncounted d1 d2 \<Longrightarrow> uncounted d d2"
  by (simp add: uncounted_def)

lemma uncounted_set_agent: "uncounted d (set_agent (a_id ag) (observe h) d)"
  by (simp add: uncounted_def written_requests_def set_agent_wf)

lemma record_uncounted: "record_usage ag n secs now d = Inr d' \<Longrightarrow> uncounted d d'"
  by (auto simp: uncounted_def record_usage_def upsert_written upsert_frame split: if_split_asm
      dest: upsert_wf)

lemmas observe_then_record = uncounted_trans [OF uncounted_set_agent record_uncounted]

lemma tick_agent_uncounted:
  assumes "tick_agent pf secs now ag s = (s', r)"
  shows "uncounted (sv_db s) (sv_db s')"
proof -
  obtain rt' x where x: "rt_health_check pf (a_id ag) (sv_rt s) = (rt', x)" by fastforce
  show ?thesis
  proof (cases x)
    case (Inl e)
    then show ?thesis using assms x by (auto simp: tick_agent_def)
  next
    case (Inr h)
    let ?d1 = "set_agent (a_id ag) (observe h) (sv_db s)"
    have "sv_db s' = ?d1 \<or> record_usage (observe h ag) (int (live_replicas h)) secs now ?d1 = Inr (sv_db s')"
      using assms x Inr unfolding tick_agent_def Let_def
      by (auto elim!: check_then_cases split: if_split_asm)
    then show ?thesis using observe_then_record uncounted_set_agent by metis
  qed
qed

lemma agent_stops_uncounted: "list_all (\<lambda>s'. uncounted (sv_db s) (sv_db s')) (agent_stops pf secs now ag s)"
proof -
  obtain t r where t: "tick_agent pf secs now ag s = (t, r)" by fastforce
  obtain rt' x where x: "rt_health_check pf (a_id ag) (sv_rt s) = (rt', x)" by fastforce
  note last = tick_agent_uncounted [OF t]
  show ?thesis
  proof (cases x)
    case (Inl e)
    then show ?thesis using x t last by (simp add: agent_stops_def)
  next
    case (Inr h)
    then show ?thesis
      using x t last uncounted_set_agent [of "sv_db s" ag h]
      by (simp add: agent_stops_def Let_def commit_agent_def observe_then_record split: sum.split)
  qed
qed

lemma agents_stops_uncounted: "list_all (\<lambda>s'. uncounted (sv_db s) (sv_db s')) (agents_stops pf secs now ags s)"
proof (induction ags arbitrary: s)
  case (Cons ag ags)
  obtain t r where t: "tick_agent pf secs now ag s = (t, r)" by fastforce
  have "list_all (\<lambda>s'. uncounted (sv_db s) (sv_db s')) (agents_stops pf secs now ags t)"
    using Cons.IH [of t] tick_agent_uncounted [OF t] by (auto elim!: list.pred_mono_strong intro: uncounted_trans)
  then show ?case
    using agent_stops_uncounted [of s pf secs now ag] t by (simp split: sum.split)
qed simp

lemma tick_agents_uncounted: "tick_agents pf secs now ags s = (s', r) \<Longrightarrow> uncounted (sv_db s) (sv_db s')"
proof (induction ags arbitrary: s)
  case (Cons ag ags)
  obtain t x where t: "tick_agent pf secs now ag s = (t, x)" by fastforce
  then show ?case
    using Cons tick_agent_uncounted [OF t] by (cases x) (auto intro: uncounted_trans)
qed simp

lemma agents_stops_nonempty [simp]: "agents_stops pf secs now ags s \<noteq> []"
  by (cases ags) (simp_all add: agent_stops_def)

text \<open>All requests but ticks leave the metered hours alone.\<close>

lemma unmetered_refl [simp]: "unmetered d d"
  by (simp add: unmetered_def)

lemma unmetered_ids: "usage_hours d' = usage_hours d \<Longrightarrow> map u_id (users d') = map u_id (users d) \<Longrightarrow> unmetered d d'"
  unfolding unmetered_def by (metis list.set_map order_refl)

lemma reg_step_unmetered: "unmetered d (reg_step st cr ca d ev)"
proof -
  have claim: "claim_invite cr now code d = Inr (d1, i) \<Longrightarrow> usage_hours d1 = usage_hours d" for now code d1 i
    by (auto simp: claim_invite_def result_simps set_invite_def split: option.splits if_splits)
  have ins: "insert_user u d1 = Inr d2 \<Longrightarrow> usage_hours d2 = usage_hours d1" for u d1 d2
    by (auto simp: insert_user_def split: if_splits)
  have "usage_hours (reg_step st cr ca d ev) = usage_hours d"
  proof (cases ev)
    case (CreateInvite i t now by_user memo n days)
    then show ?thesis by (auto simp: reg_step_def dest!: create_invite_effect(1) split: sum.split)
  next
    case (RevokeInvite now i)
    then show ?thesis by (auto simp: reg_step_def revoke_invite_def set_invite_def split: sum.split option.split)
  next
    case (Register dr su)
    have "register_user st cr ca dr su d = Inr (d', u) \<Longrightarrow> usage_hours d' = usage_hours d" for d' u
      by (erule register_user_cases) (use claim ins in metis)
    then show ?thesis using Register by (auto simp: reg_step_def split: sum.split)
  qed
  then show ?thesis using reg_step_users [of st cr ca d ev] by (auto simp: unmetered_def)
qed

lemma admin_step_unmetered: "unmetered d (admin_step st cr ca d q)"
proof -
  obtain d' out where u: "update_user st cr ca (ur_now q) (ur_creds q) (ur_user q) (ur_body q) d = (d', out)"
    by (metis prod.exhaust)
  then have "unmetered d d'"
  proof (rule update_user_cases)
    fix p u u'
    assume "get_user d (ur_user q) = Some u" "apply_update ca (ur_body q) u = Inr u'" and d': "d' = set_user (ur_user q) (\<lambda>_. u') d"
    then have "u_id u' = ur_user q"
      using get_row_Some [of u_id "ur_user q" "users d" u] apply_update_effect(1) by (metis get_user_def)
    then show ?thesis
      by (intro unmetered_ids) (auto simp: d' set_user_def update_row_def)
  qed simp
  then show ?thesis by (simp add: admin_step_def u)
qed

lemma untouched_unmetered: "untouched d d' \<Longrightarrow> unmetered d d'"
proof -
  assume u: "untouched d d'"
  have "map u_id us = map fst (map access_of us)" for us by (simp add: access_of_def)
  then have "map u_id (users d') = map u_id (users d)"
    using untouched_access [OF u] by (simp only: same_access_def)
  then show ?thesis using u by (intro unmetered_ids) (simp_all add: untouched_def)
qed

lemma key_steps_unmetered: "unmetered d (api_key_step ca d ev)" "unmetered d (access_key_step cr d ev')"
  by (rule unmetered_ids; cases ev; cases ev';
      auto simp: key_step_def issue_api_key_def withdraw_api_key_def revoke_api_key_def issue_access_key_def
        withdraw_access_key_def delete_access_key_def remove_agent_row_def remove_access_key_row_def delete_row_def
        result_simps set_api_key_def dest!: create_api_key_effect(2) create_access_key_effect(2)
        split: sum.split prod.split option.split option.split_asm if_split_asm access_withdrawal.split)+

definition counts_kept :: "string \<times> timestamp \<Rightarrow> int \<Rightarrow> 'r process \<Rightarrow> 'r process \<Rightarrow> bool" where
  "counts_kept b n p p' \<longleftrightarrow> accounted b p' = accounted b p + n \<and> payable (db_of p') (pr_pending p') \<and>
     u_id ` set (users (db_of p)) \<subseteq> u_id ` set (users (db_of p'))"

lemma counts_kept_trans: "counts_kept b n p p1 \<Longrightarrow> counts_kept b m p1 p2 \<Longrightarrow> counts_kept b (n + m) p p2"
  unfolding counts_kept_def by (simp, blast)

lemma unmetered_counts:
  "unmetered (db_of p) (db_of p') \<Longrightarrow> pr_pending p' = pr_pending p \<Longrightarrow> payable (db_of p) (pr_pending p) \<Longrightarrow>
   counts_kept b 0 p p'"
  by (auto simp: counts_kept_def accounted_def unmetered_def written_requests_def payable_def)

lemma tick_counts:
  assumes "db_wf (db_of p)" and "payable (db_of p) (pr_pending p)"
  shows "counts_kept b (flush_drift fault (pr_pending p) b) p (fst (tick st pf elapsed now fault p))"
proof -
  obtain p' r where t: "tick st pf elapsed now fault p = (p', r)" by fastforce
  then show ?thesis
  proof (rule tick_split)
    fix d1 c' x s2
    assume f: "flush_requests fault (db_of p) (pr_pending p) = (d1, c', x)"
      and a: "tick_agents pf (tick_seconds st elapsed) now
        (filter (\<lambda>a. a_status a \<in> set SCHEDULED_STATUSES) (agents d1)) ((pr_service p)\<lparr>sv_db := d1\<rparr>) = (s2, r)"
      and p': "p' = \<lparr>pr_service = s2, pr_pending = c'\<rparr>"
    show ?thesis
      using flush_accounted(1) [OF assms f, of b] flush_accounted(3,4) [OF assms f]
        uncountedD [OF tick_agents_uncounted [OF a]]
      by (simp add: t p' counts_kept_def accounted_def payable_def)
  qed
qed

lemma agents_step_counts:
  assumes "db_wf (db_of p)" and "payable (db_of p) (pr_pending p)"
  shows "counts_kept b (event_drift b p (Agents ev)) p (admitted_step st pf p ev)"
proof (cases ev)
  case (Request x)
  have "unmetered (db_of p) (sv_db (svc_step pf (pr_service p) x))"
    using svc_step_only [of x "pr_service p" pf] by (intro unmetered_ids) (simp_all add: only_agent_def)
  then show ?thesis
    using assms(2) unfolding Request drift_simps by (intro unmetered_counts) (simp_all add: admitted_step_def)
next
  case (Tick e now fault)
  then show ?thesis using tick_counts [OF assms] by (simp add: admitted_step_def)
qed

lemma step_counts:
  assumes "db_wf (db_of p)" and "payable (db_of p) (pr_pending p)"
    and "\<And>ag now. ev = Routed ag now \<Longrightarrow> ag \<in> set (agents (db_of p))"
  shows "counts_kept b ((if routed_to b ev then 1 else 0) + event_drift b p ev) p (gateway_step st cr ca pf p ev)"
proof -
  have db: "(\<And>d. unmetered d (f d)) \<Longrightarrow> counts_kept b 0 p (on_db f p)" for f
    using assms(2) by (intro unmetered_counts) (simp_all add: on_db_def)
  note writes = db [OF reg_step_unmetered] db [OF admin_step_unmetered] db [OF key_steps_unmetered(1)]
    db [OF key_steps_unmetered(2)] db [OF untouched_unmetered [OF billing_step_untouched]]
    db [OF untouched_unmetered [OF checkout_kept [THEN conjunct1]]]
  show ?thesis
  proof (cases ev)
    case (Routed ag now)
    have "a_user_id ag \<in> u_id ` set (users (db_of p))"
      using assms(1) assms(3) [OF Routed] by (auto simp: db_wf_def refs_wf_def)
    then have "payable (db_of p) (count_request ag now (pr_pending p))"
      using assms(2) by (simp add: payable_def count_request_def keys_counter_add)
    then show ?thesis
      by (auto simp: Routed counts_kept_def accounted_def held_count key_bucket_def)
  next
    case (Signup x)
    then show ?thesis using writes(1) unmetered_counts [OF unmetered_refl refl assms(2)] by simp
  next
    case (Agents x)
    then show ?thesis using agents_step_counts [OF assms(1,2)] by simp
  qed (use writes in simp_all)
qed

lemma run_counts:
  assumes "gateway_ok x ca p" and "payable (db_of p) (pr_pending p)"
    and "routes_stored st cr ca pf p evs"
  shows "counts_kept b (int (length (filter (routed_to b) evs)) + run_drift st cr ca pf b p evs) p
    (run_steps (gateway_step st cr ca pf) p evs)"
  using assms
proof (induction evs arbitrary: p)
  case (Cons ev evs)
  let ?q = "gateway_step st cr ca pf p ev"
  have wf: "db_wf (db_of p)" using Cons.prems(1) by (simp add: gateway_ok_def invites_ok_def)
  have s: "counts_kept b ((if routed_to b ev then 1 else 0) + event_drift b p ev) p ?q"
    using Cons.prems(3) by (intro step_counts wf Cons.prems(2)) auto
  then have "counts_kept b (int (length (filter (routed_to b) evs)) + run_drift st cr ca pf b ?q evs) ?q
      (run_steps (gateway_step st cr ca pf) ?q evs)"
    using Cons.prems(3) by (intro Cons.IH gateway_ok_step Cons.prems(1)) (auto simp: counts_kept_def)
  from counts_kept_trans [OF s this] show ?case by (simp add: algebra_simps split: if_split_asm)
qed (simp add: counts_kept_def)

text \<open>The end of a process: whatever is not cancelled in mid flush is still accounted for.\<close>

lemma shutdown_counts:
  assumes "db_wf (db_of p)" and "payable (db_of p) (pr_pending p)"
  shows "accounted b (shutdown_flush fault p) = accounted b p + flush_drift fault (pr_pending p) b"
    and "fault = None \<Longrightarrow> pr_pending (shutdown_flush fault p) = []"
proof -
  obtain d1 c' r where f: "flush_requests fault (db_of p) (pr_pending p) = (d1, c', r)" by (metis prod_cases3)
  show "accounted b (shutdown_flush fault p) = accounted b p + flush_drift fault (pr_pending p) b" "fault = None \<Longrightarrow> pr_pending (shutdown_flush fault p) = []"
    using flush_accounted(1) [OF assms f, of b] flush_accounted(5) [OF assms f]
    unfolding shutdown_flush_def f accounted_def by simp_all
qed

definition lost_requests :: "stop_point \<Rightarrow> counter \<Rightarrow> string \<times> timestamp \<Rightarrow> int" where
  "lost_requests stop pending b = (if stop = InFlush False then held_requests pending b else 0)"

lemma cancel_counts:
  assumes "db_wf (db_of p)" and "payable (db_of p) (pr_pending p)" and q_def: "q = cancel_scheduler st pf stop p"
  shows "accounted b q = accounted b p - lost_requests stop (pr_pending p) b + stop_drift b p stop \<and> db_wf (db_of q) \<and>
    payable (db_of q) (pr_pending q)"
proof (cases stop)
  case (InFlush committed)
  obtain d1 r where f: "finish_flush None (pr_pending p) (db_of p) [] = (d1, [], r)" "db_wf d1"
    "\<And>b. written_requests d1 b = written_requests (db_of p) b + held_requests (pr_pending p) b"
    using finish_flush_ok [OF assms(1), of "pr_pending p" "[]"] payable_filter [OF assms(2)] by auto
  then show ?thesis
    using assms(1) by (simp add: q_def InFlush cancelled_flush_def take_batch_def accounted_def lost_requests_def)
next
  case (InAgents elapsed now fault i)
  obtain d1 c' r where f: "flush_requests fault (db_of p) (pr_pending p) = (d1, c', r)" by (metis prod_cases3)
  let ?stops = "agents_stops pf (tick_seconds st elapsed) now
    (filter (\<lambda>a. a_status a \<in> set SCHEDULED_STATUSES) (agents d1)) ((pr_service p)\<lparr>sv_db := d1\<rparr>)"
  define s where "s = ?stops ! (i mod length ?stops)"
  have "i mod length ?stops < length ?stops" by simp
  then have u: "uncounted d1 (sv_db s)"
    using agents_stops_uncounted [of "(pr_service p)\<lparr>sv_db := d1\<rparr>"] by (simp add: list_all_length s_def)
  have q: "q = \<lparr>pr_service = s, pr_pending = c'\<rparr>" by (simp add: q_def InAgents f Let_def s_def)
  have "db_wf (sv_db s)" using u flush_accounted(2) [OF assms(1,2) f] by (simp add: uncounted_def)
  then show ?thesis
    using flush_accounted(1) [OF assms(1,2) f, of b] flush_accounted(4) [OF assms(1,2) f]
    by (simp add: q InAgents accounted_def lost_requests_def uncountedD [OF u] payable_def)
qed (use assms in \<open>simp add: lost_requests_def\<close>)

section \<open>Properties\<close>

text \<open>
  C8: a restart loses no request, unless it meets a flush. Over the whole life of a process, with any
  requests and ticks, wherever the cancellation meets the scheduler and however flushes fail, as long
  as a failed one is rolled back: every request routed to a stored agent is, after the shutdown,
  written to its hour, or still pending because the last flush failed, except when the cancellation
  hit a flush that had not yet committed. Then exactly the batch of that flush is lost: it has been
  taken from the pending counts, the cancellation is not an \<open>Exception\<close> and so does not put it back,
  and the last flush of the shutdown does not see it. For flushes whose rollback raises as well, or
  whose commit goes through although it raises, the sum is off by exactly their batches.
\<close>

theorem restart_accounts_requests:
  assumes "role_laws ca" and "invites_ok d" and "rows_ok d"
    and "routes_stored st cr ca pf (startup st pf AgentRuntime d) evs"
    and p: "p = serve st cr ca pf AgentRuntime d evs"
    and q: "q = lifespan st cr ca pf AgentRuntime d evs stop fault"
  shows "written_requests (db_of q) b + held_requests (pr_pending q) b +
      (if stop = InFlush False then held_requests (pr_pending p) b else 0) =
      written_requests d b + int (length (filter (routed_to b) evs)) +
      run_drift st cr ca pf b (startup st pf AgentRuntime d) evs + stop_drift b p stop +
      flush_drift fault (pr_pending (cancel_scheduler st pf stop p)) b \<and>
    (list_all plain_event evs \<and> plain_stop stop \<and> plain_fault fault \<longrightarrow>
      written_requests (db_of q) b + held_requests (pr_pending q) b +
      (if stop = InFlush False then held_requests (pr_pending p) b else 0) =
      written_requests d b + int (length (filter (routed_to b) evs))) \<and>
    (fault = None \<longrightarrow> pr_pending q = [])"
proof -
  let ?p0 = "startup st pf AgentRuntime d" and ?c = "cancel_scheduler st pf stop p"
  have "gateway_ok (has_admin ca d) ca ?p0" using assms(1-3) by (simp add: gateway_ok_def startup_def)
  then have "gateway_ok (has_admin ca d) ca p"
    and k: "counts_kept b (int (length (filter (routed_to b) evs)) + run_drift st cr ca pf b ?p0 evs) ?p0 p"
    using assms(4) unfolding p serve_def by (auto intro!: sys.run_keeps run_counts simp: startup_def)
  then have wf: "db_wf (db_of p)" and pay: "payable (db_of p) (pr_pending p)"
    by (simp_all add: gateway_ok_def invites_ok_def counts_kept_def)
  note c = cancel_counts [OF wf pay refl, of b st pf stop]
  have q': "q = shutdown_flush fault ?c" by (simp add: q p lifespan_def)
  have sum: "written_requests (db_of q) b + held_requests (pr_pending q) b +
      (if stop = InFlush False then held_requests (pr_pending p) b else 0) =
      written_requests d b + int (length (filter (routed_to b) evs)) + run_drift st cr ca pf b ?p0 evs +
      stop_drift b p stop + flush_drift fault (pr_pending ?c) b"
    using c shutdown_counts(1) [of ?c b fault] k q'
    by (auto simp: accounted_def counts_kept_def lost_requests_def startup_def)
  moreover have "fault = None \<longrightarrow> pr_pending q = []" using c shutdown_counts(2) [of ?c fault] q' by blast
  ultimately show ?thesis by (simp add: plain_run plain_stop_drift)
qed

theorem restart_accounts_requests_witness:
  "written_requests (db_of (lifespan default_settings sample_crypto sample_core_auth sample_platform (\<lambda>c. [])
      sample_db [Routed sample_agent 3, Routed sample_agent 5] Asleep None)) (''agent-1'', 0) = 2 \<and>
   written_requests (db_of (lifespan default_settings sample_crypto sample_core_auth sample_platform (\<lambda>c. [])
      sample_db [Routed sample_agent 3, Routed sample_agent 5] (InFlush False) None)) (''agent-1'', 0) = 0"
proof -
  let ?evs = "[Routed sample_agent 3, Routed sample_agent 5]"
  have ok: "invites_ok sample_db" "rows_ok sample_db"
    using sample_process_ok by (simp_all add: sample_process_def sample_service_def)
  have r: "routes_stored default_settings sample_crypto sample_core_auth sample_platform
      (startup default_settings sample_platform (\<lambda>c. []) sample_db) ?evs"
    by (simp add: startup_def sample_db_def)
  have e: "int (length (filter (routed_to (''agent-1'', 0)) ?evs)) = 2" "written_requests sample_db (''agent-1'', 0) = 0"
    "held_requests (pr_pending (serve default_settings sample_crypto sample_core_auth sample_platform (\<lambda>c. [])
      sample_db ?evs)) (''agent-1'', 0) = 2"
    by code_simp+
  show ?thesis
    using restart_accounts_requests [OF sample_role_laws ok r refl refl, of Asleep None "(''agent-1'', 0)"]
      restart_accounts_requests [OF sample_role_laws ok r refl refl, of "InFlush False" None "(''agent-1'', 0)"] e
    by (auto simp: plain_event_def plain_stop_def plain_fault_def)
qed

end
