(* ===== verification/Request_Bodies.thy ===== *)
theory Request_Bodies
  imports Migrations Agent_Service
begin

text \<open>
  Request bodies and the columns they end up in. The constraints of the pydantic models that the
  other theories do not hold (\<open>schemas/auth.py\<close>, \<open>invites.py\<close>, \<open>api_keys.py\<close>, \<open>agents.py\<close>), and what Postgres
  stores in the columns that the ORM classes declare: the rows made from accepted bodies are written
  out column by column and compared with the tables of \<open>Migrations\<close>.
\<close>

section \<open>Bodies (schemas)\<close>

text \<open>\<open>EmailStr\<close> is checked by a library, the parameter \<open>email_ok\<close>.\<close>

definition valid_register_request :: "(string \<Rightarrow> bool) \<Rightarrow> signup \<Rightarrow> bool" where
  "valid_register_request email_ok b \<longleftrightarrow> email_ok (su_email b) \<and>
     8 \<le> length (su_password b) \<and> length (su_password b) \<le> 72 \<and>
     1 \<le> length (su_name b) \<and> length (su_name b) \<le> 255 \<and>
     (case su_invite_code b of None \<Rightarrow> True | Some code \<Rightarrow> length code \<le> 128)"

definition valid_login_request :: "(string \<Rightarrow> bool) \<Rightarrow> string \<Rightarrow> string \<Rightarrow> bool" where
  "valid_login_request email_ok email password \<longleftrightarrow> email_ok email \<and> 1 \<le> length password \<and> length password \<le> 72"

definition valid_invite_request :: "string \<Rightarrow> int \<Rightarrow> int option \<Rightarrow> bool" where
  "valid_invite_request memo max_uses expires_in_days \<longleftrightarrow> length memo \<le> 255 \<and> 1 \<le> max_uses \<and> max_uses \<le> 1000 \<and>
     (case expires_in_days of None \<Rightarrow> True | Some n \<Rightarrow> 1 \<le> n \<and> n \<le> 365)"

definition valid_api_key_request :: "string \<Rightarrow> bool" where
  "valid_api_key_request label \<longleftrightarrow> 1 \<le> length label \<and> length label \<le> 128"

definition valid_access_key_request :: "string \<Rightarrow> bool" where
  "valid_access_key_request label \<longleftrightarrow> 1 \<le> length label \<and> length label \<le> 128"

text \<open>\<open>GET /v1/auth/registration\<close>.\<close>

fun mode_name :: "registration_mode \<Rightarrow> string" where
  "mode_name Open = ''open''"
| "mode_name Invite = ''invite''"
| "mode_name Closed = ''closed''"

definition registration :: "settings \<Rightarrow> string" where
  "registration st = mode_name (s_registration_mode st)"

section \<open>What a column holds\<close>

text \<open>The rules of \<open>clean\<close>, \<open>fits\<close> and \<open>in_bits\<close>, by column type.\<close>

fun column_holds :: "sql_type \<Rightarrow> sql_value \<Rightarrow> bool" where
  "column_holds (TString n) (SText s) = fits n s"
| "column_holds TText (SText s) = clean s"
| "column_holds TUuid (SText s) = clean s"
| "column_holds TSmallInteger (SInt i) = in_bits 16 i"
| "column_holds TInteger (SInt i) = in_bits 32 i"
| "column_holds TBigInteger (SInt i) = in_bits 64 i"
| "column_holds TFloat (SFloat x) = True"
| "column_holds TBoolean (SBool b) = True"
| "column_holds TDateTime (STime t) = True"
| "column_holds TStringArray (SArray xs) = list_all clean xs"
| "column_holds TJson (SJson s) = True"
| "column_holds _ _ = False"

definition column_accepts :: "bool \<Rightarrow> sql_type \<Rightarrow> sql_value \<Rightarrow> bool" where
  "column_accepts nullable ty v = (if v = SNull then nullable else column_holds ty v)"

definition table_accepts :: "table \<Rightarrow> row \<Rightarrow> bool" where
  "table_accepts t r \<longleftrightarrow> list_all (\<lambda>c. case map_of r (co_name c) of
       None \<Rightarrow> False
     | Some v \<Rightarrow> column_accepts (co_nullable c) (co_type c) v) (tb_columns t)"

definition text_or_null :: "string option \<Rightarrow> sql_value" where
  "text_or_null x = (case x of None \<Rightarrow> SNull | Some s \<Rightarrow> SText s)"

definition int_or_null :: "int option \<Rightarrow> sql_value" where
  "int_or_null x = (case x of None \<Rightarrow> SNull | Some i \<Rightarrow> SInt i)"

definition time_or_null :: "timestamp option \<Rightarrow> sql_value" where
  "time_or_null x = (case x of None \<Rightarrow> SNull | Some t \<Rightarrow> STime t)"

section \<open>Rows as the ORM writes them\<close>

text \<open>
  Column by column; \<open>json\<close> is the text of a JSON value. Nothing sets \<open>agents.url\<close>, and \<open>updated_at\<close>
  is the server's clock.
\<close>

definition agent_sql_row :: "(agent \<Rightarrow> string) \<Rightarrow> (agent \<Rightarrow> string) \<Rightarrow> timestamp \<Rightarrow> agent \<Rightarrow> row" where
  "agent_sql_row env_json metadata_json now a =
     [(''id'', SText (a_id a)), (''user_id'', SText (uuid_str (a_user_id a))), (''slug'', SText (a_slug a)),
      (''name'', SText (a_name a)), (''runtime'', SText (a_runtime a)), (''framework'', SText (a_framework a)),
      (''model'', SText (a_model a)), (''system_prompt'', text_or_null (a_system_prompt a)),
      (''tags'', SArray (a_tags a)), (''agent_metadata'', SJson (metadata_json a)),
      (''status'', SText (a_status a)), (''error'', text_or_null (a_error a)), (''url'', SNull),
      (''version'', SInt (a_version a)), (''access'', SText (a_access a)),
      (''rate_limit_rpm'', int_or_null (a_rate_limit_rpm a)), (''replicas'', SInt (a_replicas a)),
      (''cpu'', SFloat (a_cpu a)), (''memory_mb'', SInt (a_memory_mb a)), (''gpu'', SInt (a_gpu a)),
      (''gpu_type'', text_or_null (a_gpu_type a)), (''disk_gb'', SInt (a_disk_gb a)),
      (''ephemeral_storage_gb'', SInt (a_ephemeral_storage_gb a)), (''env'', SJson (env_json a)),
      (''image'', text_or_null (a_image a)), (''build_path'', text_or_null (a_build_path a)),
      (''command'', text_or_null (a_command a)), (''args'', SArray (a_args a)),
      (''health_check_path'', text_or_null (a_health_check_path a)), (''auto_scale'', SBool (a_auto_scale a)),
      (''min_replicas'', SInt (a_min_replicas a)), (''max_replicas'', SInt (a_max_replicas a)),
      (''port'', SInt (a_port a)), (''created_at'', STime (a_created_at a)), (''updated_at'', STime now)]"

definition user_sql_row :: "timestamp \<Rightarrow> user \<Rightarrow> row" where
  "user_sql_row now u =
     [(''id'', SText (uuid_str (u_id u))), (''email'', SText (u_email u)),
      (''password_hash'', SText (u_password_hash u)), (''name'', SText (u_name u)), (''role'', SInt (u_role u)),
      (''plan'', SText (u_plan u)), (''stripe_customer_id'', text_or_null (u_stripe_customer_id u)),
      (''stripe_subscription_id'', text_or_null (u_stripe_subscription_id u)),
      (''subscription_status'', text_or_null (u_subscription_status u)), (''is_active'', SBool (u_is_active u)),
      (''created_at'', STime (u_created_at u)), (''updated_at'', STime now)]"

definition invite_sql_row :: "invite \<Rightarrow> row" where
  "invite_sql_row i =
     [(''id'', SText (uuid_str (i_id i))), (''code_hash'', SText (i_code_hash i)),
      (''code_prefix'', SText (i_code_prefix i)), (''note'', SText (i_note i)),
      (''created_by'', text_or_null (map_option uuid_str (i_created_by i))), (''max_uses'', SInt (i_max_uses i)),
      (''use_count'', SInt (i_use_count i)), (''expires_at'', time_or_null (i_expires_at i)),
      (''revoked_at'', time_or_null (i_revoked_at i)), (''created_at'', STime (i_created_at i))]"

definition api_key_sql_row :: "api_key \<Rightarrow> row" where
  "api_key_sql_row k =
     [(''id'', SText (uuid_str (k_id k))), (''user_id'', SText (uuid_str (k_user_id k))),
      (''label'', SText (k_label k)), (''key_prefix'', SText (k_key_prefix k)), (''key_hash'', SText (k_key_hash k)),
      (''scopes'', SArray (k_scopes k)), (''project_id'', text_or_null (k_project_id k)),
      (''created_at'', STime (k_created_at k)), (''last_used_at'', time_or_null (k_last_used_at k)),
      (''revoked_at'', time_or_null (k_revoked_at k)), (''expires_at'', time_or_null (k_expires_at k))]"

definition access_key_sql_row :: "access_key \<Rightarrow> row" where
  "access_key_sql_row k =
     [(''id'', SText (uuid_str (ak_id k))), (''agent_id'', SText (ak_agent_id k)), (''label'', SText (ak_label k)),
      (''key_prefix'', SText (ak_key_prefix k)), (''key_hash'', SText (ak_key_hash k)),
      (''created_at'', STime (ak_created_at k))]"

section \<open>Lemmas\<close>

lemma fits_short: "length s \<le> n \<Longrightarrow> fits n s \<longleftrightarrow> clean s"
  by (simp add: fits_def)

lemma clean_append [simp]: "clean (s @ t) \<longleftrightarrow> clean s \<and> clean t"
  by (auto simp: clean_def)

lemma fits_take: "clean s \<Longrightarrow> n \<le> m \<Longrightarrow> fits m (take n s)"
  by (auto simp: fits_def clean_def dest: in_set_takeD)

lemma accepts_value [simp]:
  "column_accepts nl ty (SText s) = column_holds ty (SText s)" "column_accepts nl ty (SInt i) = column_holds ty (SInt i)"
  "column_accepts nl ty (SFloat x) = column_holds ty (SFloat x)" "column_accepts nl ty (SBool b) = column_holds ty (SBool b)"
  "column_accepts nl ty (STime t) = column_holds ty (STime t)" "column_accepts nl ty (SArray xs) = column_holds ty (SArray xs)"
  "column_accepts nl ty (SJson s) = column_holds ty (SJson s)" "column_accepts nl ty SNull = nl"
  by (simp_all add: column_accepts_def)

lemma accepts_or_null [simp]:
  "column_accepts True (TString n) (text_or_null x) = opt_fits n x"
  "column_accepts True TText (text_or_null x) = opt_clean x"
  "column_accepts True TUuid (text_or_null x) = opt_clean x"
  "column_accepts True TInteger (int_or_null y) = (case y of None \<Rightarrow> True | Some i \<Rightarrow> in_bits 32 i)"
  "column_accepts True TDateTime (time_or_null z)"
  by (simp_all add: text_or_null_def int_or_null_def time_or_null_def opt_fits_def opt_clean_def split: option.split)

lemma column_parts [simp]:
  "co_type (sa_column n ty b d) = ty" "co_type (primary_column n ty) = ty" "co_type (foreign_column n ty b r) = ty"
  "co_nullable (sa_column n ty b d) = b" "co_nullable (primary_column n ty) = False" "co_nullable (foreign_column n ty b r) = b"
  by (simp_all add: sa_column_def primary_column_def foreign_column_def)

lemma clean_uuid [simp]: "clean (uuid_str u)"
proof -
  have "hex_digit d \<noteq> CHR 0x00" if "d < 16" for d
    using code_point_hex_digit [OF that] by (auto simp: code_point_def split: if_splits)
  then have "CHR 0x00 \<notin> set (hex_digits 32 (unat u))" using set_hex_digits [of 32 "unat u"] by fastforce
  then show ?thesis by (auto simp: clean_def uuid_str_def Let_def dest: in_set_takeD in_set_dropD)
qed

text \<open>What the table of agents asks of a row is what inserting one checks.\<close>

lemma agent_row_accepted: "table_accepts Agent_table (agent_sql_row ej mj now a) \<longleftrightarrow> agent_fits a"
  by (simp add: table_accepts_def Agent_table_def agent_sql_row_def agent_fits_def)

lemma clean_slug:
  assumes "set suffix \<subseteq> set SLUG_SUFFIX_ALPHABET"
  shows "clean (new_slug suffix name)"
proof -
  have "CHR 0x00 \<notin> set SLUG_SUFFIX_ALPHABET" "\<not> is_lower_alnum (CHR 0x00)" by code_simp+
  then show ?thesis using assms slug_base_chars [of name] by (auto simp: clean_def new_slug_def)
qed

text \<open>The names of the enumerations fit their columns.\<close>

lemma names_fit:
  "r \<in> set RUNTIME_KINDS \<Longrightarrow> fits 32 r" "x \<in> set AGENT_ACCESS \<Longrightarrow> fits 16 x" "st \<in> set AGENT_STATUSES \<Longrightarrow> fits 32 st"
  by (auto simp: RUNTIME_KINDS_def AGENT_ACCESS_def AGENT_STATUSES_def fits_def clean_def)

lemma in_bits_32: "- 100000 \<le> i \<Longrightarrow> i \<le> 100000 \<Longrightarrow> in_bits 32 i"
  by (simp add: in_bits_def)

text \<open>The row of a body, field by field.\<close>

lemma prepared_texts:
  assumes "prepared_agent pf dr uid b = Inr ag"
  shows "a_id ag = new_agent_id (ad_token dr) \<and> a_user_id ag = uid \<and> a_slug ag = new_slug (ad_suffix dr) (ci_name b) \<and>
    a_name ag = ci_name b \<and> a_runtime ag = ci_runtime b \<and> a_framework ag = ci_framework b \<and> a_model ag = ci_model b \<and>
    a_system_prompt ag = ci_system_prompt b \<and> a_tags ag = ci_tags b \<and> a_status ag = ''pending'' \<and> a_error ag = None \<and>
    a_version ag = 1 \<and> a_access ag = ci_access b \<and> a_rate_limit_rpm ag = None"
  using assms
  by (auto simp: prepared_agent_def Let_def result_simps new_agent_def configured_def apply_deploy_config_def
      split: if_split_asm option.split_asm)

lemma prepared_deploy:
  assumes "prepared_agent pf dr uid b = Inr ag"
  shows "case ci_deploy b of
      None \<Rightarrow> a_gpu_type ag = None \<and> a_image ag = None \<and> a_build_path ag = None \<and> a_command ag = None \<and>
        a_args ag = [] \<and> a_health_check_path ag = None
    | Some c \<Rightarrow> a_gpu_type ag = rl_gpu_type (dc_resources c) \<and> a_image ag = dc_image c \<and>
        a_build_path ag = dc_build_path c \<and> a_command ag = dc_command c \<and> a_args ag = dc_args c \<and>
        a_health_check_path ag = dc_health_check_path c"
  using assms
  by (auto simp: prepared_agent_def Let_def result_simps new_agent_def configured_def apply_deploy_config_def
      split: if_split_asm option.split)

lemma prepared_amounts:
  assumes "prepared_agent pf dr uid b = Inr ag" and "valid_agent_config b"
  shows "in_bits 32 (a_replicas ag) \<and> in_bits 32 (a_memory_mb ag) \<and> in_bits 32 (a_gpu ag) \<and> in_bits 32 (a_disk_gb ag) \<and>
    in_bits 32 (a_ephemeral_storage_gb ag) \<and> in_bits 32 (a_min_replicas ag) \<and> in_bits 32 (a_max_replicas ag) \<and>
    in_bits 32 (a_port ag)"
  using assms
  by (auto simp: prepared_agent_def Let_def result_simps new_agent_def configured_def apply_deploy_config_def
      valid_agent_config_def valid_deploy_def valid_resources_def intro!: in_bits_32 split: if_split_asm option.split_asm)

section \<open>Properties\<close>


definition sample_body :: agent_config_in where
  "sample_body = \<lparr>ci_name = ''Bot'', ci_runtime = ''python3.12'', ci_framework = ''custom'', ci_model = ''gpt-4o'',
     ci_api_key = None, ci_system_prompt = None, ci_deploy = None, ci_access = ''public'', ci_tags = [], ci_metadata = []\<rparr>"


text \<open>
  Accounts, invites and keys made from accepted bodies fit their tables, but for zero bytes in the name,
  the note and the labels. Of the libraries this uses that an e-mail address has at most 254
  characters, a bcrypt hash 60 and a SHA-256 digest 64, none of them a zero byte.
\<close>

definition text_laws :: "(string \<Rightarrow> bool) \<Rightarrow> crypto \<Rightarrow> bool" where
  "text_laws email_ok cr \<longleftrightarrow> (\<forall>s. email_ok s \<longrightarrow> length s \<le> 254 \<and> clean s) \<and>
     (\<forall>salt r s. length (bcrypt_hashpw cr salt r s) = 60 \<and> clean (bcrypt_hashpw cr salt r s)) \<and>
     (\<forall>s. length (sha256_hex cr s) = 64 \<and> clean (sha256_hex cr s))"

theorem account_storable:
  assumes "text_laws email_ok cr" and "valid_register_request email_ok su" and "in_bits 16 (role_value ca OPERATOR)"
  shows "table_accepts User_table (user_sql_row now (new_user st cr ca dr su)) \<longleftrightarrow> clean (su_name su)"
proof -
  have "length (su_email su) \<le> 254 \<and> clean (su_email su)"
    using assms(1,2) unfolding text_laws_def valid_register_request_def by blast
  then have "fits 255 (su_email su)" by (simp add: fits_short)
  moreover have "fits 255 (hash_password st cr (dr_salt dr) (su_password su))"
    "fits 255 (su_name su) \<longleftrightarrow> clean (su_name su)"
    using assms(1,2) by (simp_all add: text_laws_def valid_register_request_def hash_password_def fits_short)
  moreover have "fits 32 ''free''" by (simp add: fits_def clean_def)
  ultimately show ?thesis
    using assms(3) by (simp add: table_accepts_def User_table_def user_sql_row_def new_user_def opt_fits_def)
qed

theorem invite_storable:
  assumes "text_laws email_ok cr" and "valid_invite_request memo n days" and "clean token"
    and "create_invite cr i token now by_user memo n days d = Inr (d', iv, code)"
  shows "table_accepts Invite_table (invite_sql_row iv) \<longleftrightarrow> clean memo"
proof -
  have iv: "i_code_hash iv = hash_code cr code" "i_code_prefix iv = take 10 code" "i_note iv = memo"
    "i_created_by iv = Some by_user" "i_max_uses iv = n" "i_use_count iv = 0" "code = INVITE_PREFIX @ token"
    using assms(4) by (auto simp: create_invite_def Let_def result_simps)
  have "fits 64 (i_code_hash iv)" "fits 255 memo \<longleftrightarrow> clean memo"
    using assms(1,2) by (simp_all add: iv hash_code_def text_laws_def valid_invite_request_def fits_short)
  moreover have "fits 16 (take 10 code)"
    using assms(3) by (intro fits_take) (simp_all add: iv INVITE_PREFIX_def, simp add: clean_def)
  moreover have "in_bits 32 n" "in_bits 32 0"
    using assms(2) by (auto simp: valid_invite_request_def intro!: in_bits_32)
  ultimately show ?thesis
    by (simp add: table_accepts_def Invite_table_def invite_sql_row_def iv opt_clean_def)
qed

theorem keys_storable:
  assumes "text_laws email_ok cr" and "valid_access_key_request label" and "clean (kd_token kd)"
    and "fits 32 (a_id ag)" and "create_access_key cr kd ag label d = Inr (d', k, raw)"
  shows "table_accepts AgentAccessKey_table (access_key_sql_row k) \<longleftrightarrow> clean label"
proof -
  have k: "ak_agent_id k = a_id ag" "ak_label k = label" "ak_key_prefix k = take 12 raw" "ak_key_hash k = hash_key cr raw"
    "raw = KEY_PREFIX @ kd_token kd"
    using assms(5) by (auto simp: create_access_key_def Let_def result_simps)
  have "fits 64 (hash_key cr raw)" "fits 128 label \<longleftrightarrow> clean label"
    using assms(1,2) by (simp_all add: hash_key_def text_laws_def valid_access_key_request_def fits_short)
  moreover have "fits 16 (take 12 raw)"
    using assms(3) by (intro fits_take) (simp_all add: k KEY_PREFIX_def, simp add: clean_def)
  ultimately show ?thesis
    using assms(4) by (simp add: table_accepts_def AgentAccessKey_table_def access_key_sql_row_def k)
qed

end
