(* ===== verification/Spec2Isabelle.thy ===== *)
theory Spec2Isabelle
  imports Administration Billing Agent_Routes Agent_Records Login_Limit Request_Context Gateway_System Migrations
    Application Request_Bodies
begin

text \<open>
  A verification of the AgntSpark gateway, the service in front of the agent hosting platform
  (\<open>src/agntspark_gateway\<close>, with \<open>src/scripts\<close> and \<open>src/alembic\<close>). The gateway registers accounts,
  authenticates them, keeps their agents in a database and has them run by a container runtime,
  routes public requests to them, meters and bills them. This theory imports all others; it has no
  definitions of its own.

  \<^bold>\<open>How the program is modelled.\<close> The database is the record \<open>db\<close>, one list of records per table; a
  request is a function from the state to the new state and a result, \<open>Inl\<close> the exception or \<open>Inr\<close> the
  value. Where an operation commits before it raises, the state is returned beside the exception, so
  that what an error leaves behind is part of the model. Times are integers (microseconds) or rationals
  (the monotonic clock), amounts that Python keeps as floats are rationals, UUIDs are 128-bit words.
  Values that are drawn (ids, tokens, salts) are arguments. Loops are structural recursion over what
  they go through, so nothing needs fuel: the scheduler's loop and the event streams, which run until
  they are cancelled, are functions of the list of the ticks and polls they have made, for every such
  list. The loop of a client that reads all pages of a listing has no bound of its own; it is a
  \<open>partial_function\<close>, and that it ends is proved.

  \<^bold>\<open>Foundations.\<close>
  \<^item> \<open>Gateway_Prelude\<close>: results, rows and their keys, Python's \<open>round\<close>, \<open>strip\<close>, \<open>lower\<close> and \<open>str\<close>;
    \<open>run_steps\<close> and the locale \<open>step_invariant\<close> that every stateful component interprets.
  \<^item> \<open>Py_Uuid\<close>: printing and reading UUIDs.
  \<^item> \<open>Gateway_Errors\<close> (\<open>exceptions.py\<close>, \<open>error_handlers.py\<close>): every exception with its code and details,
    the walk through \<open>_STATUS_MAP\<close>, the handlers. The walk implements the documented status table.
  \<^item> \<open>Gateway_Config\<close> (\<open>config.py\<close>, \<open>plans.py\<close>, \<open>roles.py\<close>, the guard of \<open>main.create_app\<close>): settings, plan
    limits, roles; production does not start with a default secret.
  \<^item> \<open>Gateway_Models\<close> (\<open>models/\<close>): the tables, their unique and foreign keys as \<open>db_wf\<close>, the writes with
    the constraint errors of the database.

  \<^bold>\<open>Components.\<close>
  \<^item> \<open>Registration\<close> (\<open>auth_service.py\<close>, \<open>invite_service.py\<close>, \<open>passwords.py\<close>): in invite mode the number of
    accounts grows exactly with the uses of invites, and an invite admits exactly its remaining uses.
  \<^item> \<open>Credentials\<close> (\<open>api_key_service.py\<close>, \<open>access_key_service.py\<close>, \<open>jwt.py\<close>, \<open>dependencies.py\<close>, the routers for
    keys and login): the locale \<open>credential_store\<close> states what a store of keys promises; API keys and
    access keys both interpret it. A key authenticates only whom it was issued to, a revoked one never
    again, a session token exactly until it expires.
  \<^item> \<open>Login_Limit\<close> (\<open>rate_limit.py\<close>): the limit is exact while Redis works; a lost EXPIRE locks out.
  \<^item> \<open>Quota\<close> (\<open>quota_service.py\<close>) and \<open>Metering\<close> (\<open>metering_service.py\<close>): what passes the quota check fits the plan;
    requests that are counted while batches are written and fail are neither lost nor written twice.
  \<^item> \<open>Ingress_Limits\<close>, \<open>Ingress_Route\<close> (\<open>ingress_limits.py\<close>, \<open>routers/ingress.py\<close>): the locale \<open>rate_limiter\<close> and the
    fixed-window limiter that implements it; who reaches a private agent, what is counted, how much a
    plan serves.
  \<^item> \<open>Billing\<close> (\<open>billing_service.py\<close>, \<open>routers/billing.py\<close>): plans follow the subscription through any sequence
    of webhooks; the effect of each event, its idempotence, the unverified ones.
  \<^item> \<open>Administration\<close> (\<open>routers/admin.py\<close>, \<open>routers/account.py\<close>, \<open>set_user_role.py\<close>): account changes, and the
    script that makes the first admin.
  \<^item> \<open>Agent_Config\<close> (\<open>schemas/agents.py\<close>, \<open>secrets.py\<close>, the pure part of \<open>agent_service.py\<close>): slugs are DNS labels,
    secrets come back for the container and never for the API, configurations are read back.
  \<^item> \<open>Core_Runtime\<close> (\<open>runtime.py\<close>), \<open>Agent_Service\<close> (the operations of \<open>agent_service.py\<close>), \<open>Agent_Routes\<close>
    (\<open>routers/agents.py\<close>): nobody touches another's agent, what each outcome of a deployment leaves behind,
    a refused request leaves nothing, changes need the developer role, reading a listing page by page
    ends and is complete, log streams send every line once.
  \<^item> \<open>Scheduler\<close> (\<open>scheduler.py\<close>, the shutdown of \<open>main.lifespan\<close>): ticks take over what the runtime reports
    along the transitions of an agent's life; no account is metered more than the time that passed.
  \<^item> \<open>Agent_Records\<close>: requests and ticks interleaved; rows stay well-typed, and which of them the API can
    show.
  \<^item> \<open>Request_Context\<close> (\<open>observability.py\<close>, \<open>health.py\<close>, parts of \<open>error_handlers.py\<close> and \<open>main.py\<close>): request ids,
    access log, the configuration of structlog, validation errors, probes, the options of error reporting.
  \<^item> \<open>Gateway_System\<close>: all operations of all components as one machine; the constraints of the schema
    hold under any interleaving, and there is an admin afterwards if and only if there was one before.
  \<^item> \<open>Application\<close> (\<open>main.py\<close>): what \<open>create_app\<close> configures, and the life of a process from the
    reconciliation of the runtime to the last flush, with the scheduler cancelled wherever it may be
    waiting. Every routed request is accounted for afterwards, except the batch of a flush that the
    cancellation interrupts.
  \<^item> \<open>Request_Bodies\<close> (\<open>schemas/\<close>, \<open>models/\<close>): the constraints of the remaining request bodies, and rows as
    the ORM writes them against the types of their columns: exactly which accepted bodies of agents do
    not fit their table.
  \<^item> \<open>Sql_Schema\<close>, \<open>Migrations\<close> (\<open>alembic/versions\<close>, \<open>models/\<close>): the migrations as programs of SQL statements on
    databases with rows; they build exactly the tables of the ORM classes, and each can be taken back.

  \<^bold>\<open>Parameters.\<close> Code outside the repository is an argument of the definitions that call it: the roles
  and key minting of agntspark\_core (\<open>core_auth\<close>, with \<open>role_laws\<close>), its container runtime (\<open>core_runtime\<close>, any
  behaviour, any exception), SHA-256, bcrypt, Fernet and PyJWT (\<open>crypto\<close>, with the laws \<open>bcrypt_law\<close>,
  \<open>fernet_law\<close> and the like), Stripe (\<open>stripe_client\<close>, any answers), Redis (\<open>redis\<close>, with \<open>redis_law\<close>) and MD5. Each
  law states documented behaviour, and the sample instances (\<open>sample_crypto\<close>, \<open>sample_core_auth\<close>,
  \<open>sample_platform\<close>, \<open>sample_redis\<close>) meet them; the witnesses use these. SQL is modelled as the language
  it is: select, insert, update and delete with constraint errors in \<open>Gateway_Models\<close>, data definition in
  \<open>Sql_Schema\<close>.

  \<^bold>\<open>Not modelled.\<close> The columns \<open>updated_at\<close> and \<open>agents.url\<close>, the texts of messages, the errors of writes
  that do not fit a column (which writes these are is what \<open>Request_Bodies\<close> shows), the rounding of floats (rationals are exact; \<open>round\<close> is modelled), other writers of the
  same row in the middle of one agent operation, bodies that validation refuses (what it accepts is
  modelled), e-mail syntax. Without logic of their own: the construction of the database engine and
  sessions (\<open>db.py\<close>, \<open>alembic/env.py\<close>) and the server process (\<open>\_\_main\_\_.py\<close>). How FastAPI matches paths
  and CORS answers are the libraries' own.
\<close>

end
